theory Spec2Isabelle
  imports Main
begin

section \<open>Runtime values\<close>

text \<open>
  A JavaScript string is a sequence of UTF-16 code units; \<open>charCodeAt\<close> reads one of
  them. Numbers that reach the interpreter are program offsets and pool indices, so they
  are modelled as integers.
\<close>

type_synonym jsstring = "nat list"

definition str :: "string \<Rightarrow> jsstring" where
  "str s = map of_char s"

text \<open>
  The values of the literal pool: strings, numbers, booleans, \<open>undefined\<close>, and
  objects (class thunks, nested packed arrays, functions), which the interpreter only
  passes around and which are identified by a handle.
\<close>

datatype prim = PUndefined | PStr jsstring | PNum int | PBool bool | PObj nat

section \<open>Packed programs and the decoder\<close>

record PackStruct =
  packOps :: "int list"
  packStack :: "prim list"

text \<open>\<open>unpackOps\<close>: the loop pushes \<open>charCodeAt(i) - 33\<close> for each index in turn.\<close>

fun unpackOps :: "int list \<Rightarrow> jsstring \<Rightarrow> int list" where
  "unpackOps decodedOps [] = decodedOps"
| "unpackOps decodedOps (c # encodedOPs) = unpackOps (decodedOps @ [int c - 33]) encodedOPs"

text \<open>
  \<open>unpack\<close>: \<open>pack[pack.length - 1]\<close> is \<open>undefined\<close> for the empty array, which is
  not a string either.
\<close>

definition unpack :: "prim list \<Rightarrow> PackStruct" where
  "unpack pack =
     (case (if pack = [] then PUndefined else last pack) of
        PStr encodedOPs \<Rightarrow>
          \<lparr>packOps = unpackOps [] encodedOPs,
           packStack = (if length pack > 1 then butlast pack else [])\<rparr>
      | _ \<Rightarrow> \<lparr>packOps = [], packStack = []\<rparr>)"

section \<open>Type nodes\<close>

datatype ReflectionKind =
    K_never | K_any | K_unknown | K_void | K_object | K_string | K_number | K_boolean
  | K_symbol | K_bigint | K_null | K_undefined | K_regexp | K_literal | K_templateLiteral
  | K_property | K_method | K_function | K_parameter | K_promise | K_class
  | K_typeParameter | K_enum | K_union | K_intersection | K_array | K_tuple
  | K_tupleMember | K_enumMember | K_rest | K_objectLiteral | K_indexSignature
  | K_propertySignature | K_methodSignature | K_infer

datatype ReflectionVisibility = V_public | V_protected | V_private

text \<open>
  The class a \<open>class\<close> node stands for: \<open>Object\<close>, one of the built-in classes the
  special opcodes name, or a handle from the pool.
\<close>

datatype ClassType = C_none | C_Object | C_builtin string | C_handle nat

text \<open>
  A type node is a JavaScript object with a \<open>kind\<close> and whatever fields the opcodes
  assign. The scalar fields are gathered in a record; a field that is absent
  (\<open>undefined\<close>) is \<open>PUndefined\<close>, \<open>None\<close> or \<open>False\<close> (the flags are only ever
  assigned \<open>true\<close>). The fields that hold type nodes are arguments of the constructor.
\<close>

record Attrs =
  literal :: prim
  name :: prim
  optional :: bool
  readonly :: bool
  abstract :: bool
  visibility :: "ReflectionVisibility option"
  classType :: ClassType

datatype Type = Node
  (kind: ReflectionKind)
  (attrs: Attrs)
  (types: "Type list")
  (type: "Type option")
  (parameters: "Type list")
  (return: "Type option")
  (index: "Type option")
  (arguments: "Type list option")

definition noAttrs :: Attrs where
  "noAttrs = \<lparr>literal = PUndefined, name = PUndefined, optional = False, readonly = False,
     abstract = False, visibility = None, classType = C_none\<rparr>"

text \<open>The object literal \<open>{kind: k}\<close>.\<close>

definition mk :: "ReflectionKind \<Rightarrow> Type" where
  "mk k = Node k noAttrs [] None [] None None None"

fun setAttrs :: "(Attrs \<Rightarrow> Attrs) \<Rightarrow> Type \<Rightarrow> Type" where
  "setAttrs f (Node k a ts t ps r i args) = Node k (f a) ts t ps r i args"

fun setTypes :: "Type list \<Rightarrow> Type \<Rightarrow> Type" where
  "setTypes ts (Node k a _ t ps r i args) = Node k a ts t ps r i args"

fun setType :: "Type \<Rightarrow> Type \<Rightarrow> Type" where
  "setType t (Node k a ts _ ps r i args) = Node k a ts (Some t) ps r i args"

fun setParameters :: "Type list \<Rightarrow> Type \<Rightarrow> Type" where
  "setParameters ps (Node k a ts t _ r i args) = Node k a ts t ps r i args"

fun setReturn :: "Type \<Rightarrow> Type \<Rightarrow> Type" where
  "setReturn r (Node k a ts t ps _ i args) = Node k a ts t ps (Some r) i args"

fun setIndex :: "Type \<Rightarrow> Type \<Rightarrow> Type" where
  "setIndex i (Node k a ts t ps r _ args) = Node k a ts t ps r (Some i) args"

fun setArguments :: "Type list \<Rightarrow> Type \<Rightarrow> Type" where
  "setArguments args (Node k a ts t ps r i _) = Node k a ts t ps r i (Some args)"

text \<open>
  What a stack slot or a frame input holds: a value of the pool or a type node. The
  type nodes are values of \<open>Type\<close> where only the shape of a node matters, and
  addresses in a store where it matters which object a node is; \<open>'r\<close> is the one or
  the other.
\<close>

datatype 'r entry = Prim prim | Ty 'r

section \<open>Machine state\<close>

text \<open>
  The outcomes that are not a new state: the \<open>Error('Stack empty')\<close> of \<open>pop\<close>, a
  \<open>TypeError\<close> of the JavaScript runtime (a property read on \<open>undefined\<close>), the
  \<open>Error('No type returned from runtime type program')\<close> of \<open>resolveRuntimeType\<close>, and
  \<open>Unmodelled\<close>: the source goes on, on values this model does not follow (a
  non-type value stored in a node, \<open>NaN\<close> as a program counter, thunks and the
  helpers of other modules).
\<close>

datatype error = StackEmpty | TypeError | NoTypeReturned | Unmodelled

fun andThen :: "error + 'a \<Rightarrow> ('a \<Rightarrow> error + 'b) \<Rightarrow> error + 'b" where
  "andThen (Inl e) f = Inl e"
| "andThen (Inr x) f = f x"

text \<open>The cursor of a distributive or mapped loop.\<close>

record 'r Loop =
  loopTypes :: "'r list"
  loopI :: nat

record 'r Frame =
  frameIndex :: int
  startIndex :: int
  variables :: nat
  inputs :: "'r entry list"
  mappedType :: "'r Loop option"
  distributiveLoop :: "'r Loop option"

text \<open>
  The processor. The \<open>stack\<close> array is a function from indices to entries together
  with its \<open>length\<close>: a read outside gives \<open>undefined\<close>, a write at or beyond the
  length extends the array, a write at a negative index is a property of the array
  object. The chain \<open>frame.previous\<close>, \<open>frame.previous.previous\<close>, ... is the
  list \<open>previous\<close>; only the current frame is ever assigned to.
\<close>

record 'r Processor =
  stack :: "int \<Rightarrow> 'r entry"
  stackLength :: nat
  stackPointer :: int
  frame :: "'r Frame"
  previous :: "'r Frame list"
  program :: int

definition newArray :: "'r entry \<Rightarrow> nat \<Rightarrow> int \<Rightarrow> 'r entry" where
  "newArray init items = (\<lambda>k. if 0 \<le> k \<and> k < int items then init else Prim PUndefined)"

definition newProcessor :: "Type Processor" where
  "newProcessor = \<lparr>stack = newArray (Ty (mk K_never)) 128, stackLength = 128,
     stackPointer = - 1,
     frame = \<lparr>frameIndex = 0, startIndex = - 1, variables = 0, inputs = [],
       mappedType = None, distributiveLoop = None\<rparr>,
     previous = [], program = 0\<rparr>"

text \<open>\<open>this.stack[k] = entry\<close>\<close>

definition store :: "int \<Rightarrow> 'r entry \<Rightarrow> 'r Processor \<Rightarrow> 'r Processor" where
  "store k entry s = s\<lparr>stack := (stack s)(k := entry),
     stackLength := (if 0 \<le> k then max (stackLength s) (nat k + 1) else stackLength s)\<rparr>"

text \<open>\<open>this.stack.slice(a, b)\<close>: negative bounds count from the end, both are clamped.\<close>

definition clampIndex :: "nat \<Rightarrow> int \<Rightarrow> nat" where
  "clampIndex n k = (if k < 0 then nat (max (int n + k) 0) else min (nat k) n)"

definition slice :: "'r Processor \<Rightarrow> int \<Rightarrow> int \<Rightarrow> 'r entry list" where
  "slice s a b = map (\<lambda>k. stack s (int k))
     [clampIndex (stackLength s) a ..< clampIndex (stackLength s) b]"

definition push :: "'r entry \<Rightarrow> 'r Processor \<Rightarrow> 'r Processor" where
  "push entry s = store (stackPointer s + 1) entry (s\<lparr>stackPointer := stackPointer s + 1\<rparr>)"

definition pop :: "'r Processor \<Rightarrow> error + ('r entry \<times> 'r Processor)" where
  "pop s = (if stackPointer s < 0 then Inl StackEmpty
            else Inr (stack s (stackPointer s), s\<lparr>stackPointer := stackPointer s - 1\<rparr>))"

definition pushFrame :: "'r Processor \<Rightarrow> 'r Processor" where
  "pushFrame s = s\<lparr>frame := \<lparr>frameIndex = frameIndex (frame s) + 1,
       startIndex = stackPointer s, variables = 0, inputs = [],
       mappedType = None, distributiveLoop = None\<rparr>,
     previous := frame s # previous s\<rparr>"

text \<open>\<open>if (this.frame.previous) this.frame = this.frame.previous\<close>\<close>

definition restoreFrame :: "'r Processor \<Rightarrow> 'r Processor" where
  "restoreFrame s = (case previous s of [] \<Rightarrow> s | f # fs \<Rightarrow> s\<lparr>frame := f, previous := fs\<rparr>)"

definition popFrame :: "'r Processor \<Rightarrow> 'r entry list \<times> 'r Processor" where
  "popFrame s =
     (slice s (startIndex (frame s) + int (variables (frame s)) + 1) (stackPointer s + 1),
      restoreFrame (s\<lparr>stackPointer := startIndex (frame s)\<rparr>))"

text \<open>\<open>call(program, jumpBackTo = 1)\<close>\<close>

definition call :: "int \<Rightarrow> int \<Rightarrow> 'r Processor \<Rightarrow> 'r Processor" where
  "call target jumpBackTo s =
     (pushFrame (push (Prim (PNum (program s + jumpBackTo))) s))\<lparr>program := target - 1\<rparr>"

definition returnFrame :: "'r Processor \<Rightarrow> error + 'r Processor" where
  "returnFrame s = andThen (pop s) (\<lambda>(returnValue, s1).
     let returnAddress = stack s1 (startIndex (frame s1));
         s2 = push returnValue (s1\<lparr>stackPointer := startIndex (frame s1) - 1\<rparr>);
         s3 = (case returnAddress of Prim (PNum n) \<Rightarrow> s2\<lparr>program := n - 1\<rparr> | _ \<Rightarrow> s2)
     in Inr (restoreFrame s3))"

text \<open>\<open>eatParameter\<close>: \<open>ops[++this.program]\<close>, \<open>undefined\<close> outside the array.\<close>

definition opAt :: "int list \<Rightarrow> int \<Rightarrow> int option" where
  "opAt ops k = (if 0 \<le> k \<and> k < int (length ops) then Some (ops ! nat k) else None)"

definition eatParameter :: "int list \<Rightarrow> 'r Processor \<Rightarrow> int option \<times> 'r Processor" where
  "eatParameter ops s = (opAt ops (program s + 1), s\<lparr>program := program s + 1\<rparr>)"

text \<open>\<open>initialStack[ref]\<close>, \<open>undefined\<close> when \<open>ref\<close> is \<open>undefined\<close> or outside.\<close>

definition poolAt :: "prim list \<Rightarrow> int option \<Rightarrow> prim" where
  "poolAt initialStack ref = (case ref of None \<Rightarrow> PUndefined
     | Some k \<Rightarrow> if 0 \<le> k \<and> k < int (length initialStack) then initialStack ! nat k else PUndefined)"

section \<open>Helpers of the type module\<close>

text \<open>
  Modelled from the spec: \<open>flattenUnionTypes\<close>, \<open>unboxUnion\<close>, \<open>narrowOriginalLiteral\<close>
  and \<open>isType\<close> are imported from \<open>./type\<close>, which is not part of the sources at hand.
  The spec: "flattenUnionTypes(ts): recursively inline nested unions; drop never";
  "unboxUnion(u): if union has exactly one member, return that member; otherwise
  return the union"; "narrowOriginalLiteral(t): returns t unchanged unless it is a
  widening candidate" (a node that records an original literal, which no node built
  here does). \<open>isType\<close> is the type guard that tells type nodes from the other stack
  entries.
\<close>

fun flattenType :: "Type \<Rightarrow> Type list"
  and flattenUnionTypes :: "Type list \<Rightarrow> Type list" where
  "flattenType (Node k a ts t ps r i args) =
     (if k = K_union then flattenUnionTypes ts
      else if k = K_never then []
      else [Node k a ts t ps r i args])"
| "flattenUnionTypes [] = []"
| "flattenUnionTypes (t # ts) = flattenType t @ flattenUnionTypes ts"

definition unboxUnion :: "Type \<Rightarrow> Type" where
  "unboxUnion u = (case types u of [t] \<Rightarrow> t | _ \<Rightarrow> u)"

definition narrowOriginalLiteral :: "'r entry \<Rightarrow> 'r entry" where
  "narrowOriginalLiteral t = t"

fun isType :: "'r entry \<Rightarrow> bool" where
  "isType (Ty t) = True"
| "isType (Prim p) = False"

section \<open>Opcodes\<close>

text \<open>
  The opcodes, named as the \<open>case\<close> labels of \<open>run\<close>. Labels whose cases are the
  same code up to a constant share a constructor: \<open>Op_scalar k\<close> stands for the
  thirteen opcodes that push \<open>{kind: k}\<close> (\<open>string\<close>, \<open>number\<close>, ..., \<open>regexp\<close>),
  \<open>Op_special c\<close> for the twelve that push the class node of a built-in class
  (\<open>date\<close>, \<open>uint8Array\<close>, ..., \<open>arrayBuffer\<close>), \<open>Op_wrap k\<close> for \<open>array\<close>,
  \<open>promise\<close>, \<open>rest\<close> and \<open>tupleMember\<close>, \<open>Op_visibility v\<close> for \<open>public\<close>,
  \<open>protected\<close> and \<open>private\<close>. \<open>Op_other l\<close> stands for the labels whose cases
  this model does not follow: \<open>numberBrand\<close>, \<open>templateLiteral\<close>, \<open>classReference\<close>,
  \<open>enum\<close>, \<open>enumMember\<close>, \<open>tuple\<close>, \<open>namedTupleMember\<close>, \<open>set\<close>, \<open>map\<close>,
  \<open>intersection\<close>, \<open>function\<close>, \<open>defaultValue\<close>, \<open>description\<close>,
  \<open>indexSignature\<close>, \<open>infer\<close>, \<open>indexAccess\<close>, \<open>typeof\<close>, \<open>mappedType\<close>.
  \<open>inline\<close> and \<open>inlineCall\<close> depend on which object a node is; they are followed
  in the store model further down.
\<close>

datatype ReflectionOp =
    Op_scalar ReflectionKind | Op_special string | Op_wrap ReflectionKind
  | Op_visibility ReflectionVisibility | Op_other string
  | Op_literal | Op_class | Op_parameter | Op_union | Op_property | Op_propertySignature
  | Op_method | Op_methodSignature | Op_optional | Op_readonly | Op_abstract
  | Op_objectLiteral | Op_distribute | Op_condition | Op_jumpCondition | Op_extends
  | Op_keyof | Op_var | Op_loads | Op_arg | Op_return | Op_frame | Op_moveFrame
  | Op_jump | Op_call | Op_inline | Op_inlineCall | Op_typeParameter | Op_typeParameterDefault

text \<open>
  What the interpreter takes from modules that are not part of the sources at hand:
  the numbering of the \<open>ReflectionOp\<close> enumeration (\<open>opOf n\<close> is the opcode whose
  \<open>case\<close> label equals \<open>n\<close>, \<open>None\<close> when no label does) and the assignability
  test \<open>isExtendable\<close> of \<open>./extends\<close>.
\<close>

record Env =
  opOf :: "int \<Rightarrow> ReflectionOp option"
  isExtendable :: "Type entry \<Rightarrow> Type entry \<Rightarrow> bool"

text \<open>\<open>x as Type\<close> where the value goes into a field of a node.\<close>

fun asType :: "'r entry \<Rightarrow> error + 'r" where
  "asType (Ty t) = Inr t"
| "asType (Prim p) = Inl Unmodelled"

fun asTypes :: "'r entry list \<Rightarrow> error + 'r list" where
  "asTypes [] = Inr []"
| "asTypes (e # es) = andThen (asType e) (\<lambda>t. andThen (asTypes es) (\<lambda>ts. Inr (t # ts)))"

text \<open>JavaScript truthiness.\<close>

fun truthyPrim :: "prim \<Rightarrow> bool" where
  "truthyPrim PUndefined = False"
| "truthyPrim (PStr v) = (v \<noteq> [])"
| "truthyPrim (PNum n) = (n \<noteq> 0)"
| "truthyPrim (PBool b) = b"
| "truthyPrim (PObj h) = True"

fun truthy :: "'r entry \<Rightarrow> bool" where
  "truthy (Prim p) = truthyPrim p"
| "truthy (Ty t) = True"

fun isFunction :: "prim \<Rightarrow> bool" where
  "isFunction (PObj h) = True"
| "isFunction _ = False"

definition pushType :: "Type \<Rightarrow> Type Processor \<Rightarrow> Type Processor" where
  "pushType t s = push (Ty t) s"

text \<open>\<open>pushType({kind: ..., type: this.pop()})\<close>\<close>

definition wrapTop :: "(Type \<Rightarrow> Type) \<Rightarrow> Type Processor \<Rightarrow> error + Type Processor" where
  "wrapTop f s = andThen (pop s) (\<lambda>(e, s1). andThen (asType e) (\<lambda>t. Inr (pushType (f t) s1)))"

text \<open>\<open>(this.stack[this.stackPointer] as ...).field = value\<close>\<close>

definition assignTop :: "(Attrs \<Rightarrow> Attrs) \<Rightarrow> Type Processor \<Rightarrow> error + Type Processor" where
  "assignTop f s = (case stack s (stackPointer s) of
       Ty t \<Rightarrow> Inr (store (stackPointer s) (Ty (setAttrs f t)) s)
     | Prim PUndefined \<Rightarrow> Inl TypeError
     | Prim _ \<Rightarrow> Inl Unmodelled)"

definition builtinClass :: "string \<Rightarrow> Type" where
  "builtinClass c = setAttrs (\<lambda>a. a\<lparr>classType := C_builtin c\<rparr>) (mk K_class)"

subsection \<open>\<open>class\<close>\<close>

text \<open>The property a constructor parameter with a visibility is promoted to.\<close>

definition parameterProperty :: "Type \<Rightarrow> Type" where
  "parameterProperty parameter =
     Node K_property
       (noAttrs\<lparr>name := name (attrs parameter),
                visibility := visibility (attrs parameter),
                optional := optional (attrs parameter),
                readonly := readonly (attrs parameter)\<rparr>)
       [] (type parameter) [] None None None"

text \<open>The inner loop over \<open>member.parameters\<close>: the pushed properties, in order.\<close>

fun promoted :: "Type list \<Rightarrow> Type list" where
  "promoted [] = []"
| "promoted (parameter # ps) =
     (if visibility (attrs parameter) \<noteq> None then parameterProperty parameter # promoted ps
      else promoted ps)"

text \<open>
  The outer loop over the members: the first method named \<open>constructor\<close> has its
  parameters promoted, then the loop is left.
\<close>

fun constructorProperties :: "Type list \<Rightarrow> Type list" where
  "constructorProperties [] = []"
| "constructorProperties (member # ms) =
     (if kind member = K_method \<and> name (attrs member) = PStr (str ''constructor'')
      then promoted (parameters member)
      else constructorProperties ms)"

text \<open>
  \<open>Object.assign(this.resultType, t)\<close> copies every field of \<open>t\<close> into the anchor,
  which is \<open>{kind: any}\<close> until then: as a value the result is \<open>t\<close>.
\<close>

definition op_class :: "Type Processor \<Rightarrow> error + Type Processor" where
  "op_class s = (case popFrame s of (entries, s1) \<Rightarrow>
     andThen (asTypes entries) (\<lambda>members.
       let types = members @ constructorProperties members;
           args = filter isType (inputs (frame s1));
           t = setTypes types (setAttrs (\<lambda>a. a\<lparr>classType := C_Object\<rparr>) (mk K_class))
       in andThen (asTypes args) (\<lambda>args.
            Inr (pushType (if args \<noteq> [] then setArguments args t else t) s1))))"

definition op_objectLiteral :: "Type Processor \<Rightarrow> error + Type Processor" where
  "op_objectLiteral s = (case popFrame s of (entries, s1) \<Rightarrow>
     andThen (asTypes entries) (\<lambda>types. Inr (pushType (setTypes types (mk K_objectLiteral)) s1)))"

subsection \<open>\<open>literal\<close>, \<open>parameter\<close>, \<open>property\<close>, \<open>method\<close>\<close>

definition op_literal :: "int list \<Rightarrow> prim list \<Rightarrow> Type Processor \<Rightarrow> error + Type Processor" where
  "op_literal ops initialStack s = (case eatParameter ops s of (ref, s1) \<Rightarrow>
     Inr (pushType (setAttrs (\<lambda>a. a\<lparr>literal := poolAt initialStack ref\<rparr>) (mk K_literal)) s1))"

definition op_parameter :: "int list \<Rightarrow> prim list \<Rightarrow> Type Processor \<Rightarrow> error + Type Processor" where
  "op_parameter ops initialStack s = (case eatParameter ops s of (ref, s1) \<Rightarrow>
     wrapTop (\<lambda>t. setType t (setAttrs (\<lambda>a. a\<lparr>name := poolAt initialStack ref\<rparr>) (mk K_parameter))) s1)"

text \<open>
  The reduction of \<open>property\<close> and \<open>propertySignature\<close>: for a union of exactly two
  members, \<open>find\<close> looks for a member of kind \<open>undefined\<close> and for a member that is
  neither \<open>null\<close> nor \<open>undefined\<close>; when both exist the type becomes the latter and
  the property optional.
\<close>

definition reduceOptional :: "Type \<Rightarrow> Type \<times> bool" where
  "reduceOptional t =
     (if kind t = K_union \<and> length (types t) = 2 then
        (case (find (\<lambda>v. kind v = K_undefined) (types t),
               find (\<lambda>v. kind v \<noteq> K_null \<and> kind v \<noteq> K_undefined) (types t)) of
           (Some undefinedType, Some restType) \<Rightarrow> (restType, True)
         | _ \<Rightarrow> (t, False))
      else (t, False))"

text \<open>
  \<open>isSignature\<close> is \<open>op === ReflectionOp.propertySignature\<close>. A name that is a
  function is called for the name (a symbol): not followed here.
\<close>

definition op_property :: "bool \<Rightarrow> int list \<Rightarrow> prim list \<Rightarrow> Type Processor \<Rightarrow> error + Type Processor" where
  "op_property isSignature ops initialStack s = (case eatParameter ops s of (ref, s1) \<Rightarrow>
     andThen (pop s1) (\<lambda>(e, s2).
       case e of
         Prim PUndefined \<Rightarrow> Inl TypeError
       | Prim _ \<Rightarrow> Inl Unmodelled
       | Ty popped \<Rightarrow>
           (case reduceOptional popped of (t, isOptional) \<Rightarrow>
              if isFunction (poolAt initialStack ref) then Inl Unmodelled
              else Inr (pushType
                (Node (if isSignature then K_propertySignature else K_property)
                   (noAttrs\<lparr>name := poolAt initialStack ref, optional := isOptional,
                      visibility := (if isSignature then None else Some V_public)\<rparr>)
                   [] (Some t) [] None None None) s2))))"

definition op_method :: "bool \<Rightarrow> int list \<Rightarrow> prim list \<Rightarrow> Type Processor \<Rightarrow> error + Type Processor" where
  "op_method isSignature ops initialStack s = (case eatParameter ops s of (ref, s1) \<Rightarrow>
     case popFrame s1 of (entries, s2) \<Rightarrow>
       andThen (asTypes entries) (\<lambda>types.
         let returnType = (if length types > 0 then last types else mk K_any);
             params = (if length types > 1 then butlast types else [])
         in Inr (pushType
              (Node (if isSignature then K_methodSignature else K_method)
                 (noAttrs\<lparr>name := poolAt initialStack ref,
                    visibility := (if isSignature then None else Some V_public)\<rparr>)
                 [] None params (Some returnType) None None) s2)))"

subsection \<open>\<open>typeParameter\<close> and \<open>typeParameterDefault\<close>\<close>

text \<open>\<open>this.frame.inputs[k]\<close>\<close>

definition inputAt :: "'r entry list \<Rightarrow> nat \<Rightarrow> 'r entry" where
  "inputAt xs k = (if k < length xs then xs ! k else Prim PUndefined)"

definition bumpVariables :: "'r Processor \<Rightarrow> 'r Processor" where
  "bumpVariables s = s\<lparr>frame := (frame s)\<lparr>variables := variables (frame s) + 1\<rparr>\<rparr>"

definition pushParameter :: "prim \<Rightarrow> Type entry \<Rightarrow> Type Processor \<Rightarrow> Type Processor" where
  "pushParameter nameValue t s =
     (if t = Prim PUndefined
      then pushType (setAttrs (\<lambda>a. a\<lparr>name := nameValue\<rparr>) (mk K_typeParameter)) s
      else push t s)"

definition op_typeParameter :: "bool \<Rightarrow> int list \<Rightarrow> prim list \<Rightarrow> Type Processor \<Rightarrow> error + Type Processor" where
  "op_typeParameter isDefault ops initialStack s = (case eatParameter ops s of (nameRef, s1) \<Rightarrow>
     let t = inputAt (inputs (frame s1)) (variables (frame s1));
         s2 = bumpVariables s1
     in if isDefault then
          andThen (pop s2) (\<lambda>(defaultValue, s3).
            Inr (pushParameter (poolAt initialStack nameRef)
                   (if t = Prim PUndefined then defaultValue else t) s3))
        else Inr (pushParameter (poolAt initialStack nameRef) t s2))"

subsection \<open>\<open>union\<close> and \<open>keyof\<close>\<close>

definition op_union :: "Type Processor \<Rightarrow> error + Type Processor" where
  "op_union s = (case popFrame s of (entries, s1) \<Rightarrow>
     andThen (asTypes entries) (\<lambda>types.
       Inr (pushType (unboxUnion (setTypes (flattenUnionTypes types) (mk K_union))) s1)))"

text \<open>The literal node \<open>keyof\<close> pushes for a member, when it pushes one.\<close>

definition keyLiteral :: "Type \<Rightarrow> Type" where
  "keyLiteral member = setAttrs (\<lambda>a. a\<lparr>literal := name (attrs member)\<rparr>) (mk K_literal)"

fun keyofMembers :: "Type list \<Rightarrow> Type list" where
  "keyofMembers [] = []"
| "keyofMembers (member # ms) =
     (if kind member = K_propertySignature \<or> kind member = K_property then
        keyLiteral member # keyofMembers ms
      else if kind member = K_methodSignature \<or> kind member = K_method then
        keyLiteral member # keyofMembers ms
      else keyofMembers ms)"

definition op_keyof :: "Type Processor \<Rightarrow> error + Type Processor" where
  "op_keyof s = andThen (pop s) (\<lambda>(e, s1).
     case e of
       Prim PUndefined \<Rightarrow> Inl TypeError
     | Prim _ \<Rightarrow> Inr (push (Ty (mk K_union)) s1)
     | Ty t \<Rightarrow>
         Inr (push (Ty (setTypes
           (if kind t = K_objectLiteral \<or> kind t = K_class then keyofMembers (types t) else [])
           (mk K_union))) s1))"

subsection \<open>Control flow\<close>

text \<open>
  A parameter that \<open>eatParameter\<close> reads beyond the end of the opcodes is
  \<open>undefined\<close>; as a jump target it makes the program counter \<open>NaN\<close>.
\<close>

definition op_jump :: "int list \<Rightarrow> Type Processor \<Rightarrow> error + Type Processor" where
  "op_jump ops s = (case eatParameter ops s of
       (Some arg, s1) \<Rightarrow> Inr (s1\<lparr>program := arg - 1\<rparr>)
     | (None, s1) \<Rightarrow> Inl Unmodelled)"

definition op_call :: "int list \<Rightarrow> Type Processor \<Rightarrow> error + Type Processor" where
  "op_call ops s = (case eatParameter ops s of
       (Some target, s1) \<Rightarrow> Inr (call target 1 s1)
     | (None, s1) \<Rightarrow> Inl Unmodelled)"

definition op_jumpCondition :: "int list \<Rightarrow> Type Processor \<Rightarrow> error + Type Processor" where
  "op_jumpCondition ops s = (case eatParameter ops s of (leftProgram, s1) \<Rightarrow>
     case eatParameter ops s1 of (rightProgram, s2) \<Rightarrow>
       andThen (pop s2) (\<lambda>(condition, s3).
         case (if truthy condition then leftProgram else rightProgram) of
           Some target \<Rightarrow> Inr (call target 1 s3)
         | None \<Rightarrow> Inl Unmodelled))"

definition op_condition :: "Type Processor \<Rightarrow> error + Type Processor" where
  "op_condition s = andThen (pop s) (\<lambda>(right, s1).
     andThen (pop s1) (\<lambda>(left, s2).
       andThen (pop s2) (\<lambda>(condition, s3).
         case popFrame s3 of (discarded, s4) \<Rightarrow>
           Inr (push (if truthy condition then left else right) s4))))"

definition op_extends :: "Env \<Rightarrow> Type Processor \<Rightarrow> error + Type Processor" where
  "op_extends env s = andThen (pop s) (\<lambda>(right, s1).
     andThen (pop s1) (\<lambda>(left, s2).
       Inr (push (Prim (PBool (isExtendable env left right))) s2)))"

definition op_var :: "Type Processor \<Rightarrow> error + Type Processor" where
  "op_var s = Inr (bumpVariables (push (Ty (mk K_never)) s))"

definition op_moveFrame :: "Type Processor \<Rightarrow> error + Type Processor" where
  "op_moveFrame s = andThen (pop s) (\<lambda>(t, s1).
     case popFrame s1 of (discarded, s2) \<Rightarrow> Inr (if truthy t then push t s2 else s2))"

text \<open>
  \<open>loads\<close>: the frame \<open>frameOffset\<close> links up the chain; a link that is missing is a
  read of \<open>startIndex\<close> on \<open>undefined\<close>. A \<open>frameOffset\<close> that is not positive (or is
  \<open>undefined\<close>) leaves the walk at the current frame.
\<close>

definition frameUp :: "Type Processor \<Rightarrow> int option \<Rightarrow> error + Type Frame" where
  "frameUp s frameOffset = (case frameOffset of
       None \<Rightarrow> Inr (frame s)
     | Some n \<Rightarrow> if n \<le> 0 then Inr (frame s)
                 else if nat n \<le> length (previous s) then Inr (previous s ! (nat n - 1))
                 else Inl TypeError)"

definition op_loads :: "int list \<Rightarrow> Type Processor \<Rightarrow> error + Type Processor" where
  "op_loads ops s = (case eatParameter ops s of (frameOffset, s1) \<Rightarrow>
     case eatParameter ops s1 of (stackEntryIndex, s2) \<Rightarrow>
       andThen (frameUp s2 frameOffset) (\<lambda>f.
         case stackEntryIndex of
           Some k \<Rightarrow> Inr (push (stack s2 (startIndex f + 1 + k)) s2)
         | None \<Rightarrow> Inr (push (Prim PUndefined) s2)))"

definition op_arg :: "int list \<Rightarrow> Type Processor \<Rightarrow> error + Type Processor" where
  "op_arg ops s = (case eatParameter ops s of
       (Some arg, s1) \<Rightarrow> Inr (push (stack s1 (startIndex (frame s1) - arg)) s1)
     | (None, s1) \<Rightarrow> Inr (push (Prim PUndefined) s1))"

subsection \<open>\<open>distribute\<close>\<close>

text \<open>\<open>new Loop(fromType)\<close> and \<open>Loop.next\<close>, which returns \<open>types[i++]\<close>.\<close>

definition newLoop :: "Type \<Rightarrow> Type Loop" where
  "newLoop fromType =
     \<lparr>loopTypes = (if kind fromType = K_union then types fromType else [fromType]), loopI = 0\<rparr>"

definition loopNext :: "Type Loop \<Rightarrow> Type option \<times> Type Loop" where
  "loopNext l = ((if loopI l < length (loopTypes l) then Some (loopTypes l ! loopI l) else None),
             l\<lparr>loopI := loopI l + 1\<rparr>)"

text \<open>
  The first part of the case: on re-entry the result of the iteration is popped and
  pushed back unless its kind is \<open>never\<close>; on first entry the type to distribute over
  is popped and the cursor created. The result is the state and the cursor.
\<close>

definition distributeEnter :: "Type Processor \<Rightarrow> error + (Type Processor \<times> Type Loop)" where
  "distributeEnter s = (case distributiveLoop (frame s) of
       Some l \<Rightarrow> andThen (pop s) (\<lambda>(e, s1).
         case e of
           Prim PUndefined \<Rightarrow> Inl TypeError
         | Prim _ \<Rightarrow> Inr (push e s1, l)
         | Ty t \<Rightarrow> Inr (if kind t = K_never then s1 else push e s1, l))
     | None \<Rightarrow> andThen (pop s) (\<lambda>(e, s1).
         case e of
           Prim PUndefined \<Rightarrow> Inl TypeError
         | Prim _ \<Rightarrow> Inl Unmodelled
         | Ty distributeOver \<Rightarrow> Inr (s1, newLoop distributeOver)))"

text \<open>
  The second part: the cursor advances; when it is exhausted the frame is popped and
  the union of the accumulated results pushed, otherwise the candidate is stored in
  the first slot of the frame and the subprogram called, to come back to this opcode.
\<close>

definition distributeNext :: "int option \<Rightarrow> Type Processor \<Rightarrow> Type Loop \<Rightarrow> error + Type Processor" where
  "distributeNext subProgram s2 l = (case loopNext l of (candidate, l') \<Rightarrow>
     (let s3 = s2\<lparr>frame := (frame s2)\<lparr>distributiveLoop := Some l'\<rparr>\<rparr> in
      (case candidate of
         None \<Rightarrow> (case popFrame s3 of (entries, s4) \<Rightarrow>
           andThen (asTypes entries) (\<lambda>types.
             Inr (push (Ty (unboxUnion (setTypes (flattenUnionTypes types) (mk K_union)))) s4)))
       | Some t \<Rightarrow> (case subProgram of
             Some target \<Rightarrow>
               Inr (call target (- 1) (store (startIndex (frame s3) + 1) (Ty t) s3))
           | None \<Rightarrow> Inl Unmodelled))))"

definition op_distribute :: "int list \<Rightarrow> Type Processor \<Rightarrow> error + Type Processor" where
  "op_distribute ops s = (case eatParameter ops s of (subProgram, s1) \<Rightarrow>
     andThen (distributeEnter s1) (\<lambda>(s2, l). distributeNext subProgram s2 l))"

section \<open>The interpreter loop\<close>

text \<open>The \<open>switch\<close> of \<open>run\<close>, one case per label.\<close>

fun execOp :: "Env \<Rightarrow> int list \<Rightarrow> prim list \<Rightarrow> ReflectionOp \<Rightarrow> Type Processor \<Rightarrow> error + Type Processor" where
  "execOp env ops initialStack (Op_scalar k) s = Inr (pushType (mk k) s)"
| "execOp env ops initialStack (Op_special c) s = Inr (pushType (builtinClass c) s)"
| "execOp env ops initialStack (Op_wrap k) s = wrapTop (\<lambda>t. setType t (mk k)) s"
| "execOp env ops initialStack (Op_visibility v) s = assignTop (\<lambda>a. a\<lparr>visibility := Some v\<rparr>) s"
| "execOp env ops initialStack (Op_other l) s = Inl Unmodelled"
| "execOp env ops initialStack Op_literal s = op_literal ops initialStack s"
| "execOp env ops initialStack Op_class s = op_class s"
| "execOp env ops initialStack Op_parameter s = op_parameter ops initialStack s"
| "execOp env ops initialStack Op_union s = op_union s"
| "execOp env ops initialStack Op_property s = op_property False ops initialStack s"
| "execOp env ops initialStack Op_propertySignature s = op_property True ops initialStack s"
| "execOp env ops initialStack Op_method s = op_method False ops initialStack s"
| "execOp env ops initialStack Op_methodSignature s = op_method True ops initialStack s"
| "execOp env ops initialStack Op_optional s = assignTop (\<lambda>a. a\<lparr>optional := True\<rparr>) s"
| "execOp env ops initialStack Op_readonly s = assignTop (\<lambda>a. a\<lparr>readonly := True\<rparr>) s"
| "execOp env ops initialStack Op_abstract s = assignTop (\<lambda>a. a\<lparr>abstract := True\<rparr>) s"
| "execOp env ops initialStack Op_objectLiteral s = op_objectLiteral s"
| "execOp env ops initialStack Op_distribute s = op_distribute ops s"
| "execOp env ops initialStack Op_condition s = op_condition s"
| "execOp env ops initialStack Op_jumpCondition s = op_jumpCondition ops s"
| "execOp env ops initialStack Op_extends s = op_extends env s"
| "execOp env ops initialStack Op_keyof s = op_keyof s"
| "execOp env ops initialStack Op_var s = op_var s"
| "execOp env ops initialStack Op_loads s = op_loads ops s"
| "execOp env ops initialStack Op_arg s = op_arg ops s"
| "execOp env ops initialStack Op_return s = returnFrame s"
| "execOp env ops initialStack Op_frame s = Inr (pushFrame s)"
| "execOp env ops initialStack Op_moveFrame s = op_moveFrame s"
| "execOp env ops initialStack Op_jump s = op_jump ops s"
| "execOp env ops initialStack Op_call s = op_call ops s"
| "execOp env ops initialStack Op_inline s = Inl Unmodelled"
| "execOp env ops initialStack Op_inlineCall s = Inl Unmodelled"
| "execOp env ops initialStack Op_typeParameter s = op_typeParameter False ops initialStack s"
| "execOp env ops initialStack Op_typeParameterDefault s = op_typeParameter True ops initialStack s"

text \<open>
  One iteration of the loop body: \<open>const op = ops[this.program]\<close> and the \<open>switch\<close>,
  which has no \<open>default\<close> branch, so a value that is no label (or \<open>undefined\<close>, when
  the program counter is outside the opcodes) leaves the state as it is.
\<close>

definition step :: "Env \<Rightarrow> int list \<Rightarrow> prim list \<Rightarrow> Type Processor \<Rightarrow> error + Type Processor" where
  "step env ops initialStack s = (case opAt ops (program s) of
       None \<Rightarrow> Inr s
     | Some n \<Rightarrow> (case opOf env n of
           None \<Rightarrow> Inr s
         | Some op \<Rightarrow> execOp env ops initialStack op s))"

text \<open>
  \<open>for (this.program = 0; this.program < s; this.program++)\<close>, from the current program
  counter on. The loop need not end (\<open>jump\<close> can go backwards), so it is given fuel:
  \<open>None\<close> is "still running when the fuel ran out".
\<close>

fun runLoop :: "nat \<Rightarrow> Env \<Rightarrow> int list \<Rightarrow> prim list \<Rightarrow> Type Processor \<Rightarrow> (error + Type Processor) option" where
  "runLoop 0 env ops initialStack s = None"
| "runLoop (Suc fuel) env ops initialStack s =
     (if program s < int (length ops) then
        (case step env ops initialStack s of
           Inl e \<Rightarrow> Some (Inl e)
         | Inr s1 \<Rightarrow> runLoop fuel env ops initialStack (s1\<lparr>program := program s1 + 1\<rparr>))
      else Some (Inr s))"

text \<open>The state \<open>run\<close> sets up: the pool is copied into the first slots.\<close>

fun copyInitial :: "prim list \<Rightarrow> int \<Rightarrow> 'r Processor \<Rightarrow> 'r Processor" where
  "copyInitial [] k s = s"
| "copyInitial (v # vs) k s = copyInitial vs (k + 1) (store k (Prim v) s)"

definition beginRun :: "prim list \<Rightarrow> 'r entry list \<Rightarrow> 'r Processor \<Rightarrow> 'r Processor" where
  "beginRun initialStack initialInputs p =
     (let s = copyInitial initialStack 0 p;
          sp = int (length initialStack) - 1
      in s\<lparr>stackPointer := sp,
           frame := (frame s)\<lparr>startIndex := sp, variables := 0, inputs := initialInputs\<rparr>,
           previous := [], program := 0\<rparr>)"

definition initial :: "prim list \<Rightarrow> Type entry list \<Rightarrow> Type Processor" where
  "initial initialStack initialInputs = beginRun initialStack initialInputs newProcessor"

definition run :: "nat \<Rightarrow> Env \<Rightarrow> int list \<Rightarrow> prim list \<Rightarrow> Type entry list \<Rightarrow> (error + Type entry) option" where
  "run fuel env ops initialStack initialInputs =
     (case runLoop fuel env ops initialStack (initial initialStack initialInputs) of
        None \<Rightarrow> None
      | Some (Inl e) \<Rightarrow> Some (Inl e)
      | Some (Inr s) \<Rightarrow> Some (Inr (narrowOriginalLiteral (stack s (stackPointer s)))))"

section \<open>The store model\<close>

text \<open>
  Which object a node is matters for self-reference: \<open>inline\<close> pushes the object
  \<open>this.resultType\<close>, and \<open>class\<close> and \<open>objectLiteral\<close> assign into that object. Here
  the type nodes live in a store; an address is the position at which a node was
  allocated, and a stack slot holds an address. The stack machine is the one above.
\<close>

type_synonym addr = nat

record StoredNode =
  nodeKind :: ReflectionKind
  nodeAttrs :: Attrs
  nodeTypes :: "addr list"
  nodeType :: "addr option"
  nodeParameters :: "addr list"
  nodeArguments :: "addr list option"

text \<open>
  What an object handle of the pool stands for: a packed program (an array), a
  function that returns a value when called (\<open>() => Packed\<close>), or something else.
\<close>

datatype Object = Packed "prim list" | Thunk prim | Opaque

text \<open>
  The mutable world outside a processor: the nodes, the \<open>__type\<close> property of the
  packed arrays, and the \<open>ProcessorRegistry\<close> objects. A registry maps an array to a
  processor, of which only \<open>resultType\<close> is ever read, a field that is assigned once,
  when the processor is made: the registry holds that address.
\<close>

record World =
  heap :: "StoredNode list"
  typeCache :: "nat \<Rightarrow> addr option"
  registries :: "(nat \<Rightarrow> addr option) list"

text \<open>The processor with the fields beside the stack machine.\<close>

record StoreProcessor =
  core :: "addr Processor"
  resultType :: addr
  forType :: nat
  registry :: nat

definition newNode :: "ReflectionKind \<Rightarrow> StoredNode" where
  "newNode k = \<lparr>nodeKind = k, nodeAttrs = noAttrs, nodeTypes = [], nodeType = None,
     nodeParameters = [], nodeArguments = None\<rparr>"

definition alloc :: "StoredNode \<Rightarrow> World \<Rightarrow> addr \<times> World" where
  "alloc node w = (length (heap w), w\<lparr>heap := heap w @ [node]\<rparr>)"

definition nodeAt :: "World \<Rightarrow> addr \<Rightarrow> StoredNode option" where
  "nodeAt w a = (if a < length (heap w) then Some (heap w ! a) else None)"

definition kindAt :: "World \<Rightarrow> addr \<Rightarrow> ReflectionKind option" where
  "kindAt w a = map_option nodeKind (nodeAt w a)"

text \<open>An assignment to fields of the object at \<open>a\<close>.\<close>

definition assign :: "addr \<Rightarrow> (StoredNode \<Rightarrow> StoredNode) \<Rightarrow> World \<Rightarrow> World" where
  "assign a f w = w\<lparr>heap := (heap w)[a := f (heap w ! a)]\<rparr>"

definition onCore :: "(addr Processor \<Rightarrow> addr Processor) \<Rightarrow> StoreProcessor \<Rightarrow> StoreProcessor" where
  "onCore f m = m\<lparr>core := f (core m)\<rparr>"

text \<open>
  The opcodes work on the stack machine of the processor and on the world, and read
  \<open>this.resultType\<close>; they are functions of these, and \<open>withCore\<close> puts the new stack
  machine back into the processor.
\<close>

definition withCore :: "StoreProcessor \<Rightarrow> error + (World \<times> addr Processor) \<Rightarrow> error + (World \<times> StoreProcessor)" where
  "withCore m r = (case r of Inl e \<Rightarrow> Inl e | Inr (w1, c1) \<Rightarrow> Inr (w1, m\<lparr>core := c1\<rparr>))"

text \<open>
  \<open>new Processor(forType, registry)\<close>: the field initialisers allocate the one
  \<open>{kind: never}\<close> that fills the 128 slots and the anchor \<open>{kind: any}\<close>; without a
  registry argument the processor gets a registry of its own.
\<close>

definition newStoreProcessor :: "nat \<Rightarrow> nat option \<Rightarrow> World \<Rightarrow> StoreProcessor \<times> World" where
  "newStoreProcessor h reg w =
     (case alloc (newNode K_never) w of (n, w1) \<Rightarrow>
      case alloc (newNode K_any) w1 of (r, w2) \<Rightarrow>
      case (case reg of Some g \<Rightarrow> (g, w2)
            | None \<Rightarrow> (length (registries w2),
                       w2\<lparr>registries := registries w2 @ [\<lambda>t. None]\<rparr>)) of (g, w3) \<Rightarrow>
        (\<lparr>core = \<lparr>stack = newArray (Ty n) 128, stackLength = 128, stackPointer = - 1,
                  frame = \<lparr>frameIndex = 0, startIndex = - 1, variables = 0, inputs = [],
                    mappedType = None, distributiveLoop = None\<rparr>,
                  previous = [], program = 0\<rparr>,
          resultType = r, forType = h, registry = g\<rparr>, w3))"

subsection \<open>The opcodes that do not evaluate another program\<close>

definition storeScalar :: "ReflectionKind \<Rightarrow> World \<Rightarrow> addr Processor \<Rightarrow> error + (World \<times> addr Processor)" where
  "storeScalar k w c = (case alloc (newNode k) w of (a, w1) \<Rightarrow> Inr (w1, push (Ty a) c))"

definition storeLiteral :: "int list \<Rightarrow> prim list \<Rightarrow> World \<Rightarrow> addr Processor \<Rightarrow> error + (World \<times> addr Processor)" where
  "storeLiteral ops initialStack w c = (case eatParameter ops c of (ref, c1) \<Rightarrow>
     case alloc ((newNode K_literal)\<lparr>nodeAttrs := noAttrs\<lparr>literal := poolAt initialStack ref\<rparr>\<rparr>) w of
       (a, w1) \<Rightarrow> Inr (w1, push (Ty a) c1))"

definition storeWrap :: "ReflectionKind \<Rightarrow> World \<Rightarrow> addr Processor \<Rightarrow> error + (World \<times> addr Processor)" where
  "storeWrap k w c = andThen (pop c) (\<lambda>(e, c1). andThen (asType e) (\<lambda>t.
     case alloc ((newNode k)\<lparr>nodeType := Some t\<rparr>) w of
       (a, w1) \<Rightarrow> Inr (w1, push (Ty a) c1)))"

text \<open>The reduction of \<open>property\<close>, on the node at \<open>a\<close>.\<close>

definition storeReduceOptional :: "World \<Rightarrow> addr \<Rightarrow> addr \<times> bool" where
  "storeReduceOptional w a = (case nodeAt w a of
       None \<Rightarrow> (a, False)
     | Some node \<Rightarrow>
         if nodeKind node = K_union \<and> length (nodeTypes node) = 2 then
           (case (find (\<lambda>v. kindAt w v = Some K_undefined) (nodeTypes node),
                  find (\<lambda>v. kindAt w v \<noteq> Some K_null \<and> kindAt w v \<noteq> Some K_undefined)
                    (nodeTypes node)) of
              (Some undefinedType, Some restType) \<Rightarrow> (restType, True)
            | _ \<Rightarrow> (a, False))
         else (a, False))"

definition storeProperty :: "bool \<Rightarrow> int list \<Rightarrow> prim list \<Rightarrow> World \<Rightarrow> addr Processor \<Rightarrow> error + (World \<times> addr Processor)" where
  "storeProperty isSignature ops initialStack w c = (case eatParameter ops c of (ref, c1) \<Rightarrow>
     andThen (pop c1) (\<lambda>(e, c2).
       case e of
         Prim PUndefined \<Rightarrow> Inl TypeError
       | Prim _ \<Rightarrow> Inl Unmodelled
       | Ty popped \<Rightarrow>
           (case storeReduceOptional w popped of (t, isOptional) \<Rightarrow>
              if isFunction (poolAt initialStack ref) then Inl Unmodelled
              else (case alloc
                  \<lparr>nodeKind = (if isSignature then K_propertySignature else K_property),
                   nodeAttrs = noAttrs\<lparr>name := poolAt initialStack ref, optional := isOptional,
                     visibility := (if isSignature then None else Some V_public)\<rparr>,
                   nodeTypes = [], nodeType = Some t, nodeParameters = [],
                   nodeArguments = None\<rparr> w of
                 (a, w1) \<Rightarrow> Inr (w1, push (Ty a) c2)))))"

text \<open>
  \<open>objectLiteral\<close>: as the last opcode of the program it assigns its fields into the
  anchor (\<open>Object.assign(this.resultType, t)\<close>) and pushes the anchor; anywhere else it
  pushes a node of its own.
\<close>

definition storeObjectLiteral :: "int list \<Rightarrow> addr \<Rightarrow> World \<Rightarrow> addr Processor \<Rightarrow> error + (World \<times> addr Processor)" where
  "storeObjectLiteral ops anchor w c = (case popFrame c of (entries, c1) \<Rightarrow>
     andThen (asTypes entries) (\<lambda>types.
       if program c1 + 1 = int (length ops) then
         Inr (assign anchor (\<lambda>node. node\<lparr>nodeKind := K_objectLiteral, nodeTypes := types\<rparr>) w,
              push (Ty anchor) c1)
       else (case alloc ((newNode K_objectLiteral)\<lparr>nodeTypes := types\<rparr>) w of
               (a, w1) \<Rightarrow> Inr (w1, push (Ty a) c1))))"

text \<open>
  \<open>class\<close>: the promoted constructor parameters are new property nodes; the anchor is
  assigned as for \<open>objectLiteral\<close>, and \<open>arguments\<close> goes into whichever object is
  pushed.
\<close>

fun storePromoted :: "addr list \<Rightarrow> World \<Rightarrow> addr list \<times> World" where
  "storePromoted [] w = ([], w)"
| "storePromoted (parameter # ps) w =
     (case nodeAt w parameter of
        None \<Rightarrow> storePromoted ps w
      | Some node \<Rightarrow>
          if visibility (nodeAttrs node) \<noteq> None then
            (case alloc \<lparr>nodeKind = K_property,
                    nodeAttrs = noAttrs\<lparr>name := name (nodeAttrs node),
                      visibility := visibility (nodeAttrs node),
                      optional := optional (nodeAttrs node),
                      readonly := readonly (nodeAttrs node)\<rparr>,
                    nodeTypes = [], nodeType = nodeType node, nodeParameters = [],
                    nodeArguments = None\<rparr> w of
               (a, w1) \<Rightarrow> (case storePromoted ps w1 of (rest, w2) \<Rightarrow> (a # rest, w2)))
          else storePromoted ps w)"

fun storeConstructor :: "addr list \<Rightarrow> World \<Rightarrow> addr list \<times> World" where
  "storeConstructor [] w = ([], w)"
| "storeConstructor (member # ms) w =
     (case nodeAt w member of
        None \<Rightarrow> storeConstructor ms w
      | Some node \<Rightarrow>
          if nodeKind node = K_method \<and> name (nodeAttrs node) = PStr (str ''constructor'')
          then storePromoted (nodeParameters node) w
          else storeConstructor ms w)"

definition storeClass :: "int list \<Rightarrow> addr \<Rightarrow> World \<Rightarrow> addr Processor \<Rightarrow> error + (World \<times> addr Processor)" where
  "storeClass ops anchor w c = (case popFrame c of (entries, c1) \<Rightarrow>
     andThen (asTypes entries) (\<lambda>members.
       case storeConstructor members w of (promotedProperties, w1) \<Rightarrow>
         andThen (asTypes (filter isType (inputs (frame c1)))) (\<lambda>args.
           let types = members @ promotedProperties;
               setArgs = (\<lambda>node. if args \<noteq> [] then node\<lparr>nodeArguments := Some args\<rparr> else node)
           in if program c1 + 1 = int (length ops) then
                Inr (assign anchor
                       (\<lambda>node. setArgs (node\<lparr>nodeKind := K_class,
                          nodeAttrs := (nodeAttrs node)\<lparr>classType := C_Object\<rparr>,
                          nodeTypes := types\<rparr>)) w1,
                     push (Ty anchor) c1)
              else (case alloc (setArgs ((newNode K_class)
                       \<lparr>nodeAttrs := noAttrs\<lparr>classType := C_Object\<rparr>, nodeTypes := types\<rparr>)) w1 of
                      (a, w2) \<Rightarrow> Inr (w2, push (Ty a) c1)))))"

text \<open>The cases of the \<open>switch\<close> that the store model follows, \<open>inline\<close> and
  \<open>inlineCall\<close> apart.\<close>

fun storeStep :: "ReflectionOp \<Rightarrow> int list \<Rightarrow> prim list \<Rightarrow> addr \<Rightarrow> World \<Rightarrow> addr Processor \<Rightarrow> error + (World \<times> addr Processor)" where
  "storeStep (Op_scalar k) ops initialStack anchor w c = storeScalar k w c"
| "storeStep (Op_wrap k) ops initialStack anchor w c = storeWrap k w c"
| "storeStep Op_literal ops initialStack anchor w c = storeLiteral ops initialStack w c"
| "storeStep Op_frame ops initialStack anchor w c = Inr (w, pushFrame c)"
| "storeStep Op_property ops initialStack anchor w c = storeProperty False ops initialStack w c"
| "storeStep Op_propertySignature ops initialStack anchor w c = storeProperty True ops initialStack w c"
| "storeStep Op_objectLiteral ops initialStack anchor w c = storeObjectLiteral ops anchor w c"
| "storeStep Op_class ops initialStack anchor w c = storeClass ops anchor w c"
| "storeStep op ops initialStack anchor w c = Inl Unmodelled"

subsection \<open>\<open>inline\<close>, \<open>inlineCall\<close> and \<open>resolveRuntimeType\<close>\<close>

text \<open>\<open>isFunction(pOrFn) ? pOrFn() : pOrFn\<close>\<close>

definition callIfFunction :: "(nat \<Rightarrow> Object) \<Rightarrow> prim \<Rightarrow> error + prim" where
  "callIfFunction objects pOrFn = (case pOrFn of
       PObj h \<Rightarrow> (case objects h of
           Thunk v \<Rightarrow> Inr v
         | Packed pack \<Rightarrow> Inr pOrFn
         | Opaque \<Rightarrow> Inl Unmodelled)
     | _ \<Rightarrow> Inr pOrFn)"

text \<open>
  The array behind a value that is taken for a packed program. For \<open>undefined\<close> the
  read of \<open>__type\<close> or \<open>length\<close> is a \<open>TypeError\<close>; the other values that are no array
  are not followed.
\<close>

definition packOf :: "(nat \<Rightarrow> Object) \<Rightarrow> prim \<Rightarrow> error + (nat \<times> prim list)" where
  "packOf objects p = (case p of
       PObj h \<Rightarrow> (case objects h of Packed pack \<Rightarrow> Inr (h, pack) | _ \<Rightarrow> Inl Unmodelled)
     | PUndefined \<Rightarrow> Inl TypeError
     | _ \<Rightarrow> Inl Unmodelled)"

definition registered :: "World \<Rightarrow> nat option \<Rightarrow> nat \<Rightarrow> addr option" where
  "registered w reg h = (case reg of None \<Rightarrow> None
     | Some g \<Rightarrow> if g < length (registries w) then (registries w ! g) h else None)"

definition setRegistry :: "nat option \<Rightarrow> nat \<Rightarrow> addr option \<Rightarrow> World \<Rightarrow> World" where
  "setRegistry reg h v w = (case reg of None \<Rightarrow> w
     | Some g \<Rightarrow> w\<lparr>registries := (registries w)[g := (registries w ! g)(h := v)]\<rparr>)"

text \<open>
  The end of \<open>resolveRuntimeType\<close>: the array is taken out of the registry, and a
  result that is a type is cached in \<open>__type\<close> of the array and returned.
\<close>

definition finishResolve :: "nat \<Rightarrow> nat option \<Rightarrow> World \<Rightarrow> addr entry \<Rightarrow> error + (addr \<times> World)" where
  "finishResolve h reg w t = (case t of
       Ty a \<Rightarrow> Inr (a, (setRegistry reg h None w)\<lparr>typeCache := (typeCache w)(h := Some a)\<rparr>)
     | Prim p \<Rightarrow> Inl NoTypeReturned)"

text \<open>
  The loop of \<open>inlineCall\<close> that pops \<open>argumentSize\<close> inputs: an input of kind
  \<open>never\<close> is replaced by \<open>initialInputs[i]\<close> when that is truthy; \<open>unshift\<close> puts
  each input in front.
\<close>

fun popInputs :: "nat \<Rightarrow> nat \<Rightarrow> World \<Rightarrow> addr entry list \<Rightarrow> addr entry list \<Rightarrow> addr Processor \<Rightarrow> error + (addr entry list \<times> addr Processor)" where
  "popInputs k 0 w initialInputs acc c = Inr (acc, c)"
| "popInputs k (Suc remaining) w initialInputs acc c =
     andThen (pop c) (\<lambda>(e, c1).
       case e of
         Prim PUndefined \<Rightarrow> Inl TypeError
       | Prim p \<Rightarrow> popInputs (k + 1) remaining w initialInputs (e # acc) c1
       | Ty a \<Rightarrow>
           popInputs (k + 1) remaining w initialInputs
             ((if kindAt w a = Some K_never \<and> truthy (inputAt initialInputs k)
               then inputAt initialInputs k else e) # acc) c1)"

text \<open>
  \<open>resolveRuntimeType\<close>, the loop of \<open>run\<close> and the two opcodes that evaluate
  programs call each other. Neither the loop nor the recursion need end, so they
  are given fuel; \<open>None\<close> is "still running when the fuel ran out". The \<open>typeName\<close> and
  \<open>typeArguments\<close> that \<open>inline\<close> and \<open>inlineCall\<close> assign to the result are fields that
  nothing here reads; they are left out.

  What an opcode does before it evaluates a program, if it does: it is done (with a
  failure or a new state), or it resolves a packed value through the registry
  (\<open>inline\<close>), or it runs a program in a new processor (\<open>inlineCall\<close>); the stack
  machine in the plan is the one the result is pushed to.
\<close>

datatype plan =
    Done "error + (World \<times> addr Processor)"
  | Resolve prim "addr Processor"
  | Run nat "int list" "prim list" "addr entry list" "addr Processor"

fun isNumber :: "prim \<Rightarrow> bool" where
  "isNumber (PNum k) = True"
| "isNumber p = False"

definition planInline :: "(nat \<Rightarrow> Object) \<Rightarrow> int list \<Rightarrow> prim list \<Rightarrow> World \<Rightarrow> StoreProcessor \<Rightarrow> plan" where
  "planInline objects ops initialStack w m =
     (case eatParameter ops (core m) of (pPosition, c1) \<Rightarrow>
        (case callIfFunction objects (poolAt initialStack pPosition) of
           Inl e \<Rightarrow> Done (Inl e)
         | Inr p \<Rightarrow>
             if isNumber p then Done (Inr (w, push (Ty (resultType m)) c1))
             else Resolve p c1))"

definition planInlineCall :: "(nat \<Rightarrow> Object) \<Rightarrow> int list \<Rightarrow> prim list \<Rightarrow> addr entry list \<Rightarrow> World \<Rightarrow> StoreProcessor \<Rightarrow> plan" where
  "planInlineCall objects ops initialStack initialInputs w m =
     (case eatParameter ops (core m) of (pPosition, c1) \<Rightarrow>
      case eatParameter ops c1 of (argumentSize, c2) \<Rightarrow>
        (case popInputs 0 (case argumentSize of None \<Rightarrow> 0 | Some k \<Rightarrow> nat k) w
                initialInputs [] c2 of
           Inl e \<Rightarrow> Done (Inl e)
         | Inr (callInputs, c3) \<Rightarrow>
             (case callIfFunction objects (poolAt initialStack pPosition) of
                Inl e \<Rightarrow> Done (Inl e)
              | Inr p \<Rightarrow>
                  if isNumber p \<and> argumentSize = Some 0 then
                    Done (Inr (w, push (Ty (resultType m)) c3))
                  else if isNumber p then
                    Run (forType m) ops initialStack callInputs c3
                  else
                    (case packOf objects p of
                       Inl e \<Rightarrow> Done (Inl e)
                     | Inr (h, pack) \<Rightarrow>
                         Run h (packOps (unpack pack)) (packStack (unpack pack)) callInputs c3))))"

definition planOp :: "(nat \<Rightarrow> Object) \<Rightarrow> int list \<Rightarrow> prim list \<Rightarrow> addr entry list \<Rightarrow> ReflectionOp \<Rightarrow> World \<Rightarrow> StoreProcessor \<Rightarrow> plan" where
  "planOp objects ops initialStack initialInputs op w m =
     (if op = Op_inline then planInline objects ops initialStack w m
      else if op = Op_inlineCall then planInlineCall objects ops initialStack initialInputs w m
      else Done (storeStep op ops initialStack (resultType m) w (core m)))"

text \<open>
  The start of \<open>resolveRuntimeType\<close>: the cached \<open>__type\<close> of the array, or the anchor
  of the processor that the registry holds for it, is returned at once.
\<close>

definition resolveStart :: "(nat \<Rightarrow> Object) \<Rightarrow> World \<Rightarrow> prim \<Rightarrow> nat option \<Rightarrow> (error + (addr \<times> World)) + (nat \<times> prim list)" where
  "resolveStart objects w p reg =
     (case packOf objects p of
        Inl e \<Rightarrow> Inl (Inl e)
      | Inr (h, pack) \<Rightarrow>
          (case typeCache w h of
             Some cached \<Rightarrow> Inl (Inr (cached, w))
           | None \<Rightarrow>
               (case registered w reg h of
                  Some existing \<Rightarrow> Inl (Inr (existing, w))
                | None \<Rightarrow> Inr (h, pack))))"

text \<open>The next opcode, when the program counter stands on one.\<close>

definition fetch :: "Env \<Rightarrow> int list \<Rightarrow> StoreProcessor \<Rightarrow> ReflectionOp option" where
  "fetch env ops m = (case opAt ops (program (core m)) of None \<Rightarrow> None | Some n \<Rightarrow> opOf env n)"

definition advance :: "StoreProcessor \<Rightarrow> StoreProcessor" where
  "advance m = onCore (\<lambda>c. c\<lparr>program := program c + 1\<rparr>) m"

fun resolveRuntimeType :: "nat \<Rightarrow> Env \<Rightarrow> (nat \<Rightarrow> Object) \<Rightarrow> World \<Rightarrow> prim \<Rightarrow> addr entry list \<Rightarrow> nat option \<Rightarrow> (error + (addr \<times> World)) option"
  and storeRun :: "nat \<Rightarrow> Env \<Rightarrow> (nat \<Rightarrow> Object) \<Rightarrow> int list \<Rightarrow> prim list \<Rightarrow> addr entry list \<Rightarrow> World \<Rightarrow> StoreProcessor \<Rightarrow> (error + (World \<times> StoreProcessor)) option"
  and storeOp :: "nat \<Rightarrow> Env \<Rightarrow> (nat \<Rightarrow> Object) \<Rightarrow> plan \<Rightarrow> World \<Rightarrow> StoreProcessor \<Rightarrow> (error + (World \<times> StoreProcessor)) option"
  where
  "resolveRuntimeType 0 env objects w p args reg = None"
| "resolveRuntimeType (Suc fuel) env objects w p args reg =
     (case resolveStart objects w p reg of
        Inl r \<Rightarrow> Some r
      | Inr (h, pack) \<Rightarrow>
          (case storeRun fuel env objects (packOps (unpack pack)) (packStack (unpack pack)) args
                  (setRegistry reg h (Some (resultType (fst (newStoreProcessor h reg w))))
                     (snd (newStoreProcessor h reg w)))
                  (onCore (beginRun (packStack (unpack pack)) args)
                     (fst (newStoreProcessor h reg w))) of
             None \<Rightarrow> None
           | Some (Inl e) \<Rightarrow> Some (Inl e)
           | Some (Inr (w2, m)) \<Rightarrow>
               Some (finishResolve h reg w2
                 (narrowOriginalLiteral (stack (core m) (stackPointer (core m)))))))"
| "storeRun 0 env objects ops initialStack initialInputs w m = None"
| "storeRun (Suc fuel) env objects ops initialStack initialInputs w m =
     (if program (core m) < int (length ops) then
        (case fetch env ops m of
           None \<Rightarrow> storeRun fuel env objects ops initialStack initialInputs w (advance m)
         | Some op \<Rightarrow>
             (case storeOp fuel env objects
                     (planOp objects ops initialStack initialInputs op w m) w m of
                None \<Rightarrow> None
              | Some (Inl e) \<Rightarrow> Some (Inl e)
              | Some (Inr (w1, m1)) \<Rightarrow>
                  storeRun fuel env objects ops initialStack initialInputs w1 (advance m1)))
      else Some (Inr (w, m)))"
| "storeOp fuel env objects (Done r) w m = Some (withCore m r)"
| "storeOp fuel env objects (Resolve p c1) w m =
     (case resolveRuntimeType fuel env objects w p [] (Some (registry m)) of
        None \<Rightarrow> None
      | Some (Inl e) \<Rightarrow> Some (Inl e)
      | Some (Inr (result, w1)) \<Rightarrow> Some (Inr (w1, m\<lparr>core := push (Ty result) c1\<rparr>)))"
| "storeOp fuel env objects (Run h ops initialStack callInputs c3) w m =
     (case storeRun fuel env objects ops initialStack callInputs
             (snd (newStoreProcessor h (Some (registry m)) w))
             (onCore (beginRun initialStack callInputs)
                (fst (newStoreProcessor h (Some (registry m)) w))) of
        None \<Rightarrow> None
      | Some (Inl e) \<Rightarrow> Some (Inl e)
      | Some (Inr (w2, m2)) \<Rightarrow>
          Some (Inr (w2, m\<lparr>core :=
            push (narrowOriginalLiteral (stack (core m2) (stackPointer (core m2)))) c3\<rparr>)))"

text \<open>\<open>resolvePacked(type, args)\<close>: \<open>resolveRuntimeType\<close> without a registry.\<close>

definition resolvePacked :: "nat \<Rightarrow> Env \<Rightarrow> (nat \<Rightarrow> Object) \<Rightarrow> World \<Rightarrow> prim \<Rightarrow> addr entry list \<Rightarrow> (error + (addr \<times> World)) option" where
  "resolvePacked fuel env objects w p args = resolveRuntimeType fuel env objects w p args None"

definition emptyWorld :: World where
  "emptyWorld = \<lparr>heap = [], typeCache = (\<lambda>h. None), registries = []\<rparr>"

section \<open>A numbering for the examples\<close>

text \<open>
  Modelled from the spec: the numeric values of \<open>ReflectionOp\<close> are declared in a
  package that is not part of the sources at hand. The examples number the opcodes
  from 0 in the order in which the spec lists them ("primitive kinds (string, number,
  boolean, bigint, void, unknown, object, never, undefined, symbol, null, any),
  literal, templateLiteral, regexp, date, ..."). The general statements below hold
  for every numbering.
\<close>

definition exampleOps :: "ReflectionOp list" where
  "exampleOps = [
    Op_scalar K_string, Op_scalar K_number, Op_scalar K_boolean, Op_scalar K_bigint,
    Op_scalar K_void, Op_scalar K_unknown, Op_scalar K_object, Op_scalar K_never,
    Op_scalar K_undefined, Op_scalar K_symbol, Op_scalar K_null, Op_scalar K_any,
    Op_literal, Op_other ''templateLiteral'', Op_scalar K_regexp, Op_special ''Date'',
    Op_special ''Uint8Array'', Op_special ''Int8Array'', Op_special ''Uint8ClampedArray'',
    Op_special ''Uint16Array'', Op_special ''Int16Array'', Op_special ''Uint32Array'',
    Op_special ''Int32Array'', Op_special ''Float32Array'', Op_special ''Float64Array'',
    Op_special ''BigInt64Array'', Op_special ''ArrayBuffer'', Op_class, Op_parameter,
    Op_other ''classReference'', Op_other ''enum'', Op_other ''enumMember'',
    Op_other ''tuple'', Op_wrap K_tupleMember, Op_other ''namedTupleMember'',
    Op_wrap K_rest, Op_other ''set'', Op_other ''map'', Op_wrap K_promise, Op_union,
    Op_other ''intersection'', Op_other ''function'', Op_wrap K_array, Op_property,
    Op_propertySignature, Op_method, Op_methodSignature, Op_optional, Op_readonly,
    Op_visibility V_public, Op_visibility V_protected, Op_visibility V_private,
    Op_abstract, Op_other ''defaultValue'', Op_other ''description'',
    Op_other ''indexSignature'', Op_objectLiteral, Op_distribute, Op_condition,
    Op_jumpCondition, Op_other ''infer'', Op_extends, Op_other ''indexAccess'',
    Op_other ''typeof'', Op_keyof, Op_var, Op_other ''mappedType'', Op_loads, Op_arg,
    Op_return, Op_frame, Op_moveFrame, Op_jump, Op_call, Op_inline,
    Op_inlineCall, Op_other ''numberBrand'', Op_typeParameter,
    Op_typeParameterDefault]"

definition exampleEnv :: Env where
  "exampleEnv =
     \<lparr>opOf = (\<lambda>n. if 0 \<le> n \<and> n < int (length exampleOps) then Some (exampleOps ! nat n) else None),
      isExtendable = (\<lambda>left right. left = right)\<rparr>"

section \<open>Shapes named in the statements\<close>

text \<open>
  The unions the reduction of \<open>property\<close> applies to: two members, one of kind
  \<open>undefined\<close>, the other of a kind that is neither \<open>null\<close> nor \<open>undefined\<close>.
\<close>

definition reducible :: "Type \<Rightarrow> bool" where
  "reducible t = (kind t = K_union \<and> (\<exists>a b. types t = [a, b] \<and>
     ((kind a = K_undefined \<and> kind b \<noteq> K_null \<and> kind b \<noteq> K_undefined) \<or>
      (kind b = K_undefined \<and> kind a \<noteq> K_null \<and> kind a \<noteq> K_undefined))))"

text \<open>
  The state after \<open>n\<close> iterations of the loop of \<open>run\<close> that start in \<open>s\<close>: each
  iteration executes the opcode at the program counter and increments the counter.
  There is no such state when an iteration throws or the loop has ended before.
\<close>

fun loopIterations :: "nat \<Rightarrow> Env \<Rightarrow> int list \<Rightarrow> prim list \<Rightarrow> Type Processor \<Rightarrow> Type Processor option" where
  "loopIterations 0 env ops initialStack s = Some s"
| "loopIterations (Suc n) env ops initialStack s =
     (if program s < int (length ops) then
        (case step env ops initialStack s of
           Inl e \<Rightarrow> None
         | Inr s1 \<Rightarrow> loopIterations n env ops initialStack (s1\<lparr>program := program s1 + 1\<rparr>))
      else None)"

text \<open>Running the loop from \<open>s\<close> comes to \<open>s'\<close>, after some number of iterations.\<close>

definition reaches :: "Env \<Rightarrow> int list \<Rightarrow> prim list \<Rightarrow> Type Processor \<Rightarrow> Type Processor \<Rightarrow> bool" where
  "reaches env ops initialStack s s' = (\<exists>n. loopIterations n env ops initialStack s = Some s')"

text \<open>
  The calling convention, seen from the \<open>distribute\<close> opcode that is entered in the state
  \<open>s\<close> and calls the subprogram at \<open>target\<close>. The subprogram is entered in a state \<open>z\<close>
  with a fresh frame on top of the return address \<open>ra\<close>, the frame of \<open>s\<close> (with a cursor)
  as its caller, the candidate \<open>c\<close> in the first slot of the caller's frame, and the slots
  below the stack pointer of \<open>s\<close> as they are in \<open>s\<close>; what lies between these and the
  return address is not fixed. From there the loop comes to a state in which the \<open>return\<close>
  opcode has put \<open>body c\<close> in the place of the return address, the caller's frame is
  current again, the slots below are as they were, and the program counter is \<open>ra\<close>.
  So \<open>body\<close> is what the subprogram computes from the candidate in the context of \<open>s\<close>:
  the pool, the variables of the caller and the enclosing frames.
\<close>

definition computes :: "Env \<Rightarrow> int list \<Rightarrow> prim list \<Rightarrow> int \<Rightarrow> Type Processor \<Rightarrow> (Type \<Rightarrow> Type) \<Rightarrow> bool" where
  "computes env ops initialStack target s body =
     (\<forall>z c ra l.
        program z = target \<and>
        previous z = (frame s)\<lparr>distributiveLoop := Some l\<rparr> # previous s \<and>
        frame z = \<lparr>frameIndex = frameIndex (frame s) + 1, startIndex = stackPointer z,
                   variables = 0, inputs = [], mappedType = None, distributiveLoop = None\<rparr> \<and>
        stack z (startIndex (frame s) + 1) = Ty c \<and>
        (\<forall>k < stackPointer s. k \<noteq> startIndex (frame s) + 1 \<longrightarrow> stack z k = stack s k) \<and>
        stack z (stackPointer z) = Prim (PNum ra) \<and>
        stackPointer s \<le> stackPointer z \<and> stackPointer z < int (stackLength z)
        \<longrightarrow> (\<exists>z'. reaches env ops initialStack z z' \<and>
              program z' = ra \<and> frame z' = (frame s)\<lparr>distributiveLoop := Some l\<rparr> \<and>
              previous z' = previous s \<and>
              stackPointer z' = stackPointer z \<and>
              stack z' (stackPointer z) = Ty (body c) \<and>
              (\<forall>k < stackPointer z. stack z' k = stack z k) \<and>
              stackLength z \<le> stackLength z'))"

text \<open>
  Two shapes of the state during the distribution that \<open>s\<close> starts, over \<open>members\<close>, with
  the results \<open>acc\<close> kept so far in the slots from the stack pointer of \<open>s\<close> on. \<open>resumed\<close>:
  the opcode has dealt with the result of the last iteration and is about to advance the
  cursor. \<open>entered\<close>: the subprogram at \<open>P\<close> has been called for the member \<open>j\<close>, to return
  to \<open>pc\<close>.
\<close>

definition resumed :: "int \<Rightarrow> Type Processor \<Rightarrow> Type list \<Rightarrow> Type Processor \<Rightarrow> bool" where
  "resumed pc s acc s2 =
     (program s2 = pc + 1 \<and> previous s2 = previous s \<and>
      (\<exists>dl. frame s2 = (frame s)\<lparr>distributiveLoop := dl\<rparr>) \<and>
      (\<forall>k < stackPointer s. k \<noteq> startIndex (frame s) + 1 \<longrightarrow> stack s2 k = stack s k) \<and>
      stackPointer s2 + 1 = stackPointer s + int (length acc) \<and>
      (\<forall>i < length acc. stack s2 (stackPointer s + int i) = Ty (acc ! i)) \<and>
      stackPointer s2 < int (stackLength s2))"

definition entered :: "int \<Rightarrow> int \<Rightarrow> Type Processor \<Rightarrow> Type list \<Rightarrow> Type list \<Rightarrow> nat \<Rightarrow> Type Processor \<Rightarrow> bool" where
  "entered P pc s members acc j z =
     (program z = P \<and>
      previous z =
        (frame s)\<lparr>distributiveLoop := Some \<lparr>loopTypes = members, loopI = j + 1\<rparr>\<rparr> # previous s \<and>
      frame z = \<lparr>frameIndex = frameIndex (frame s) + 1, startIndex = stackPointer z,
                 variables = 0, inputs = [], mappedType = None, distributiveLoop = None\<rparr> \<and>
      stack z (startIndex (frame s) + 1) = Ty (members ! j) \<and>
      (\<forall>k < stackPointer s. k \<noteq> startIndex (frame s) + 1 \<longrightarrow> stack z k = stack s k) \<and>
      stackPointer z = stackPointer s + int (length acc) \<and>
      (\<forall>i < length acc. stack z (stackPointer s + int i) = Ty (acc ! i)) \<and>
      stack z (stackPointer z) = Prim (PNum pc) \<and>
      stackPointer z < int (stackLength z))"

text \<open>The union the \<open>distribute\<close> and \<open>union\<close> opcodes build from a list of types.\<close>

definition unionOf :: "Type list \<Rightarrow> Type" where
  "unionOf ts = unboxUnion (setTypes (flattenUnionTypes ts) (mk K_union))"


text \<open>The members \<open>keyof\<close> takes a name from.\<close>

definition keyed :: "Type \<Rightarrow> bool" where
  "keyed member = (kind member = K_property \<or> kind member = K_propertySignature \<or>
     kind member = K_method \<or> kind member = K_methodSignature)"

section \<open>An example of distribution\<close>

text \<open>
  \<open>jump 15; (2:) frame, loads 2 0, string, extends, never, loads 2 0, array, condition,
  return; (15:) frame, var, frame, string, number, boolean, union, distribute 2\<close>: the
  subprogram at 2 is \<open>T extends string ? never : T[]\<close> for the candidate \<open>T\<close>, the main
  program distributes it over \<open>string | number | boolean\<close>. \<open>exampleState\<close> is the state
  in which the \<open>distribute\<close> opcode at 22 is entered, and \<open>exampleBody\<close> what the
  subprogram computes with the test of \<open>exampleEnv\<close>.
\<close>

definition exampleDistribute :: "int list" where
  "exampleDistribute =
     [72, 15, 70, 67, 2, 0, 0, 61, 7, 67, 2, 0, 42, 58, 69, 70, 65, 70, 0, 1, 2, 39, 57, 2]"

definition exampleState :: "Type Processor" where
  "exampleState =
     (pushType (setTypes [mk K_string, mk K_number, mk K_boolean] (mk K_union))
        (bumpVariables (push (Ty (mk K_never)) (pushFrame newProcessor))))\<lparr>program := 22\<rparr>"

definition exampleBody :: "Type \<Rightarrow> Type" where
  "exampleBody c = (if c = mk K_string then mk K_never else setType c (mk K_array))"

section \<open>Examples of self-reference\<close>

text \<open>
  The objects of the examples. 0 is \<open>type A = A[]\<close>, the program \<open>inline 0, array\<close>
  with the sentinel in the pool. 1 is \<open>interface Tree { children: Tree[] }\<close>, the
  program \<open>inline 1, array, propertySignature 0, objectLiteral\<close> with the pool
  \<open>['children', 0]\<close>. 3 is the same interface referring to itself through the thunk
  2, which returns the array 3. 4 is \<open>interface Tree<T> { children: Tree<string>[] }\<close>
  in the form \<open>string, inlineCall 0 1, array, propertySignature 1, objectLiteral\<close>.
  The opcode strings are the numbers of the examples plus 33.
\<close>

definition exampleObjects :: "nat \<Rightarrow> Object" where
  "exampleObjects h =
     (if h = 0 then Packed [PNum 0, PStr [107, 33, 75]]
      else if h = 1 then Packed [PStr (str ''children''), PNum 0, PStr [107, 34, 75, 77, 33, 89]]
      else if h = 2 then Thunk (PObj 3)
      else if h = 3 then Packed [PStr (str ''children''), PObj 2, PStr [107, 34, 75, 77, 33, 89]]
      else if h = 4 then Packed [PNum 0, PStr (str ''children''), PStr [33, 108, 33, 34, 75, 77, 34, 89]]
      else Opaque)"

text \<open>What a result of \<open>resolveRuntimeType\<close> shows: the node returned, and the node at an
  address in the world it leaves.\<close>

definition returned :: "(error + (addr \<times> World)) option \<Rightarrow> addr option" where
  "returned r = (case r of Some (Inr (a, w)) \<Rightarrow> Some a | _ \<Rightarrow> None)"

definition nodeAfter :: "(error + (addr \<times> World)) option \<Rightarrow> addr \<Rightarrow> StoredNode option" where
  "nodeAfter r a = (case r of Some (Inr (b, w)) \<Rightarrow> nodeAt w a | _ \<Rightarrow> None)"

text \<open>The packed program of object 1 of the examples.\<close>

definition treePack :: "prim list" where
  "treePack = [PStr (str ''children''), PNum 0, PStr [107, 34, 75, 77, 33, 89]]"

text \<open>The decoded program and pool of object 4 of the examples.\<close>

definition genericOps :: "int list" where
  "genericOps = [0, 75, 0, 1, 42, 44, 1, 56]"

definition genericPool :: "prim list" where
  "genericPool = [PNum 0, PStr (str ''children'')]"

text \<open>A run that ends with the result anchor of its processor on top of the stack.\<close>

definition endsOnAnchor :: "(error + (World \<times> StoreProcessor)) option \<Rightarrow> bool" where
  "endsOnAnchor r = (case r of
       Some (Inr (w2, m2)) \<Rightarrow> stack (core m2) (stackPointer (core m2)) = Ty (resultType m2)
     | _ \<Rightarrow> False)"

section \<open>Examples of type parameters\<close>

text \<open>A state with two type arguments of which the first is consumed, and the bare node
  of a parameter named \<open>T\<close>.\<close>

definition twoInputs :: "Type Processor" where
  "twoInputs = newProcessor\<lparr>frame := (frame newProcessor)
     \<lparr>inputs := [Ty (mk K_string), Ty (mk K_number)], variables := 1\<rparr>\<rparr>"

definition bareT :: Type where
  "bareT = setAttrs (\<lambda>a. a\<lparr>name := PStr (str ''T'')\<rparr>) (mk K_typeParameter)"

section \<open>Properties of the decoder\<close>

lemma unpackOps_map: "unpackOps acc enc = acc @ map (\<lambda>c. int c - 33) enc"
  by (induction enc arbitrary: acc) simp_all

text \<open>
  C3. For every program value: when the last element is not a string (or there is no
  element at all) \<open>unpack\<close> returns the empty program; otherwise the opcodes are the
  code units of the final string, each minus 33, and the pool is the elements before
  the final string, in order.
\<close>

theorem unpack_spec:
  "((pack = [] \<or> (\<forall>e. last pack \<noteq> PStr e)) \<longrightarrow> unpack pack = \<lparr>packOps = [], packStack = []\<rparr>) \<and>
   (\<forall>pool e. pack = pool @ [PStr e] \<longrightarrow>
      unpack pack = \<lparr>packOps = map (\<lambda>c. int c - 33) e, packStack = pool\<rparr>)"
proof (intro conjI impI allI)
  assume "pack = [] \<or> (\<forall>e. last pack \<noteq> PStr e)"
  then show "unpack pack = \<lparr>packOps = [], packStack = []\<rparr>"
    by (auto simp: unpack_def split: prim.splits)
next
  fix pool e
  assume "pack = pool @ [PStr e]"
  then show "unpack pack = \<lparr>packOps = map (\<lambda>c. int c - 33) e, packStack = pool\<rparr>"
    by (cases pool) (simp_all add: unpack_def unpackOps_map)
qed

theorem unpack_spec_witness:
  "unpack [PStr (str ''p''), PNum 7] = \<lparr>packOps = [], packStack = []\<rparr> \<and>
   unpack [PStr (str ''p''), PStr [33, 58, 34]] = \<lparr>packOps = [0, 25, 1], packStack = [PStr (str ''p'')]\<rparr>"
  using unpack_spec [of "[PStr (str ''p''), PNum 7]"]
        unpack_spec [of "[PStr (str ''p''), PStr [33, 58, 34]]"]
  by simp

section \<open>Properties of the calling convention\<close>

lemma call_effect:
  "stack (call target jumpBackTo s) (stackPointer s + 1) = Prim (PNum (program s + jumpBackTo)) \<and>
   stackPointer (call target jumpBackTo s) = stackPointer s + 1 \<and>
   startIndex (frame (call target jumpBackTo s)) = stackPointer s + 1 \<and>
   frameIndex (frame (call target jumpBackTo s)) = frameIndex (frame s) + 1 \<and>
   previous (call target jumpBackTo s) = frame s # previous s \<and>
   program (call target jumpBackTo s) + 1 = target"
  by (simp add: call_def pushFrame_def push_def store_def)

lemma return_effect:
  assumes "0 \<le> stackPointer c'" "previous c' = f # fs"
    "stack c' (startIndex (frame c')) = Prim (PNum a)"
  shows "\<exists>r. returnFrame c' = Inr r \<and>
       stackPointer r = startIndex (frame c') \<and>
       stack r (stackPointer r) = stack c' (stackPointer c') \<and>
       frame r = f \<and> previous r = fs \<and> program r + 1 = a"
  using assms
  by (simp add: returnFrame_def pop_def push_def store_def restoreFrame_def Let_def)

text \<open>
  C2. The \<open>call\<close> opcode with target \<open>t\<close> is \<open>call t 1\<close> on the state whose program
  counter stands on the parameter. \<open>call target jumpBackTo\<close> on a state \<open>s\<close> stores
  \<open>program + jumpBackTo\<close> in the slot above the stack pointer as the return address,
  pushes a frame whose \<open>startIndex\<close> is the stack pointer at that moment (the slot of
  the return address, one above the stack pointer before the address was pushed) and
  leaves the program counter one before \<open>target\<close>. When the subprogram has left the
  frame chain and the return address in place and a value on top (state \<open>c'\<close>), the
  \<open>return\<close> opcode yields a state whose stack pointer is \<open>startIndex\<close> (truncated to
  \<open>startIndex - 1\<close>, then one push) with the return value on top, whose frame is the
  caller's, and whose program counter is one before the return address.
\<close>

theorem call_return_convention:
  assumes "c = call target jumpBackTo s"
    and "frame c' = frame c" and "previous c' = previous c"
    and "stack c' (startIndex (frame c)) = stack c (startIndex (frame c))"
    and "0 \<le> stackPointer c'"
  shows "(opAt ops (program s0 + 1) = Some t \<longrightarrow>
           execOp env ops initialStack Op_call s0 =
             Inr (call t 1 (s0\<lparr>program := program s0 + 1\<rparr>))) \<and>
         stack c (stackPointer s + 1) = Prim (PNum (program s + jumpBackTo)) \<and>
         stackPointer c = stackPointer s + 1 \<and>
         startIndex (frame c) = stackPointer s + 1 \<and>
         previous c = frame s # previous s \<and>
         program c + 1 = target \<and>
         execOp env ops initialStack Op_return c' = returnFrame c' \<and>
         (\<exists>r. returnFrame c' = Inr r \<and>
            stackPointer r = startIndex (frame c) \<and>
            stack r (stackPointer r) = stack c' (stackPointer c') \<and>
            frame r = frame s \<and> previous r = previous s \<and>
            program r + 1 = program s + jumpBackTo)"
proof -
  have op: "opAt ops (program s0 + 1) = Some t \<longrightarrow>
      execOp env ops initialStack Op_call s0 = Inr (call t 1 (s0\<lparr>program := program s0 + 1\<rparr>))"
    by (simp add: op_call_def eatParameter_def)
  note ce = call_effect [of target jumpBackTo s]
  have "stack c' (startIndex (frame c')) = Prim (PNum (program s + jumpBackTo))"
    using assms ce by simp
  moreover have "previous c' = frame s # previous s"
    using assms ce by simp
  ultimately have "\<exists>r. returnFrame c' = Inr r \<and>
       stackPointer r = startIndex (frame c') \<and>
       stack r (stackPointer r) = stack c' (stackPointer c') \<and>
       frame r = frame s \<and> previous r = previous s \<and> program r + 1 = program s + jumpBackTo"
    using return_effect [OF assms(5)] by blast
  then show ?thesis
    using op ce assms(1,2) by simp
qed

theorem call_return_convention_witness:
  "\<exists>r. returnFrame (push (Ty (mk K_string)) (call 5 1 newProcessor)) = Inr r \<and>
     stackPointer r = 0 \<and> stack r 0 = Ty (mk K_string) \<and>
     frame r = frame newProcessor \<and> previous r = [] \<and> program r + 1 = 1"
proof -
  let ?c = "call 5 1 newProcessor"
  let ?c' = "push (Ty (mk K_string)) ?c"
  have h2: "frame ?c' = frame ?c" and h3: "previous ?c' = previous ?c"
    and h4: "stack ?c' (startIndex (frame ?c)) = stack ?c (startIndex (frame ?c))"
    and h5: "0 \<le> stackPointer ?c'"
    by (simp_all add: call_def pushFrame_def push_def store_def newProcessor_def)
  have v: "stack ?c' (stackPointer ?c') = Ty (mk K_string)"
    and n: "startIndex (frame ?c) = 0" "program newProcessor = 0" "previous newProcessor = []"
    by (simp_all add: call_def pushFrame_def push_def store_def newProcessor_def)
  from call_return_convention [OF refl h2 h3 h4 h5, of "[]" newProcessor 0]
  obtain r where "returnFrame ?c' = Inr r" "stackPointer r = startIndex (frame ?c)"
    "stack r (stackPointer r) = stack ?c' (stackPointer ?c')"
    "frame r = frame newProcessor" "previous r = previous newProcessor"
    "program r + 1 = program newProcessor + 1"
    by blast
  then show ?thesis
    using v n by auto
qed

section \<open>Properties of the opcodes\<close>

lemma length2: "length xs = 2 \<Longrightarrow> \<exists>a b. xs = [a, b]"
  by (cases xs; cases "tl xs") auto

lemma reduceOptional_other:
  "\<not> (kind t = K_union \<and> length (types t) = 2) \<Longrightarrow> reduceOptional t = (t, False)"
  by (auto simp: reduceOptional_def)

lemma reduceOptional_first:
  assumes "kind t = K_union" "types t = [a, b]" "kind a = K_undefined"
    "kind b \<noteq> K_null" "kind b \<noteq> K_undefined"
  shows "reduceOptional t = (b, True)"
  using assms by (simp add: reduceOptional_def)

lemma reduceOptional_second:
  assumes "kind t = K_union" "types t = [a, b]" "kind b = K_undefined"
    "kind a \<noteq> K_null" "kind a \<noteq> K_undefined"
  shows "reduceOptional t = (a, True)"
  using assms by (simp add: reduceOptional_def)

lemma reduceOptional_none:
  assumes "\<not> reducible t"
  shows "reduceOptional t = (t, False)"
proof (cases "kind t = K_union \<and> length (types t) = 2")
  case True
  then obtain x y where xy: "types t = [x, y]" using length2 by blast
  with True assms have
    "\<not> (kind x = K_undefined \<and> kind y \<noteq> K_null \<and> kind y \<noteq> K_undefined)"
    "\<not> (kind y = K_undefined \<and> kind x \<noteq> K_null \<and> kind x \<noteq> K_undefined)"
    by (auto simp: reducible_def)
  with True xy show ?thesis by (auto simp: reduceOptional_def)
next
  case False
  then show ?thesis using reduceOptional_other [of t] by auto
qed

text \<open>
  C5, as the code has it. For \<open>property\<close> and \<open>propertySignature\<close> with a type node
  popped: when the node is a union of exactly two members, one of kind \<open>undefined\<close>
  and the other of a kind that is neither \<open>null\<close> nor \<open>undefined\<close>, the property
  node has that other member as its type and is optional; for every other node the
  popped type is carried over unchanged and \<open>optional\<close> is left unset.
\<close>

theorem property_optional_reduction:
  assumes "op = Op_property \<or> op = Op_propertySignature"
    and "pop (s\<lparr>program := program s + 1\<rparr>) = Inr (Ty t, s2)"
    and "\<not> isFunction (poolAt initialStack (opAt ops (program s + 1)))"
  shows "\<exists>node. execOp env ops initialStack op s = Inr (pushType node s2) \<and>
     kind node = (if op = Op_property then K_property else K_propertySignature) \<and>
     name (attrs node) = poolAt initialStack (opAt ops (program s + 1)) \<and>
     (\<forall>a b. kind t = K_union \<and> types t = [a, b] \<and> kind a = K_undefined \<and>
            kind b \<noteq> K_null \<and> kind b \<noteq> K_undefined
        \<longrightarrow> type node = Some b \<and> optional (attrs node)) \<and>
     (\<forall>a b. kind t = K_union \<and> types t = [a, b] \<and> kind b = K_undefined \<and>
            kind a \<noteq> K_null \<and> kind a \<noteq> K_undefined
        \<longrightarrow> type node = Some a \<and> optional (attrs node)) \<and>
     (\<not> (kind t = K_union \<and> (\<exists>a b. types t = [a, b] \<and>
           ((kind a = K_undefined \<and> kind b \<noteq> K_null \<and> kind b \<noteq> K_undefined) \<or>
            (kind b = K_undefined \<and> kind a \<noteq> K_null \<and> kind a \<noteq> K_undefined))))
        \<longrightarrow> type node = Some t \<and> \<not> optional (attrs node))"
proof -
  obtain t' opt where r: "reduceOptional t = (t', opt)"
    by (cases "reduceOptional t")
  let ?node = "Node (if op = Op_property then K_property else K_propertySignature)
                   (noAttrs\<lparr>name := poolAt initialStack (opAt ops (program s + 1)),
                      optional := opt,
                      visibility := (if op = Op_property then Some V_public else None)\<rparr>)
                   [] (Some t') [] None None None"
  have e: "execOp env ops initialStack op s = Inr (pushType ?node s2)"
    using assms r by (auto simp: op_property_def eatParameter_def)
  have c1: "\<forall>a b. kind t = K_union \<and> types t = [a, b] \<and> kind a = K_undefined \<and>
            kind b \<noteq> K_null \<and> kind b \<noteq> K_undefined \<longrightarrow> t' = b \<and> opt"
    using reduceOptional_first [of t] r by auto
  have c2: "\<forall>a b. kind t = K_union \<and> types t = [a, b] \<and> kind b = K_undefined \<and>
            kind a \<noteq> K_null \<and> kind a \<noteq> K_undefined \<longrightarrow> t' = a \<and> opt"
    using reduceOptional_second [of t] r by auto
  have c3: "\<not> reducible t \<longrightarrow> t' = t \<and> \<not> opt"
    using reduceOptional_none [of t] r by auto
  show ?thesis
    apply (rule exI [of _ ?node])
    using e c1 c2 c3 unfolding reducible_def by (simp; blast)
qed

theorem property_optional_reduction_witness:
  "\<exists>node. execOp exampleEnv [43, 0] [PStr (str ''p'')] Op_property
       (pushType (setTypes [mk K_string, mk K_undefined] (mk K_union)) newProcessor) =
       Inr (pushType node
         ((pushType (setTypes [mk K_string, mk K_undefined] (mk K_union)) newProcessor)
            \<lparr>program := 1, stackPointer := - 1\<rparr>)) \<and>
     kind node = K_property \<and> name (attrs node) = PStr (str ''p'') \<and>
     type node = Some (mk K_string) \<and> optional (attrs node)"
proof -
  let ?t = "setTypes [mk K_string, mk K_undefined] (mk K_union)"
  let ?s = "pushType ?t newProcessor"
  let ?s2 = "?s\<lparr>program := 1, stackPointer := - 1\<rparr>"
  have h2: "pop (?s\<lparr>program := program ?s + 1\<rparr>) = Inr (Ty ?t, ?s2)"
    by (simp add: pop_def pushType_def push_def store_def newProcessor_def)
  have h3: "\<not> isFunction (poolAt [PStr (str ''p'')] (opAt [43, 0] (program ?s + 1)))"
    by (simp add: poolAt_def opAt_def pushType_def push_def store_def newProcessor_def)
  have k: "kind ?t = K_union \<and> types ?t = [mk K_string, mk K_undefined] \<and>
      kind (mk K_undefined) = K_undefined \<and> kind (mk K_string) \<noteq> K_null \<and>
      kind (mk K_string) \<noteq> K_undefined"
    by (simp add: mk_def)
  have nm: "poolAt [PStr (str ''p'')] (opAt [43, 0] (program ?s + 1)) = PStr (str ''p'')"
    by (simp add: poolAt_def opAt_def pushType_def push_def store_def newProcessor_def)
  from property_optional_reduction [of Op_property ?s ?t ?s2
      "[PStr (str ''p'')]" "[43, 0]" exampleEnv, OF _ h2 h3]
  obtain node where
    "execOp exampleEnv [43, 0] [PStr (str ''p'')] Op_property ?s =
       Inr (pushType node ?s2)"
    "kind node = K_property"
    "name (attrs node) = poolAt [PStr (str ''p'')] (opAt [43, 0] (program ?s + 1))"
    "\<forall>a b. kind ?t = K_union \<and> types ?t = [a, b] \<and> kind b = K_undefined \<and>
            kind a \<noteq> K_null \<and> kind a \<noteq> K_undefined
        \<longrightarrow> type node = Some a \<and> optional (attrs node)"
    by auto
  then show ?thesis using k nm by auto
qed

text \<open>
  The property \<open>p: undefined | null\<close> keeps its union and is not optional: the
  popped type is a two-element union containing \<open>undefined\<close>.
\<close>

theorem property_undefined_null_counterexample:
  "run 10 exampleEnv [8, 10, 39, 43, 0] [PStr (str ''p'')] [] =
     Some (Inr (Ty (Node K_property
       (noAttrs\<lparr>name := PStr (str ''p''), visibility := Some V_public\<rparr>) []
       (Some (setTypes [mk K_undefined, mk K_null] (mk K_union))) [] None None None)))"
  by code_simp

lemma asTypes_map_Ty: "asTypes (map Ty ts) = Inr ts"
  by (induction ts) simp_all

lemma asTypes_Inr: "asTypes es = Inr ts \<Longrightarrow> es = map Ty ts"
proof (induction es arbitrary: ts)
  case Nil then show ?case by simp
next
  case (Cons e es)
  then show ?case
    by (cases e; cases "asTypes es") auto
qed






text \<open>
  C7. \<open>typeParameter\<close> and \<open>typeParameterDefault\<close> take the type argument at position
  \<open>frame.variables\<close> of \<open>frame.inputs\<close> (\<open>undefined\<close> when there is none at that
  position) and leave \<open>frame.variables\<close> one higher. \<open>typeParameter\<close> pushes the
  argument, or a bare \<open>typeParameter\<close> node with the name from the pool when the argument
  is \<open>undefined\<close>. \<open>typeParameterDefault\<close> first pops the default; it pushes the
  argument when there is one, the default exactly when the argument is \<open>undefined\<close> (and
  the default is not), and the bare node when both are \<open>undefined\<close>.
\<close>

theorem typeParameter_inputs:
  assumes "k = variables (frame s)"
    and "input = (if k < length (inputs (frame s)) then inputs (frame s) ! k else Prim PUndefined)"
    and "bare = setAttrs (\<lambda>a. a\<lparr>name := poolAt initialStack (opAt ops (program s + 1))\<rparr>)
                  (mk K_typeParameter)"
    and "s1 = s\<lparr>program := program s + 1, frame := (frame s)\<lparr>variables := k + 1\<rparr>\<rparr>"
  shows "execOp env ops initialStack Op_typeParameter s =
       Inr (if input = Prim PUndefined then pushType bare s1 else push input s1) \<and>
     (\<forall>d s3. pop s1 = Inr (d, s3) \<longrightarrow>
        variables (frame s3) = k + 1 \<and>
        execOp env ops initialStack Op_typeParameterDefault s =
          Inr (if input \<noteq> Prim PUndefined then push input s3
               else if d \<noteq> Prim PUndefined then push d s3
               else pushType bare s3)) \<and>
     (\<forall>e. pop s1 = Inl e \<longrightarrow> execOp env ops initialStack Op_typeParameterDefault s = Inl e)"
proof (intro conjI allI impI)
  show "execOp env ops initialStack Op_typeParameter s =
       Inr (if input = Prim PUndefined then pushType bare s1 else push input s1)"
    using assms
    by (simp add: op_typeParameter_def eatParameter_def pushParameter_def Let_def bumpVariables_def
        inputAt_def)
next
  fix d s3 assume p: "pop s1 = Inr (d, s3)"
  then show "variables (frame s3) = k + 1"
    using assms(4) by (auto simp: pop_def split: if_splits)
  show "execOp env ops initialStack Op_typeParameterDefault s =
          Inr (if input \<noteq> Prim PUndefined then push input s3
               else if d \<noteq> Prim PUndefined then push d s3
               else pushType bare s3)"
    using assms p
    by (simp add: op_typeParameter_def eatParameter_def pushParameter_def Let_def bumpVariables_def
        inputAt_def)
next
  fix e assume "pop s1 = Inl e"
  then show "execOp env ops initialStack Op_typeParameterDefault s = Inl e"
    using assms
    by (simp add: op_typeParameter_def eatParameter_def Let_def bumpVariables_def inputAt_def)
qed

theorem typeParameter_inputs_witness:
  "execOp exampleEnv [77, 0] [PStr (str ''T'')] Op_typeParameter twoInputs =
     Inr (push (Ty (mk K_number))
       (twoInputs\<lparr>program := 1, frame := (frame twoInputs)\<lparr>variables := 2\<rparr>\<rparr>)) \<and>
   execOp exampleEnv [77, 0] [PStr (str ''T'')] Op_typeParameter newProcessor =
     Inr (pushType bareT
       (newProcessor\<lparr>program := 1, frame := (frame newProcessor)\<lparr>variables := 1\<rparr>\<rparr>)) \<and>
   execOp exampleEnv [78, 0] [PStr (str ''T'')] Op_typeParameterDefault
     (pushType (mk K_boolean) newProcessor) =
     Inr (push (Ty (mk K_boolean))
       ((pushType (mk K_boolean) newProcessor)
          \<lparr>program := 1, frame := (frame newProcessor)\<lparr>variables := 1\<rparr>, stackPointer := - 1\<rparr>)) \<and>
   execOp exampleEnv [78, 0] [PStr (str ''T'')] Op_typeParameterDefault
     (pushType (mk K_boolean) twoInputs) =
     Inr (push (Ty (mk K_number))
       ((pushType (mk K_boolean) twoInputs)
          \<lparr>program := 1, frame := (frame twoInputs)\<lparr>variables := 2\<rparr>, stackPointer := - 1\<rparr>)) \<and>
   execOp exampleEnv [78, 0] [PStr (str ''T'')] Op_typeParameterDefault
     (push (Prim PUndefined) newProcessor) =
     Inr (pushType bareT
       ((push (Prim PUndefined) newProcessor)
          \<lparr>program := 1, frame := (frame newProcessor)\<lparr>variables := 1\<rparr>, stackPointer := - 1\<rparr>))"
proof -
  let ?pool = "[PStr (str ''T'')]"
  let ?d = "pushType (mk K_boolean) newProcessor"
  let ?e = "pushType (mk K_boolean) twoInputs"
  let ?u = "push (Prim PUndefined) newProcessor"
  have b: "setAttrs (\<lambda>a. a\<lparr>name := poolAt ?pool (opAt [77, 0] (0 + 1))\<rparr>) (mk K_typeParameter) = bareT"
    "setAttrs (\<lambda>a. a\<lparr>name := poolAt ?pool (opAt [78, 0] (0 + 1))\<rparr>) (mk K_typeParameter) = bareT"
    by (simp_all add: bareT_def poolAt_def opAt_def)
  have pr: "program twoInputs = 0" "program newProcessor = 0" "program ?d = 0" "program ?e = 0"
    "program ?u = 0"
    by (simp_all add: twoInputs_def newProcessor_def pushType_def push_def store_def)
  have fr: "frame ?d = frame newProcessor" "frame ?e = frame twoInputs" "frame ?u = frame newProcessor"
    by (simp_all add: pushType_def push_def store_def)
  have v: "variables (frame twoInputs) = 1" "inputs (frame twoInputs) = [Ty (mk K_string), Ty (mk K_number)]"
    "variables (frame newProcessor) = 0" "inputs (frame newProcessor) = []"
    by (simp_all add: twoInputs_def newProcessor_def)
  have a1: "execOp exampleEnv [77, 0] ?pool Op_typeParameter twoInputs =
      Inr (push (Ty (mk K_number))
        (twoInputs\<lparr>program := 1, frame := (frame twoInputs)\<lparr>variables := 2\<rparr>\<rparr>))"
    using typeParameter_inputs [where s = twoInputs and env = exampleEnv and ops = "[77, 0]"
        and initialStack = ?pool, OF refl refl refl refl] pr v
    by (simp add: numeral_2_eq_2)
  have a2: "execOp exampleEnv [77, 0] ?pool Op_typeParameter newProcessor =
      Inr (pushType bareT
        (newProcessor\<lparr>program := 1, frame := (frame newProcessor)\<lparr>variables := 1\<rparr>\<rparr>))"
    using typeParameter_inputs [where s = newProcessor and env = exampleEnv and ops = "[77, 0]"
        and initialStack = ?pool, OF refl refl refl refl] pr v b
    by simp
  let ?d1 = "?d\<lparr>program := program ?d + 1, frame := (frame ?d)\<lparr>variables := variables (frame ?d) + 1\<rparr>\<rparr>"
  have pd: "pop ?d1 = Inr (Ty (mk K_boolean), ?d1\<lparr>stackPointer := - 1\<rparr>)"
    by (simp add: pop_def newProcessor_def pushType_def push_def store_def)
  have a3: "execOp exampleEnv [78, 0] ?pool Op_typeParameterDefault ?d =
      Inr (push (Ty (mk K_boolean)) (?d1\<lparr>stackPointer := - 1\<rparr>))"
    using typeParameter_inputs [where s = ?d and env = exampleEnv and ops = "[78, 0]"
        and initialStack = ?pool, OF refl refl refl refl] pd fr v
    by simp
  let ?e1 = "?e\<lparr>program := program ?e + 1, frame := (frame ?e)\<lparr>variables := variables (frame ?e) + 1\<rparr>\<rparr>"
  have pe: "pop ?e1 = Inr (Ty (mk K_boolean), ?e1\<lparr>stackPointer := - 1\<rparr>)"
    by (simp add: pop_def twoInputs_def newProcessor_def pushType_def push_def store_def)
  have a4: "execOp exampleEnv [78, 0] ?pool Op_typeParameterDefault ?e =
      Inr (push (Ty (mk K_number)) (?e1\<lparr>stackPointer := - 1\<rparr>))"
    using typeParameter_inputs [where s = ?e and env = exampleEnv and ops = "[78, 0]"
        and initialStack = ?pool, OF refl refl refl refl] pe fr v
    by (simp add: numeral_2_eq_2)
  let ?u1 = "?u\<lparr>program := program ?u + 1, frame := (frame ?u)\<lparr>variables := variables (frame ?u) + 1\<rparr>\<rparr>"
  have pu: "pop ?u1 = Inr (Prim PUndefined, ?u1\<lparr>stackPointer := - 1\<rparr>)"
    by (simp add: pop_def newProcessor_def push_def store_def)
  have a5: "execOp exampleEnv [78, 0] ?pool Op_typeParameterDefault ?u =
      Inr (pushType bareT (?u1\<lparr>stackPointer := - 1\<rparr>))"
    using typeParameter_inputs [where s = ?u and env = exampleEnv and ops = "[78, 0]"
        and initialStack = ?pool, OF refl refl refl refl] pu fr v b pr
    by simp
  show ?thesis using a1 a2 a3 a4 a5 pr fr v by (simp add: numeral_2_eq_2)
qed

text \<open>
  Two \<open>typeParameter\<close> opcodes in a row take the first and the second type argument;
  with one argument only, the second pushes the bare node.
\<close>

lemma typeParameter_successive:
  "map_option (map_sum id (\<lambda>s. [stack s (stackPointer s - 1), stack s (stackPointer s)]))
     (runLoop 5 exampleEnv [77, 0, 77, 1] [PStr (str ''T''), PStr (str ''U'')]
        (initial [PStr (str ''T''), PStr (str ''U'')] [Ty (mk K_string), Ty (mk K_number)])) =
     Some (Inr [Ty (mk K_string), Ty (mk K_number)]) \<and>
   map_option (map_sum id (\<lambda>s. [stack s (stackPointer s - 1), stack s (stackPointer s)]))
     (runLoop 5 exampleEnv [77, 0, 77, 1] [PStr (str ''T''), PStr (str ''U'')]
        (initial [PStr (str ''T''), PStr (str ''U'')] [Ty (mk K_string)])) =
     Some (Inr [Ty (mk K_string),
       Ty (setAttrs (\<lambda>a. a\<lparr>name := PStr (str ''U'')\<rparr>) (mk K_typeParameter))])"
  by code_simp

lemma keyofMembers_filter: "keyofMembers ms = map keyLiteral (filter keyed ms)"
  by (induction ms) (auto simp: keyed_def)

text \<open>
  C10. \<open>keyof\<close> on a type node whose kind is neither \<open>objectLiteral\<close> nor \<open>class\<close>
  pushes a union node with no members (not \<open>never\<close>, not unboxed). On an
  \<open>objectLiteral\<close> or \<open>class\<close> it pushes a union whose members are the literal nodes
  of the names of the \<open>property\<close>, \<open>propertySignature\<close>, \<open>method\<close> and
  \<open>methodSignature\<close> members, in order; index signatures give no member.
\<close>

theorem keyof_members:
  assumes "pop s = Inr (Ty t, s1)"
  shows "(kind t \<noteq> K_objectLiteral \<and> kind t \<noteq> K_class \<longrightarrow>
           execOp env ops initialStack Op_keyof s = Inr (push (Ty (mk K_union)) s1)) \<and>
         kind (mk K_union) = K_union \<and> types (mk K_union) = [] \<and>
         (kind t = K_objectLiteral \<or> kind t = K_class \<longrightarrow>
           (\<exists>u. execOp env ops initialStack Op_keyof s = Inr (push (Ty u) s1) \<and>
              kind u = K_union \<and>
              types u = map keyLiteral (filter keyed (types t)))) \<and>
         (\<forall>m. kind (keyLiteral m) = K_literal \<and> literal (attrs (keyLiteral m)) = name (attrs m)) \<and>
         (\<forall>m. keyed m \<longleftrightarrow> kind m = K_property \<or> kind m = K_propertySignature \<or>
                 kind m = K_method \<or> kind m = K_methodSignature) \<and>
         (\<forall>m. kind m = K_indexSignature \<longrightarrow> \<not> keyed m)"
proof -
  have a: "kind t \<noteq> K_objectLiteral \<and> kind t \<noteq> K_class \<longrightarrow>
           execOp env ops initialStack Op_keyof s = Inr (push (Ty (mk K_union)) s1)"
    using assms by (auto simp: op_keyof_def mk_def)
  have b: "kind t = K_objectLiteral \<or> kind t = K_class \<longrightarrow>
      execOp env ops initialStack Op_keyof s =
        Inr (push (Ty (setTypes (map keyLiteral (filter keyed (types t))) (mk K_union))) s1)"
    using assms by (auto simp: op_keyof_def keyofMembers_filter)
  have c: "kind (setTypes (map keyLiteral (filter keyed (types t))) (mk K_union)) = K_union"
    "types (setTypes (map keyLiteral (filter keyed (types t))) (mk K_union)) =
       map keyLiteral (filter keyed (types t))"
    "kind (mk K_union) = K_union" "types (mk K_union) = []"
    by (simp_all add: mk_def)
  have d: "\<forall>m. kind (keyLiteral m) = K_literal \<and> literal (attrs (keyLiteral m)) = name (attrs m)"
    by (simp add: keyLiteral_def mk_def noAttrs_def)
  show ?thesis
    using a b c d by (auto simp: keyed_def)
qed

theorem keyof_members_witness:
  "\<exists>u. execOp exampleEnv [] [] Op_keyof
       (pushType (setTypes
          [Node K_propertySignature (noAttrs\<lparr>name := PStr (str ''a'')\<rparr>) []
             (Some (mk K_string)) [] None None None,
           Node K_indexSignature noAttrs [] (Some (mk K_number)) [] None (Some (mk K_string)) None]
          (mk K_objectLiteral)) newProcessor) =
       Inr (push (Ty u) ((pushType (setTypes
          [Node K_propertySignature (noAttrs\<lparr>name := PStr (str ''a'')\<rparr>) []
             (Some (mk K_string)) [] None None None,
           Node K_indexSignature noAttrs [] (Some (mk K_number)) [] None (Some (mk K_string)) None]
          (mk K_objectLiteral)) newProcessor)\<lparr>stackPointer := - 1\<rparr>)) \<and>
     kind u = K_union \<and>
     types u = [setAttrs (\<lambda>a. a\<lparr>literal := PStr (str ''a'')\<rparr>) (mk K_literal)]"
proof -
  let ?t = "setTypes
          [Node K_propertySignature (noAttrs\<lparr>name := PStr (str ''a'')\<rparr>) []
             (Some (mk K_string)) [] None None None,
           Node K_indexSignature noAttrs [] (Some (mk K_number)) [] None (Some (mk K_string)) None]
          (mk K_objectLiteral)"
  let ?s = "pushType ?t newProcessor"
  have h: "pop ?s = Inr (Ty ?t, ?s\<lparr>stackPointer := - 1\<rparr>)"
    by (simp add: pop_def newProcessor_def pushType_def push_def store_def)
  have k: "kind ?t = K_objectLiteral" by (simp add: mk_def)
  have f: "map keyLiteral (filter keyed (types ?t)) =
      [setAttrs (\<lambda>a. a\<lparr>literal := PStr (str ''a'')\<rparr>) (mk K_literal)]"
    by (simp add: mk_def keyed_def keyLiteral_def noAttrs_def)
  from keyof_members [OF h, of exampleEnv "[]" "[]"] k
  obtain u where "execOp exampleEnv [] [] Op_keyof ?s = Inr (push (Ty u) (?s\<lparr>stackPointer := - 1\<rparr>))"
    "kind u = K_union" "types u = map keyLiteral (filter keyed (types ?t))"
    by blast
  then show ?thesis unfolding f by (intro exI [of _ u]) simp
qed

text \<open>
  C8. The union that \<open>keyof\<close> pushes is not unboxed: \<open>keyof {a: string}\<close>, the last
  opcode of the program \<open>frame, string, propertySignature 0, objectLiteral, keyof\<close>,
  returns a union node with the single member \<open>'a'\<close>.
\<close>

theorem keyof_single_member_union:
  "run 10 exampleEnv [70, 0, 44, 0, 56, 64] [PStr (str ''a'')] [] =
     Some (Inr (Ty (setTypes [setAttrs (\<lambda>a. a\<lparr>literal := PStr (str ''a'')\<rparr>) (mk K_literal)]
       (mk K_union))))"
  by code_simp

section \<open>Malformed programs\<close>





section \<open>Distribution over unions\<close>

lemma reaches_refl: "reaches env ops initialStack s s"
  unfolding reaches_def by (rule exI [of _ 0]) simp

lemma loopIterations_add:
  "loopIterations n env ops initialStack s = Some a \<Longrightarrow>
   loopIterations (n + m) env ops initialStack s = loopIterations m env ops initialStack a"
  by (induction n arbitrary: s) (auto split: if_splits sum.splits)

lemma reaches_trans:
  assumes "reaches env ops initialStack s a" and "reaches env ops initialStack a b"
  shows "reaches env ops initialStack s b"
proof -
  from assms obtain n m where n: "loopIterations n env ops initialStack s = Some a"
    and m: "loopIterations m env ops initialStack a = Some b"
    unfolding reaches_def by blast
  have "loopIterations (n + m) env ops initialStack s = Some b"
    using loopIterations_add [OF n, of m] m by simp
  then show ?thesis unfolding reaches_def by blast
qed

lemma reaches_step:
  assumes "program s < int (length ops)" and "step env ops initialStack s = Inr s1"
  shows "reaches env ops initialStack s (s1\<lparr>program := program s1 + 1\<rparr>)"
  unfolding reaches_def using assms by (intro exI [of _ 1]) simp

text \<open>What \<open>reaches\<close> means for the loop with fuel: the run from \<open>s\<close> is the run from
  \<open>s'\<close>, with that much less fuel.\<close>

lemma loopIterations_runLoop:
  "loopIterations n env ops initialStack s = Some s' \<Longrightarrow>
   runLoop (n + fuel) env ops initialStack s = runLoop fuel env ops initialStack s'"
  by (induction n arbitrary: s) (auto split: if_splits sum.splits)

lemma opAt_less: "opAt ops k = Some n \<Longrightarrow> k < int (length ops)"
  by (auto simp: opAt_def split: if_splits)

lemma slice_acc:
  assumes "0 \<le> b" and "b + int (length acc) \<le> int (stackLength s)"
    and "\<forall>i<length acc. stack s (b + int i) = Ty (acc ! i)"
  shows "slice s b (b + int (length acc)) = map Ty acc"
proof -
  have a: "clampIndex (stackLength s) b = nat b"
    using assms by (auto simp: clampIndex_def)
  have c: "clampIndex (stackLength s) (b + int (length acc)) = nat b + length acc"
    using assms by (auto simp: clampIndex_def nat_add_distrib)
  have "map (\<lambda>k. stack s (int k)) [nat b ..< nat b + length acc] = map Ty acc"
  proof (rule nth_equalityI)
    show "length (map (\<lambda>k. stack s (int k)) [nat b ..< nat b + length acc]) = length (map Ty acc)"
      by simp
  next
    fix i assume "i < length (map (\<lambda>k. stack s (int k)) [nat b ..< nat b + length acc])"
    then have i: "i < length acc" by simp
    then have "stack s (int (nat b + i)) = Ty (acc ! i)"
      using assms(1,3) by simp
    with i show "map (\<lambda>k. stack s (int k)) [nat b ..< nat b + length acc] ! i = map Ty acc ! i"
      by simp
  qed
  then show ?thesis by (simp add: slice_def a c)
qed

lemma distributeNext_end:
  assumes "length members \<le> j" and "previous s2 = f0 # fs0"
    and "startIndex (frame s2) = si" and "variables (frame s2) = v" and "- 1 \<le> si"
    and "stackPointer s2 + 1 = si + int v + 1 + int (length acc)"
    and "\<forall>i<length acc. stack s2 (si + int v + 1 + int i) = Ty (acc ! i)"
    and "stackPointer s2 < int (stackLength s2)"
  shows "\<exists>s3. distributeNext sub s2 \<lparr>loopTypes = members, loopI = j\<rparr> = Inr s3 \<and>
     program s3 = program s2 \<and> stackPointer s3 = si + 1 \<and>
     stack s3 (si + 1) = Ty (unionOf acc) \<and> frame s3 = f0 \<and> previous s3 = fs0"
proof -
  let ?s3 = "s2\<lparr>frame := (frame s2)\<lparr>distributiveLoop := Some \<lparr>loopTypes = members, loopI = j + 1\<rparr>\<rparr>\<rparr>"
  have e1: "startIndex (frame ?s3) + int (variables (frame ?s3)) + 1 = si + int v + 1"
    using assms by simp
  have e2: "stackPointer ?s3 + 1 = (si + int v + 1) + int (length acc)"
    using assms by simp
  have sl: "slice ?s3 (startIndex (frame ?s3) + int (variables (frame ?s3)) + 1)
      (stackPointer ?s3 + 1) = map Ty acc"
    unfolding e1 e2 by (rule slice_acc) (use assms in auto)
  have rf: "restoreFrame (?s3\<lparr>stackPointer := startIndex (frame ?s3)\<rparr>) =
      s2\<lparr>stackPointer := si, frame := f0, previous := fs0\<rparr>"
    using assms by (simp add: restoreFrame_def)
  have pf: "popFrame ?s3 = (map Ty acc, s2\<lparr>stackPointer := si, frame := f0, previous := fs0\<rparr>)"
    unfolding popFrame_def sl rf by (rule refl)
  have "distributeNext sub s2 \<lparr>loopTypes = members, loopI = j\<rparr> =
      Inr (push (Ty (unionOf acc)) (s2\<lparr>stackPointer := si, frame := f0, previous := fs0\<rparr>))"
    using assms(1) pf
    by (simp add: distributeNext_def loopNext_def asTypes_map_Ty unionOf_def)
  then show ?thesis
    by (simp add: push_def store_def)
qed

lemma distributeEnter_again:
  assumes "distributiveLoop (frame z) = Some l" and "0 \<le> stackPointer z"
    and "stack z (stackPointer z) = Ty r"
  shows "distributeEnter z =
     Inr (if kind r = K_never then z\<lparr>stackPointer := stackPointer z - 1\<rparr>
          else push (Ty r) (z\<lparr>stackPointer := stackPointer z - 1\<rparr>), l)"
  using assms by (simp add: distributeEnter_def pop_def)

lemma step_distribute:
  assumes "opAt ops (program s) = Some n" and "opOf env n = Some Op_distribute"
    and "opAt ops (program s + 1) = Some P"
  shows "step env ops initialStack s =
     andThen (distributeEnter (s\<lparr>program := program s + 1\<rparr>)) (\<lambda>(s2, l). distributeNext (Some P) s2 l)"
  using assms by (simp add: step_def op_distribute_def eatParameter_def)

lemma unionOf_single: "flattenUnionTypes ts = [t] \<Longrightarrow> unionOf ts = t"
  by (simp add: unionOf_def unboxUnion_def mk_def)

lemma unionOf_other:
  "length (flattenUnionTypes ts) \<noteq> 1 \<Longrightarrow>
   unionOf ts = setTypes (flattenUnionTypes ts) (mk K_union)"
  by (cases "flattenUnionTypes ts"; cases "tl (flattenUnionTypes ts)")
     (auto simp: unionOf_def unboxUnion_def mk_def)


lemma distributeNext_entered:
  assumes r: "resumed pc s acc s2" and j: "j < length members"
    and st: "stackPointer s = startIndex (frame s) + int (variables (frame s)) + 1"
      "1 \<le> variables (frame s)" "- 1 \<le> startIndex (frame s)"
  shows "\<exists>s3. distributeNext (Some P) s2 \<lparr>loopTypes = members, loopI = j\<rparr> = Inr s3 \<and>
     entered P pc s members acc j (s3\<lparr>program := program s3 + 1\<rparr>)"
proof -
  from r obtain dl where r': "program s2 = pc + 1" "previous s2 = previous s"
    "frame s2 = (frame s)\<lparr>distributiveLoop := dl\<rparr>"
    "\<forall>k < stackPointer s. k \<noteq> startIndex (frame s) + 1 \<longrightarrow> stack s2 k = stack s k"
    "stackPointer s2 + 1 = stackPointer s + int (length acc)"
    "\<forall>i < length acc. stack s2 (stackPointer s + int i) = Ty (acc ! i)"
    "stackPointer s2 < int (stackLength s2)"
    unfolding resumed_def by blast
  let ?si = "startIndex (frame s)"
  let ?s3 = "call P (- 1) (store (?si + 1) (Ty (members ! j))
      (s2\<lparr>frame := (frame s2)\<lparr>distributiveLoop := Some \<lparr>loopTypes = members, loopI = j + 1\<rparr>\<rparr>\<rparr>))"
  have d: "distributeNext (Some P) s2 \<lparr>loopTypes = members, loopI = j\<rparr> = Inr ?s3"
    using j r'(3) by (simp add: distributeNext_def loopNext_def Let_def)
  have f: "program ?s3 + 1 = P" "stackPointer ?s3 = stackPointer s2 + 1"
    "previous ?s3 =
       (frame s)\<lparr>distributiveLoop := Some \<lparr>loopTypes = members, loopI = j + 1\<rparr>\<rparr> # previous s"
    "frame ?s3 = \<lparr>frameIndex = frameIndex (frame s) + 1, startIndex = stackPointer s2 + 1,
       variables = 0, inputs = [], mappedType = None, distributiveLoop = None\<rparr>"
    "stack ?s3 = (stack s2)(?si + 1 := Ty (members ! j), stackPointer s2 + 1 := Prim (PNum pc))"
    using r'(1,2,3) by (simp_all add: call_def push_def store_def pushFrame_def)
  have len: "stackPointer s2 + 1 < int (stackLength ?s3)"
    using r'(5) st by (simp add: call_def push_def store_def pushFrame_def)
  have lo: "?si + 1 < stackPointer s" using st by simp
  have up: "stackPointer s \<le> stackPointer s2 + 1" using r'(5) by simp
  have "entered P pc s members acc j (?s3\<lparr>program := program ?s3 + 1\<rparr>)"
    unfolding entered_def
  proof (intro conjI allI impI)
    show "program (?s3\<lparr>program := program ?s3 + 1\<rparr>) = P" using f(1) by simp
    show "previous (?s3\<lparr>program := program ?s3 + 1\<rparr>) =
        (frame s)\<lparr>distributiveLoop := Some \<lparr>loopTypes = members, loopI = j + 1\<rparr>\<rparr> # previous s"
      using f(3) by simp
    show "frame (?s3\<lparr>program := program ?s3 + 1\<rparr>) =
        \<lparr>frameIndex = frameIndex (frame s) + 1,
         startIndex = stackPointer (?s3\<lparr>program := program ?s3 + 1\<rparr>),
         variables = 0, inputs = [], mappedType = None, distributiveLoop = None\<rparr>"
      using f(2,4) by simp
    show "stack (?s3\<lparr>program := program ?s3 + 1\<rparr>) (?si + 1) = Ty (members ! j)"
      using f(5) lo up by simp
    show "stackPointer (?s3\<lparr>program := program ?s3 + 1\<rparr>) = stackPointer s + int (length acc)"
      using f(2) r'(5) by simp
    show "stack (?s3\<lparr>program := program ?s3 + 1\<rparr>)
        (stackPointer (?s3\<lparr>program := program ?s3 + 1\<rparr>)) = Prim (PNum pc)"
      using f(2,5) by simp
    show "stackPointer (?s3\<lparr>program := program ?s3 + 1\<rparr>) <
        int (stackLength (?s3\<lparr>program := program ?s3 + 1\<rparr>))"
      using f(2) len by simp
  next
    fix k assume "k < stackPointer s" and "k \<noteq> ?si + 1"
    then show "stack (?s3\<lparr>program := program ?s3 + 1\<rparr>) k = stack s k"
      using f(5) up r'(4) by simp
  next
    fix i assume "i < length acc"
    then show "stack (?s3\<lparr>program := program ?s3 + 1\<rparr>) (stackPointer s + int i) = Ty (acc ! i)"
      using f(5) lo r'(5,6) by simp
  qed
  with d show ?thesis by blast
qed

lemma distributeNext_final:
  assumes r: "resumed pc s acc s2" and j: "length members \<le> j"
    and st: "stackPointer s = startIndex (frame s) + int (variables (frame s)) + 1"
      "- 1 \<le> startIndex (frame s)" "previous s = f0 # fs0"
  shows "\<exists>s3. distributeNext sub s2 \<lparr>loopTypes = members, loopI = j\<rparr> = Inr s3 \<and>
     program s3 = pc + 1 \<and> stackPointer s3 = startIndex (frame s) + 1 \<and>
     stack s3 (startIndex (frame s) + 1) = Ty (unionOf acc) \<and> frame s3 = f0 \<and> previous s3 = fs0"
proof -
  from r obtain dl where r': "program s2 = pc + 1" "previous s2 = previous s"
    "frame s2 = (frame s)\<lparr>distributiveLoop := dl\<rparr>"
    "stackPointer s2 + 1 = stackPointer s + int (length acc)"
    "\<forall>i < length acc. stack s2 (stackPointer s + int i) = Ty (acc ! i)"
    "stackPointer s2 < int (stackLength s2)"
    unfolding resumed_def by blast
  let ?si = "startIndex (frame s)" and ?v = "variables (frame s)"
  have a: "previous s2 = f0 # fs0" "startIndex (frame s2) = ?si" "variables (frame s2) = ?v"
    "stackPointer s2 + 1 = ?si + int ?v + 1 + int (length acc)"
    "\<forall>i<length acc. stack s2 (?si + int ?v + 1 + int i) = Ty (acc ! i)"
    using r' st by simp_all
  from distributeNext_end [OF j a(1) a(2) a(3) st(2) a(4) a(5) r'(6), of sub]
  show ?thesis using r'(1) by auto
qed

lemma entered_resumed:
  assumes e: "entered P pc s members acc j z"
    and sub: "computes env ops initialStack P s body"
    and opc: "opAt ops pc = Some n" "opOf env n = Some Op_distribute" "opAt ops (pc + 1) = Some P"
    and st: "stackPointer s = startIndex (frame s) + int (variables (frame s)) + 1"
      "1 \<le> variables (frame s)" "- 1 \<le> startIndex (frame s)"
  shows "\<exists>z' s2. reaches env ops initialStack z z' \<and> program z' = pc \<and>
     step env ops initialStack z' =
       distributeNext (Some P) s2 \<lparr>loopTypes = members, loopI = j + 1\<rparr> \<and>
     resumed pc s (acc @ filter (\<lambda>r. kind r \<noteq> K_never) [body (members ! j)]) s2"
proof -
  let ?l = "\<lparr>loopTypes = members, loopI = j + 1\<rparr>"
  let ?c = "members ! j"
  from e have e': "program z = P"
    "previous z = (frame s)\<lparr>distributiveLoop := Some ?l\<rparr> # previous s"
    "frame z = \<lparr>frameIndex = frameIndex (frame s) + 1, startIndex = stackPointer z,
                 variables = 0, inputs = [], mappedType = None, distributiveLoop = None\<rparr>"
    "stack z (startIndex (frame s) + 1) = Ty ?c"
    "\<forall>k < stackPointer s. k \<noteq> startIndex (frame s) + 1 \<longrightarrow> stack z k = stack s k"
    "stackPointer z = stackPointer s + int (length acc)"
    "\<forall>i < length acc. stack z (stackPointer s + int i) = Ty (acc ! i)"
    "stack z (stackPointer z) = Prim (PNum pc)"
    "stackPointer z < int (stackLength z)"
    unfolding entered_def by blast+
  have pre: "program z = P \<and>
      previous z = (frame s)\<lparr>distributiveLoop := Some ?l\<rparr> # previous s \<and>
      frame z = \<lparr>frameIndex = frameIndex (frame s) + 1, startIndex = stackPointer z,
                 variables = 0, inputs = [], mappedType = None, distributiveLoop = None\<rparr> \<and>
      stack z (startIndex (frame s) + 1) = Ty ?c \<and>
      (\<forall>k < stackPointer s. k \<noteq> startIndex (frame s) + 1 \<longrightarrow> stack z k = stack s k) \<and>
      stack z (stackPointer z) = Prim (PNum pc) \<and>
      stackPointer s \<le> stackPointer z \<and> stackPointer z < int (stackLength z)"
    using e' by simp
  from sub [unfolded computes_def, rule_format, OF pre]
  obtain z' where z': "reaches env ops initialStack z z'" "program z' = pc"
    "frame z' = (frame s)\<lparr>distributiveLoop := Some ?l\<rparr>" "previous z' = previous s"
    "stackPointer z' = stackPointer z" "stack z' (stackPointer z) = Ty (body ?c)"
    "\<forall>k < stackPointer z. stack z' k = stack z k" "stackLength z \<le> stackLength z'"
    by blast
  let ?z1 = "z'\<lparr>program := program z' + 1\<rparr>"
  let ?popped = "?z1\<lparr>stackPointer := stackPointer ?z1 - 1\<rparr>"
  let ?s2 = "if kind (body ?c) = K_never then ?popped else push (Ty (body ?c)) ?popped"
  let ?acc' = "acc @ filter (\<lambda>r. kind r \<noteq> K_never) [body ?c]"
  have sp0: "0 \<le> stackPointer ?z1" using z'(5) e'(6) st by simp
  have en: "distributeEnter ?z1 = Inr (?s2, ?l)"
    using distributeEnter_again [of ?z1 ?l "body ?c"] z' sp0 by simp
  have stp: "step env ops initialStack z' = distributeNext (Some P) ?s2 ?l"
    using step_distribute [of ops z' n env P initialStack] opc z'(2) en by simp
  have "resumed pc s ?acc' ?s2"
    unfolding resumed_def
  proof (intro conjI allI impI)
    show "program ?s2 = pc + 1" using z'(2) by (simp add: push_def store_def)
    show "previous ?s2 = previous s" using z'(4) by (simp add: push_def store_def)
    show "\<exists>dl. frame ?s2 = (frame s)\<lparr>distributiveLoop := dl\<rparr>"
      using z'(3) by (intro exI [of _ "Some ?l"]) (simp add: push_def store_def)
    show "stackPointer ?s2 + 1 = stackPointer s + int (length ?acc')"
      using z'(5) e'(6) by (simp add: push_def store_def)
    show "stackPointer ?s2 < int (stackLength ?s2)"
      using z'(5,8) e'(9) by (simp add: push_def store_def)
  next
    fix k assume k: "k < stackPointer s" "k \<noteq> startIndex (frame s) + 1"
    then have "k < stackPointer z" using e'(6) by simp
    then have "stack ?s2 k = stack z' k" using z'(5) by (simp add: push_def store_def)
    also have "\<dots> = stack z k" using z'(7) \<open>k < stackPointer z\<close> by blast
    also have "\<dots> = stack s k" using e'(5) k by blast
    finally show "stack ?s2 k = stack s k" .
  next
    fix i assume i: "i < length ?acc'"
    show "stack ?s2 (stackPointer s + int i) = Ty (?acc' ! i)"
    proof (cases "i < length acc")
      case True
      then have lt: "stackPointer s + int i < stackPointer z" using e'(6) by simp
      then have "stack ?s2 (stackPointer s + int i) = stack z' (stackPointer s + int i)"
        using z'(5) by (simp add: push_def store_def)
      also have "\<dots> = stack z (stackPointer s + int i)" using z'(7) lt by blast
      finally show ?thesis using e'(7) True by (simp add: nth_append)
    next
      case False
      with i have nn: "kind (body ?c) \<noteq> K_never" and ie: "i = length acc"
        by (auto split: if_splits)
      have "stackPointer s + int i = stackPointer z" using ie e'(6) by simp
      then have "stack ?s2 (stackPointer s + int i) = Ty (body ?c)"
        using nn z'(5) by (simp add: push_def store_def)
      then show ?thesis using nn ie by (simp add: nth_append)
    qed
  qed
  with z'(1,2) stp show ?thesis by blast
qed

lemma distribute_rounds:
  assumes opc: "opAt ops pc = Some n" "opOf env n = Some Op_distribute" "opAt ops (pc + 1) = Some P"
    and sub: "computes env ops initialStack P s body"
    and st: "program s = pc" "distributiveLoop (frame s) = None"
      "stack s (stackPointer s) = Ty T"
      "stackPointer s = startIndex (frame s) + int (variables (frame s)) + 1"
      "1 \<le> variables (frame s)" "- 1 \<le> startIndex (frame s)"
      "stackPointer s < int (stackLength s)"
    and members: "members = (if kind T = K_union then types T else [T])"
  shows "j \<le> length members \<Longrightarrow>
     \<exists>x s2. reaches env ops initialStack s x \<and> program x = pc \<and>
       step env ops initialStack x =
         distributeNext (Some P) s2 \<lparr>loopTypes = members, loopI = j\<rparr> \<and>
       resumed pc s (filter (\<lambda>r. kind r \<noteq> K_never) (map body (take j members))) s2"
proof (induction j)
  case 0
  let ?s2 = "s\<lparr>program := program s + 1, stackPointer := stackPointer s - 1\<rparr>"
  have sp: "0 \<le> stackPointer s" using st by simp
  have en: "distributeEnter (s\<lparr>program := program s + 1\<rparr>) =
      Inr (?s2, \<lparr>loopTypes = members, loopI = 0\<rparr>)"
    using st sp members by (simp add: distributeEnter_def pop_def newLoop_def)
  have stp: "step env ops initialStack s =
      distributeNext (Some P) ?s2 \<lparr>loopTypes = members, loopI = 0\<rparr>"
    using step_distribute [of ops s n env P initialStack] opc st(1) en by simp
  have "frame s = (frame s)\<lparr>distributiveLoop := distributiveLoop (frame s)\<rparr>" by simp
  then have fr: "\<exists>dl. frame ?s2 = (frame s)\<lparr>distributiveLoop := dl\<rparr>"
    by (intro exI [of _ "distributiveLoop (frame s)"]) simp
  have "resumed pc s [] ?s2"
    unfolding resumed_def using st(1,7) fr by simp
  then show ?case
    using reaches_refl [of env ops initialStack s] st(1) stp
    by (intro exI [of _ s] exI [of _ ?s2]) simp
next
  case (Suc j)
  then have j: "j < length members" by simp
  let ?acc = "filter (\<lambda>r. kind r \<noteq> K_never) (map body (take j members))"
  from Suc.IH j obtain x s2 where x: "reaches env ops initialStack s x" "program x = pc"
    "step env ops initialStack x = distributeNext (Some P) s2 \<lparr>loopTypes = members, loopI = j\<rparr>"
    "resumed pc s ?acc s2"
    by auto
  from distributeNext_entered [OF x(4) j st(4,5,6), of P]
  obtain s3 where s3: "distributeNext (Some P) s2 \<lparr>loopTypes = members, loopI = j\<rparr> = Inr s3"
    "entered P pc s members ?acc j (s3\<lparr>program := program s3 + 1\<rparr>)"
    by blast
  have r1: "reaches env ops initialStack x (s3\<lparr>program := program s3 + 1\<rparr>)"
    using reaches_step [of x ops env initialStack s3] x(2,3) s3(1) opAt_less [OF opc(1)] by simp
  from entered_resumed [OF s3(2) sub opc st(4,5,6)]
  obtain z' s2' where z': "reaches env ops initialStack (s3\<lparr>program := program s3 + 1\<rparr>) z'"
    "program z' = pc"
    "step env ops initialStack z' =
       distributeNext (Some P) s2' \<lparr>loopTypes = members, loopI = j + 1\<rparr>"
    "resumed pc s (?acc @ filter (\<lambda>r. kind r \<noteq> K_never) [body (members ! j)]) s2'"
    by blast
  have k: "filter (\<lambda>r. kind r \<noteq> K_never) (map body (take (Suc j) members)) =
      ?acc @ filter (\<lambda>r. kind r \<noteq> K_never) [body (members ! j)]"
    using j by (simp add: take_Suc_conv_app_nth)
  have "reaches env ops initialStack s z'"
    using x(1) r1 z'(1) reaches_trans by blast
  then show ?case
    using z'(2,3,4) k by (intro exI [of _ z'] exI [of _ s2']) simp
qed

text \<open>
  C4. The \<open>distribute\<close> opcode at \<open>pc\<close> with subprogram \<open>P\<close>, entered for the first time
  in the state \<open>s\<close> with the type \<open>T\<close> to distribute over on top of a frame that holds its
  variables and nothing else, where \<open>P\<close> follows the calling convention and computes
  \<open>body c\<close> for the candidate \<open>c\<close> in the context of \<open>s\<close>. The members are those of \<open>T\<close>
  in their order (\<open>T\<close> itself when it is no union), and \<open>kept j\<close> are the results for the
  first \<open>j\<close> members that are not of kind \<open>never\<close>. For every member \<open>j\<close> the loop comes
  to the entry of \<open>P\<close> with that member as the candidate in the first slot of the frame,
  the return address \<open>pc\<close> on top, and below it, from the slot that held \<open>T\<close> on, exactly
  \<open>kept j\<close>: the results of kind \<open>never\<close> are not in the frame. The loop then comes to the
  state after the opcode with the frame popped and the union of all kept results on the
  stack. The union is flattened; when one member remains, it is that member.
\<close>

theorem distribute_union:
  assumes opc: "opAt ops pc = Some n" "opOf env n = Some Op_distribute" "opAt ops (pc + 1) = Some P"
    and sub: "computes env ops initialStack P s body"
    and st: "program s = pc" "distributiveLoop (frame s) = None" "previous s = f0 # fs0"
      "stack s (stackPointer s) = Ty T"
      "stackPointer s = startIndex (frame s) + int (variables (frame s)) + 1"
      "1 \<le> variables (frame s)" "- 1 \<le> startIndex (frame s)"
      "stackPointer s < int (stackLength s)"
    and members: "members = (if kind T = K_union then types T else [T])"
    and kept: "kept = (\<lambda>j. filter (\<lambda>r. kind r \<noteq> K_never) (map body (take j members)))"
  shows "(\<forall>j < length members. \<exists>z. reaches env ops initialStack s z \<and> program z = P \<and>
            stack z (startIndex (frame s) + 1) = Ty (members ! j) \<and>
            stackPointer z = stackPointer s + int (length (kept j)) \<and>
            stack z (stackPointer z) = Prim (PNum pc) \<and>
            (\<forall>i < length (kept j). stack z (stackPointer s + int i) = Ty (kept j ! i))) \<and>
         (\<exists>s'. reaches env ops initialStack s s' \<and>
            program s' = pc + 2 \<and> stackPointer s' = startIndex (frame s) + 1 \<and>
            stack s' (stackPointer s') = Ty (unionOf (kept (length members))) \<and>
            frame s' = f0 \<and> previous s' = fs0) \<and>
         (\<forall>t. flattenUnionTypes (kept (length members)) = [t] \<longrightarrow>
            unionOf (kept (length members)) = t) \<and>
         (length (flattenUnionTypes (kept (length members))) \<noteq> 1 \<longrightarrow>
            unionOf (kept (length members)) =
              setTypes (flattenUnionTypes (kept (length members))) (mk K_union))"
proof -
  note rounds = distribute_rounds [OF opc sub st(1,2) st(4-8) members]
  have calls: "\<forall>j < length members. \<exists>z. reaches env ops initialStack s z \<and> program z = P \<and>
            stack z (startIndex (frame s) + 1) = Ty (members ! j) \<and>
            stackPointer z = stackPointer s + int (length (kept j)) \<and>
            stack z (stackPointer z) = Prim (PNum pc) \<and>
            (\<forall>i < length (kept j). stack z (stackPointer s + int i) = Ty (kept j ! i))"
  proof (intro allI impI)
    fix j assume j: "j < length members"
    then have "j \<le> length members" by simp
    from rounds [OF this] obtain x s2 where x: "reaches env ops initialStack s x" "program x = pc"
      "step env ops initialStack x = distributeNext (Some P) s2 \<lparr>loopTypes = members, loopI = j\<rparr>"
      "resumed pc s (kept j) s2"
      unfolding kept by blast
    from distributeNext_entered [OF x(4) j st(5,6,7), of P]
    obtain s3 where s3: "distributeNext (Some P) s2 \<lparr>loopTypes = members, loopI = j\<rparr> = Inr s3"
      "entered P pc s members (kept j) j (s3\<lparr>program := program s3 + 1\<rparr>)"
      by blast
    have "reaches env ops initialStack x (s3\<lparr>program := program s3 + 1\<rparr>)"
      using reaches_step [of x ops env initialStack s3] x(2,3) s3(1) opAt_less [OF opc(1)] by simp
    then have "reaches env ops initialStack s (s3\<lparr>program := program s3 + 1\<rparr>)"
      using x(1) reaches_trans by blast
    then show "\<exists>z. reaches env ops initialStack s z \<and> program z = P \<and>
            stack z (startIndex (frame s) + 1) = Ty (members ! j) \<and>
            stackPointer z = stackPointer s + int (length (kept j)) \<and>
            stack z (stackPointer z) = Prim (PNum pc) \<and>
            (\<forall>i < length (kept j). stack z (stackPointer s + int i) = Ty (kept j ! i))"
      using s3(2) unfolding entered_def
      by (intro exI [of _ "s3\<lparr>program := program s3 + 1\<rparr>"]) blast
  qed
  from rounds [of "length members"] obtain x s2 where x: "reaches env ops initialStack s x"
    "program x = pc"
    "step env ops initialStack x =
       distributeNext (Some P) s2 \<lparr>loopTypes = members, loopI = length members\<rparr>"
    "resumed pc s (kept (length members)) s2"
    unfolding kept by auto
  from distributeNext_final [OF x(4) order_refl st(5) st(7) st(3), of "Some P"]
  obtain s3 where s3: "distributeNext (Some P) s2 \<lparr>loopTypes = members, loopI = length members\<rparr> = Inr s3"
    "program s3 = pc + 1" "stackPointer s3 = startIndex (frame s) + 1"
    "stack s3 (startIndex (frame s) + 1) = Ty (unionOf (kept (length members)))"
    "frame s3 = f0" "previous s3 = fs0"
    by blast
  have "reaches env ops initialStack x (s3\<lparr>program := program s3 + 1\<rparr>)"
    using reaches_step [of x ops env initialStack s3] x(2,3) s3(1) opAt_less [OF opc(1)] by simp
  then have "reaches env ops initialStack s (s3\<lparr>program := program s3 + 1\<rparr>)"
    using x(1) reaches_trans by blast
  then have fin: "\<exists>s'. reaches env ops initialStack s s' \<and>
            program s' = pc + 2 \<and> stackPointer s' = startIndex (frame s) + 1 \<and>
            stack s' (stackPointer s') = Ty (unionOf (kept (length members))) \<and>
            frame s' = f0 \<and> previous s' = fs0"
    using s3 by (intro exI [of _ "s3\<lparr>program := program s3 + 1\<rparr>"]) simp
  show ?thesis
    using calls fin unionOf_single [of "kept (length members)"]
      unionOf_other [of "kept (length members)"]
    by blast
qed


lemma frame_step:
  assumes "opAt ops (program s) = Some n" and "opOf env n = Some Op_frame"
  shows "\<exists>s1. step env ops initialStack s = Inr s1 \<and> program s1 = program s \<and>
     stackPointer s1 = stackPointer s \<and> stack s1 = stack s \<and>
     frame s1 = \<lparr>frameIndex = frameIndex (frame s) + 1, startIndex = stackPointer s,
       variables = 0, inputs = [], mappedType = None, distributiveLoop = None\<rparr> \<and>
     previous s1 = frame s # previous s \<and> stackLength s \<le> stackLength s1"
  using assms by (simp add: step_def pushFrame_def)

lemma scalar_step:
  assumes "opAt ops (program s) = Some n" and "opOf env n = Some (Op_scalar k)"
    and "- 1 \<le> stackPointer s"
  shows "\<exists>s1. step env ops initialStack s = Inr s1 \<and> program s1 = program s \<and>
     stackPointer s1 = stackPointer s + 1 \<and>
     stack s1 = (stack s)(stackPointer s + 1 := Ty (mk k)) \<and>
     frame s1 = frame s \<and> previous s1 = previous s \<and> stackLength s \<le> stackLength s1"
  using assms by (simp add: step_def pushType_def push_def store_def)

lemma loads_step:
  assumes "opAt ops (program s) = Some n" and "opOf env n = Some Op_loads"
    and "opAt ops (program s + 1) = Some 2" and "opAt ops (program s + 2) = Some k"
    and "previous s = f1 # f # fs"
  shows "\<exists>s1. step env ops initialStack s = Inr s1 \<and> program s1 = program s + 2 \<and>
     stackPointer s1 = stackPointer s + 1 \<and>
     stack s1 = (stack s)(stackPointer s + 1 := stack s (startIndex f + 1 + k)) \<and>
     frame s1 = frame s \<and> previous s1 = previous s \<and> stackLength s \<le> stackLength s1"
  using assms
  by (simp add: step_def op_loads_def eatParameter_def frameUp_def push_def store_def add.assoc)

lemma extends_step:
  assumes "opAt ops (program s) = Some n" and "opOf env n = Some Op_extends"
    and "1 \<le> stackPointer s"
  shows "\<exists>s1. step env ops initialStack s = Inr s1 \<and> program s1 = program s \<and>
     stackPointer s1 = stackPointer s - 1 \<and>
     stack s1 = (stack s)(stackPointer s - 1 :=
       Prim (PBool (isExtendable env (stack s (stackPointer s - 1)) (stack s (stackPointer s))))) \<and>
     frame s1 = frame s \<and> previous s1 = previous s \<and> stackLength s \<le> stackLength s1"
  using assms by (simp add: step_def op_extends_def pop_def push_def store_def)

lemma condition_step:
  assumes "opAt ops (program s) = Some n" and "opOf env n = Some Op_condition"
    and "stackPointer s = t2" and "t2 - 1 = t1" and "t1 - 1 = t" and "2 \<le> t2"
    and "previous s = f # fs" and "- 1 \<le> startIndex (frame s)"
  shows "\<exists>s1. step env ops initialStack s = Inr s1 \<and> program s1 = program s \<and>
     stackPointer s1 = startIndex (frame s) + 1 \<and>
     stack s1 = (stack s)(startIndex (frame s) + 1 :=
       (if truthy (stack s t) then stack s t1 else stack s t2)) \<and>
     frame s1 = f \<and> previous s1 = fs \<and> stackLength s \<le> stackLength s1"
  using assms
  by (simp add: step_def op_condition_def pop_def push_def store_def popFrame_def restoreFrame_def)

lemma wrap_step:
  assumes "opAt ops (program s) = Some n" and "opOf env n = Some (Op_wrap k)"
    and "0 \<le> stackPointer s" and "stack s (stackPointer s) = Ty t"
  shows "\<exists>s1. step env ops initialStack s = Inr s1 \<and> program s1 = program s \<and>
     stackPointer s1 = stackPointer s \<and>
     stack s1 = (stack s)(stackPointer s := Ty (setType t (mk k))) \<and>
     frame s1 = frame s \<and> previous s1 = previous s \<and> stackLength s \<le> stackLength s1"
  using assms
  by (simp add: step_def wrapTop_def pop_def pushType_def push_def store_def)

lemma return_step:
  assumes "opAt ops (program s) = Some n" and "opOf env n = Some Op_return"
    and "0 \<le> stackPointer s" and "previous s = f # fs"
    and "stack s (startIndex (frame s)) = Prim (PNum a)"
  shows "\<exists>s1. step env ops initialStack s = Inr s1 \<and> program s1 = a - 1 \<and>
     stackPointer s1 = startIndex (frame s) \<and>
     stack s1 = (stack s)(startIndex (frame s) := stack s (stackPointer s)) \<and>
     frame s1 = f \<and> previous s1 = fs \<and> stackLength s \<le> stackLength s1"
  using assms
  by (simp add: step_def returnFrame_def pop_def push_def store_def restoreFrame_def Let_def)


lemma example_ops:
  "opAt exampleDistribute 2 = Some 70" "opAt exampleDistribute 3 = Some 67"
  "opAt exampleDistribute 4 = Some 2" "opAt exampleDistribute 5 = Some 0"
  "opAt exampleDistribute 6 = Some 0" "opAt exampleDistribute 7 = Some 61"
  "opAt exampleDistribute 8 = Some 7" "opAt exampleDistribute 9 = Some 67"
  "opAt exampleDistribute 10 = Some 2" "opAt exampleDistribute 11 = Some 0"
  "opAt exampleDistribute 12 = Some 42" "opAt exampleDistribute 13 = Some 58"
  "opAt exampleDistribute 14 = Some 69" "opAt exampleDistribute 22 = Some 57"
  "opAt exampleDistribute 23 = Some 2"
  "opOf exampleEnv 70 = Some Op_frame" "opOf exampleEnv 67 = Some Op_loads"
  "opOf exampleEnv 0 = Some (Op_scalar K_string)" "opOf exampleEnv 61 = Some Op_extends"
  "opOf exampleEnv 7 = Some (Op_scalar K_never)" "opOf exampleEnv 42 = Some (Op_wrap K_array)"
  "opOf exampleEnv 58 = Some Op_condition" "opOf exampleEnv 69 = Some Op_return"
  "opOf exampleEnv 57 = Some Op_distribute"
  "int (length exampleDistribute) = 24"
  by code_simp+

lemma example_extendable: "isExtendable exampleEnv left right = (left = right)"
  by (simp add: exampleEnv_def)

lemma example_state:
  "program exampleState = 22" "distributiveLoop (frame exampleState) = None"
  "previous exampleState = [frame newProcessor]"
  "stack exampleState (stackPointer exampleState) =
     Ty (setTypes [mk K_string, mk K_number, mk K_boolean] (mk K_union))"
  "stackPointer exampleState = 1" "startIndex (frame exampleState) = - 1"
  "variables (frame exampleState) = 1" "stackLength exampleState = 128"
  by (simp_all add: exampleState_def pushType_def push_def store_def bumpVariables_def
      pushFrame_def newProcessor_def)

lemma example_computes:
  "computes exampleEnv exampleDistribute [] 2 exampleState exampleBody"
  unfolding computes_def
proof (intro allI impI, elim conjE)
  fix z :: "Type Processor" and c :: Type and ra :: int and l :: "Type Loop"
  let ?F = "(frame exampleState)\<lparr>distributiveLoop := Some l\<rparr>"
  let ?prev = "previous exampleState"
  let ?p = "stackPointer z"
  let ?ops = exampleDistribute
  assume a: "program z = 2" "previous z = ?F # ?prev"
    "frame z = \<lparr>frameIndex = frameIndex (frame exampleState) + 1, startIndex = stackPointer z,
       variables = 0, inputs = [], mappedType = None, distributiveLoop = None\<rparr>"
    "stack z (startIndex (frame exampleState) + 1) = Ty c"
    "stack z (stackPointer z) = Prim (PNum ra)"
    "stackPointer exampleState \<le> stackPointer z" "stackPointer z < int (stackLength z)"
  have c0: "stack z 0 = Ty c" using a(4) example_state by simp
  have sp: "1 \<le> ?p" using a(6) example_state by simp
  have sF: "startIndex ?F = - 1" using example_state by simp
  note len = example_ops(25)
  define q where "q = (\<lambda>i :: int. ?p + i)"
  have q: "?p + 1 = q 1" "q 1 + 1 = q 2" "q 2 + 1 = q 3" "q 2 - 1 = q 1" "q 3 - 1 = q 2"
    "q 3 - 2 = q 1" "q 1 - 1 = ?p" "q 1 + 2 = q 3"
    by (simp_all add: q_def)
  have qo: "?p < q 1" "q 1 < q 2" "q 2 < q 3"
    by (simp_all add: q_def)
  let ?b = "Prim (PBool (c = mk K_string)) :: Type entry"
  \<comment> \<open>frame\<close>
  have "\<exists>s1. step exampleEnv ?ops [] z = Inr s1 \<and>
      program s1 = 2 \<and>
      stackPointer s1 = ?p \<and>
      startIndex (frame s1) = ?p \<and>
      previous s1 = frame z # ?F # ?prev \<and>
      stackLength z \<le> stackLength s1 \<and>
      (\<forall>k \<le> ?p. stack s1 k = stack z k)"
    using frame_step [of ?ops z 70 exampleEnv "[]"] a example_ops
    by auto
  then obtain s1 where s1: "step exampleEnv ?ops [] z = Inr s1"
    "program s1 = 2"
    "stackPointer s1 = ?p"
    "startIndex (frame s1) = ?p"
    "previous s1 = frame z # ?F # ?prev"
    "stackLength z \<le> stackLength s1"
    "\<forall>k \<le> ?p. stack s1 k = stack z k"
    by blast
  let ?z1 = "s1\<lparr>program := program s1 + 1\<rparr>"
  have r1: "reaches exampleEnv ?ops [] z ?z1"
    using reaches_step [OF _ s1(1)] a(1) len by simp
  \<comment> \<open>loads 2 0\<close>
  have "\<exists>s2. step exampleEnv ?ops [] ?z1 = Inr s2 \<and>
      program s2 = 5 \<and>
      stackPointer s2 = (q 1) \<and>
      startIndex (frame s2) = ?p \<and>
      previous s2 = frame z # ?F # ?prev \<and>
      stackLength z \<le> stackLength s2 \<and>
      (\<forall>k \<le> ?p. stack s2 k = stack z k) \<and>
      stack s2 (q 1) = Ty c"
    using loads_step [of ?ops ?z1 67 exampleEnv 0 "frame z" ?F ?prev "[]"] s1 example_ops sF c0 sp q(1) qo
    by auto
  then obtain s2 where s2: "step exampleEnv ?ops [] ?z1 = Inr s2"
    "program s2 = 5"
    "stackPointer s2 = (q 1)"
    "startIndex (frame s2) = ?p"
    "previous s2 = frame z # ?F # ?prev"
    "stackLength z \<le> stackLength s2"
    "\<forall>k \<le> ?p. stack s2 k = stack z k"
    "stack s2 (q 1) = Ty c"
    by blast
  let ?z2 = "s2\<lparr>program := program s2 + 1\<rparr>"
  have r2: "reaches exampleEnv ?ops [] ?z1 ?z2"
    using reaches_step [OF _ s2(1)] s1(2) len by simp
  \<comment> \<open>string\<close>
  have "\<exists>s3. step exampleEnv ?ops [] ?z2 = Inr s3 \<and>
      program s3 = 6 \<and>
      stackPointer s3 = (q 2) \<and>
      startIndex (frame s3) = ?p \<and>
      previous s3 = frame z # ?F # ?prev \<and>
      stackLength z \<le> stackLength s3 \<and>
      (\<forall>k \<le> ?p. stack s3 k = stack z k) \<and>
      stack s3 (q 1) = Ty c \<and>
      stack s3 (q 2) = Ty (mk K_string)"
    using scalar_step [of ?ops ?z2 0 exampleEnv K_string "[]"] s2 example_ops sp q(2) qo
    by auto
  then obtain s3 where s3: "step exampleEnv ?ops [] ?z2 = Inr s3"
    "program s3 = 6"
    "stackPointer s3 = (q 2)"
    "startIndex (frame s3) = ?p"
    "previous s3 = frame z # ?F # ?prev"
    "stackLength z \<le> stackLength s3"
    "\<forall>k \<le> ?p. stack s3 k = stack z k"
    "stack s3 (q 1) = Ty c"
    "stack s3 (q 2) = Ty (mk K_string)"
    by blast
  let ?z3 = "s3\<lparr>program := program s3 + 1\<rparr>"
  have r3: "reaches exampleEnv ?ops [] ?z2 ?z3"
    using reaches_step [OF _ s3(1)] s2(2) len by simp
  \<comment> \<open>extends\<close>
  have "\<exists>s4. step exampleEnv ?ops [] ?z3 = Inr s4 \<and>
      program s4 = 7 \<and>
      stackPointer s4 = (q 1) \<and>
      startIndex (frame s4) = ?p \<and>
      previous s4 = frame z # ?F # ?prev \<and>
      stackLength z \<le> stackLength s4 \<and>
      (\<forall>k \<le> ?p. stack s4 k = stack z k) \<and>
      stack s4 (q 1) = ?b"
    using extends_step [of ?ops ?z3 61 exampleEnv "[]"] s3 example_ops sp q(4) qo
    by (auto simp: example_extendable)
  then obtain s4 where s4: "step exampleEnv ?ops [] ?z3 = Inr s4"
    "program s4 = 7"
    "stackPointer s4 = (q 1)"
    "startIndex (frame s4) = ?p"
    "previous s4 = frame z # ?F # ?prev"
    "stackLength z \<le> stackLength s4"
    "\<forall>k \<le> ?p. stack s4 k = stack z k"
    "stack s4 (q 1) = ?b"
    by blast
  let ?z4 = "s4\<lparr>program := program s4 + 1\<rparr>"
  have r4: "reaches exampleEnv ?ops [] ?z3 ?z4"
    using reaches_step [OF _ s4(1)] s3(2) len by simp
  \<comment> \<open>never\<close>
  have "\<exists>s5. step exampleEnv ?ops [] ?z4 = Inr s5 \<and>
      program s5 = 8 \<and>
      stackPointer s5 = (q 2) \<and>
      startIndex (frame s5) = ?p \<and>
      previous s5 = frame z # ?F # ?prev \<and>
      stackLength z \<le> stackLength s5 \<and>
      (\<forall>k \<le> ?p. stack s5 k = stack z k) \<and>
      stack s5 (q 1) = ?b \<and>
      stack s5 (q 2) = Ty (mk K_never)"
    using scalar_step [of ?ops ?z4 7 exampleEnv K_never "[]"] s4 example_ops sp q(2) qo
    by auto
  then obtain s5 where s5: "step exampleEnv ?ops [] ?z4 = Inr s5"
    "program s5 = 8"
    "stackPointer s5 = (q 2)"
    "startIndex (frame s5) = ?p"
    "previous s5 = frame z # ?F # ?prev"
    "stackLength z \<le> stackLength s5"
    "\<forall>k \<le> ?p. stack s5 k = stack z k"
    "stack s5 (q 1) = ?b"
    "stack s5 (q 2) = Ty (mk K_never)"
    by blast
  let ?z5 = "s5\<lparr>program := program s5 + 1\<rparr>"
  have r5: "reaches exampleEnv ?ops [] ?z4 ?z5"
    using reaches_step [OF _ s5(1)] s4(2) len by simp
  \<comment> \<open>loads 2 0\<close>
  have "\<exists>s6. step exampleEnv ?ops [] ?z5 = Inr s6 \<and>
      program s6 = 11 \<and>
      stackPointer s6 = (q 3) \<and>
      startIndex (frame s6) = ?p \<and>
      previous s6 = frame z # ?F # ?prev \<and>
      stackLength z \<le> stackLength s6 \<and>
      (\<forall>k \<le> ?p. stack s6 k = stack z k) \<and>
      stack s6 (q 1) = ?b \<and>
      stack s6 (q 2) = Ty (mk K_never) \<and>
      stack s6 (q 3) = Ty c"
    using loads_step [of ?ops ?z5 67 exampleEnv 0 "frame z" ?F ?prev "[]"] s5 example_ops sF c0 sp q(3) qo
    by auto
  then obtain s6 where s6: "step exampleEnv ?ops [] ?z5 = Inr s6"
    "program s6 = 11"
    "stackPointer s6 = (q 3)"
    "startIndex (frame s6) = ?p"
    "previous s6 = frame z # ?F # ?prev"
    "stackLength z \<le> stackLength s6"
    "\<forall>k \<le> ?p. stack s6 k = stack z k"
    "stack s6 (q 1) = ?b"
    "stack s6 (q 2) = Ty (mk K_never)"
    "stack s6 (q 3) = Ty c"
    by blast
  let ?z6 = "s6\<lparr>program := program s6 + 1\<rparr>"
  have r6: "reaches exampleEnv ?ops [] ?z5 ?z6"
    using reaches_step [OF _ s6(1)] s5(2) len by simp
  \<comment> \<open>array\<close>
  have "\<exists>s7. step exampleEnv ?ops [] ?z6 = Inr s7 \<and>
      program s7 = 12 \<and>
      stackPointer s7 = (q 3) \<and>
      startIndex (frame s7) = ?p \<and>
      previous s7 = frame z # ?F # ?prev \<and>
      stackLength z \<le> stackLength s7 \<and>
      (\<forall>k \<le> ?p. stack s7 k = stack z k) \<and>
      stack s7 (q 1) = ?b \<and>
      stack s7 (q 2) = Ty (mk K_never) \<and>
      stack s7 (q 3) = Ty (setType c (mk K_array))"
    using wrap_step [of ?ops ?z6 42 exampleEnv K_array c "[]"] s6 example_ops sp qo
    by auto
  then obtain s7 where s7: "step exampleEnv ?ops [] ?z6 = Inr s7"
    "program s7 = 12"
    "stackPointer s7 = (q 3)"
    "startIndex (frame s7) = ?p"
    "previous s7 = frame z # ?F # ?prev"
    "stackLength z \<le> stackLength s7"
    "\<forall>k \<le> ?p. stack s7 k = stack z k"
    "stack s7 (q 1) = ?b"
    "stack s7 (q 2) = Ty (mk K_never)"
    "stack s7 (q 3) = Ty (setType c (mk K_array))"
    by blast
  let ?z7 = "s7\<lparr>program := program s7 + 1\<rparr>"
  have r7: "reaches exampleEnv ?ops [] ?z6 ?z7"
    using reaches_step [OF _ s7(1)] s6(2) len by simp
  \<comment> \<open>condition\<close>
  have "\<exists>s8. step exampleEnv ?ops [] ?z7 = Inr s8 \<and>
      program s8 = 13 \<and>
      stackPointer s8 = (q 1) \<and>
      frame s8 = frame z \<and>
      previous s8 = ?F # ?prev \<and>
      stackLength z \<le> stackLength s8 \<and>
      (\<forall>k \<le> ?p. stack s8 k = stack z k) \<and>
      stack s8 (q 1) = Ty (exampleBody c)"
    using condition_step [where ops = ?ops and s = ?z7 and n = 58 and env = exampleEnv
        and f = "frame z" and fs = "?F # ?prev" and initialStack = "[]", OF _ _ _ q(5) q(4)]
      s7 example_ops sp q(1) qo
    by (auto simp: exampleBody_def)
  then obtain s8 where s8: "step exampleEnv ?ops [] ?z7 = Inr s8"
    "program s8 = 13"
    "stackPointer s8 = (q 1)"
    "frame s8 = frame z"
    "previous s8 = ?F # ?prev"
    "stackLength z \<le> stackLength s8"
    "\<forall>k \<le> ?p. stack s8 k = stack z k"
    "stack s8 (q 1) = Ty (exampleBody c)"
    by blast
  let ?z8 = "s8\<lparr>program := program s8 + 1\<rparr>"
  have r8: "reaches exampleEnv ?ops [] ?z7 ?z8"
    using reaches_step [OF _ s8(1)] s7(2) len by simp
  \<comment> \<open>return\<close>
  have "\<exists>s9. step exampleEnv ?ops [] ?z8 = Inr s9 \<and>
      program s9 = ra - 1 \<and>
      stackPointer s9 = ?p \<and>
      stack s9 ?p = Ty (exampleBody c) \<and>
      (\<forall>k < ?p. stack s9 k = stack z k) \<and>
      frame s9 = ?F \<and>
      previous s9 = ?prev \<and>
      stackLength z \<le> stackLength s9"
    using return_step [of ?ops ?z8 69 exampleEnv ?F ?prev ra "[]"] s8 a(3,5) example_ops sp qo
    by auto
  then obtain s9 where s9: "step exampleEnv ?ops [] ?z8 = Inr s9"
    "program s9 = ra - 1"
    "stackPointer s9 = ?p"
    "stack s9 ?p = Ty (exampleBody c)"
    "\<forall>k < ?p. stack s9 k = stack z k"
    "frame s9 = ?F"
    "previous s9 = ?prev"
    "stackLength z \<le> stackLength s9"
    by blast
  let ?z9 = "s9\<lparr>program := program s9 + 1\<rparr>"
  have r9: "reaches exampleEnv ?ops [] ?z8 ?z9"
    using reaches_step [OF _ s9(1)] s8(2) len by simp
  have "reaches exampleEnv ?ops [] z ?z9"
    by (intro reaches_trans [OF r1] reaches_trans [OF r2] reaches_trans [OF r3]
        reaches_trans [OF r4] reaches_trans [OF r5] reaches_trans [OF r6]
        reaches_trans [OF r7] reaches_trans [OF r8] r9)
  then show "\<exists>z'. reaches exampleEnv exampleDistribute [] z z' \<and>
              program z' = ra \<and> frame z' = ?F \<and> previous z' = previous exampleState \<and>
              stackPointer z' = stackPointer z \<and>
              stack z' (stackPointer z) = Ty (exampleBody c) \<and>
              (\<forall>k < stackPointer z. stack z' k = stack z k) \<and>
              stackLength z \<le> stackLength z'"
    using s9 by (intro exI [of _ ?z9]) simp
qed


theorem distribute_union_witness:
  "(\<exists>z. reaches exampleEnv exampleDistribute [] exampleState z \<and> program z = 2 \<and>
        stack z 0 = Ty (mk K_number) \<and> stackPointer z = 1 \<and> stack z 1 = Prim (PNum 22)) \<and>
   (\<exists>z. reaches exampleEnv exampleDistribute [] exampleState z \<and> program z = 2 \<and>
        stack z 0 = Ty (mk K_boolean) \<and> stackPointer z = 2 \<and> stack z 2 = Prim (PNum 22) \<and>
        stack z 1 = Ty (setType (mk K_number) (mk K_array))) \<and>
   (\<exists>s'. reaches exampleEnv exampleDistribute [] exampleState s' \<and>
        program s' = 24 \<and> stackPointer s' = 0 \<and>
        stack s' 0 = Ty (setTypes [setType (mk K_number) (mk K_array),
                                   setType (mk K_boolean) (mk K_array)] (mk K_union)) \<and>
        frame s' = frame newProcessor \<and> previous s' = [])"
proof -
  let ?T = "setTypes [mk K_string, mk K_number, mk K_boolean] (mk K_union)"
  let ?members = "[mk K_string, mk K_number, mk K_boolean]"
  have m: "?members = (if kind ?T = K_union then types ?T else [?T])"
    by (simp add: mk_def)
  have p: "opAt exampleDistribute (22 + 1) = Some 2" using example_ops(15) by simp
  have st: "stackPointer exampleState =
       startIndex (frame exampleState) + int (variables (frame exampleState)) + 1"
    "1 \<le> variables (frame exampleState)" "- 1 \<le> startIndex (frame exampleState)"
    "stackPointer exampleState < int (stackLength exampleState)"
    using example_state by simp_all
  have b: "exampleBody (mk K_string) = mk K_never"
    "exampleBody (mk K_number) = setType (mk K_number) (mk K_array)"
    "exampleBody (mk K_boolean) = setType (mk K_boolean) (mk K_array)"
    "kind (mk K_never) = K_never" "kind (setType (mk K_number) (mk K_array)) = K_array"
    "kind (setType (mk K_boolean) (mk K_array)) = K_array"
    by (simp_all add: exampleBody_def mk_def)
  have u: "unionOf [setType (mk K_number) (mk K_array), setType (mk K_boolean) (mk K_array)] =
      setTypes [setType (mk K_number) (mk K_array), setType (mk K_boolean) (mk K_array)] (mk K_union)"
    by (simp add: unionOf_def unboxUnion_def mk_def)
  note d = distribute_union [OF example_ops(14) example_ops(24) p example_computes
      example_state(1,2,3,4) st m refl]
  have j1: "(1 :: nat) < length ?members" and j2: "(2 :: nat) < length ?members" by simp_all
  have c1: "\<exists>z. reaches exampleEnv exampleDistribute [] exampleState z \<and> program z = 2 \<and>
        stack z 0 = Ty (mk K_number) \<and> stackPointer z = 1 \<and> stack z 1 = Prim (PNum 22)"
    using d [THEN conjunct1, rule_format, OF j1] example_state(5,6) b by auto
  have c2: "\<exists>z. reaches exampleEnv exampleDistribute [] exampleState z \<and> program z = 2 \<and>
        stack z 0 = Ty (mk K_boolean) \<and> stackPointer z = 2 \<and> stack z 2 = Prim (PNum 22) \<and>
        stack z 1 = Ty (setType (mk K_number) (mk K_array))"
    using d [THEN conjunct1, rule_format, OF j2] example_state(5,6) b by auto
  have c3: "\<exists>s'. reaches exampleEnv exampleDistribute [] exampleState s' \<and>
        program s' = 24 \<and> stackPointer s' = 0 \<and>
        stack s' 0 = Ty (setTypes [setType (mk K_number) (mk K_array),
                                   setType (mk K_boolean) (mk K_array)] (mk K_union)) \<and>
        frame s' = frame newProcessor \<and> previous s' = []"
    using d [THEN conjunct2, THEN conjunct1] example_state(5,6) b u by auto
  show ?thesis using c1 c2 c3 by blast
qed

text \<open>The run of the example program comes to the \<open>distribute\<close> opcode in eight
  iterations, in a state that is \<open>exampleState\<close> in what the opcode reads.\<close>

lemma distribute_example_start:
  "(case loopIterations 8 exampleEnv exampleDistribute [] (initial [] []) of
      None \<Rightarrow> False
    | Some s \<Rightarrow> program s = program exampleState \<and> stackPointer s = stackPointer exampleState \<and>
        frame s = frame exampleState \<and> previous s = previous exampleState \<and>
        stack s 0 = stack exampleState 0 \<and> stack s 1 = stack exampleState 1 \<and>
        stackLength s = stackLength exampleState)"
  by code_simp

section \<open>Self-reference and the result anchor\<close>

text \<open>
  The run of a program keeps the three fields of the processor that are not part of the
  machine state, and an opcode that does not evaluate another program changes the core only.
\<close>

lemma andThen_eq_Inr: "(andThen x f = Inr y) = (\<exists>a. x = Inr a \<and> f a = Inr y)"
  by (cases x) auto

lemma withCore_Inr: "withCore m r = Inr (w1, m1) \<Longrightarrow> \<exists>c. r = Inr (w1, c) \<and> m1 = m\<lparr>core := c\<rparr>"
  by (auto simp: withCore_def split: sum.splits)

lemma storeOp_core:
  assumes "storeOp fuel env objects pl w m = Some (Inr (w1, m1))"
  shows "\<exists>c. m1 = m\<lparr>core := c\<rparr>"
proof (cases pl)
  case (Done r)
  with assms show ?thesis using withCore_Inr [of m r w1 m1] by auto
next
  case (Resolve p c1)
  with assms show ?thesis by (auto split: option.splits sum.splits)
next
  case (Run h ops initialStack callInputs c3)
  with assms show ?thesis by (auto split: option.splits sum.splits)
qed

lemma storeRun_fields:
  "storeRun fuel env objects ops initialStack initialInputs w m = Some (Inr (w', m')) \<Longrightarrow>
   resultType m' = resultType m \<and> forType m' = forType m \<and> registry m' = registry m"
proof (induction fuel arbitrary: w m)
  case 0
  then show ?case by simp
next
  case (Suc fuel)
  show ?case
  proof (cases "program (core m) < int (length ops)")
    case False
    with Suc.prems show ?thesis by simp
  next
    case True
    show ?thesis
    proof (cases "fetch env ops m")
      case None
      with True Suc.prems have
        "storeRun fuel env objects ops initialStack initialInputs w (advance m) = Some (Inr (w', m'))"
        by simp
      from Suc.IH [OF this] show ?thesis by (simp add: advance_def onCore_def)
    next
      case (Some op)
      let ?r = "storeOp fuel env objects (planOp objects ops initialStack initialInputs op w m) w m"
      from True Some Suc.prems obtain w1 m1 where r: "?r = Some (Inr (w1, m1))"
        and rest: "storeRun fuel env objects ops initialStack initialInputs w1 (advance m1) =
          Some (Inr (w', m'))"
        by (auto split: option.splits sum.splits)
      from storeOp_core [OF r] obtain c where "m1 = m\<lparr>core := c\<rparr>" by blast
      with Suc.IH [OF rest] show ?thesis by (simp add: advance_def onCore_def)
    qed
  qed
qed

lemma planInline_sentinel:
  assumes "isNumber (poolAt initialStack (opAt ops (program (core m) + 1)))"
  shows "planOp objects ops initialStack initialInputs Op_inline w m =
     Done (Inr (w, push (Ty (resultType m)) ((core m)\<lparr>program := program (core m) + 1\<rparr>)))"
  using assms
  by (cases "poolAt initialStack (opAt ops (program (core m) + 1))")
     (simp_all add: planOp_def planInline_def eatParameter_def callIfFunction_def)

lemma planInlineCall_sentinel:
  assumes "isNumber (poolAt initialStack (opAt ops (program (core m) + 1)))"
    and "opAt ops (program (core m) + 2) = Some 0"
  shows "planOp objects ops initialStack initialInputs Op_inlineCall w m =
     Done (Inr (w, push (Ty (resultType m)) ((core m)\<lparr>program := program (core m) + 2\<rparr>)))"
  using assms
  by (cases "poolAt initialStack (opAt ops (program (core m) + 1))")
     (simp_all add: planOp_def planInlineCall_def eatParameter_def callIfFunction_def add.assoc)

lemma popFrame_program: "popFrame c = (entries, c1) \<Longrightarrow> program c1 = program c"
  by (auto simp: popFrame_def restoreFrame_def split: list.splits)

lemma push_top: "stack (push e c) (stackPointer (push e c)) = e \<and> program (push e c) = program c"
  by (simp add: push_def store_def)

lemma storeObjectLiteral_last:
  assumes "storeObjectLiteral ops anchor w c = Inr (w1, c1)" and "program c + 1 = int (length ops)"
  shows "stack c1 (stackPointer c1) = Ty anchor \<and> program c1 = program c \<and>
     (anchor < length (heap w) \<longrightarrow> kindAt w1 anchor = Some K_objectLiteral)"
proof -
  obtain entries c0 where pf: "popFrame c = (entries, c0)" by (cases "popFrame c")
  then have pr: "program c0 = program c" by (rule popFrame_program)
  from assms(1) pf obtain types where ty: "asTypes entries = Inr types"
    by (cases "asTypes entries") (auto simp: storeObjectLiteral_def)
  from assms pf ty pr have
    w1: "w1 = assign anchor (\<lambda>node. node\<lparr>nodeKind := K_objectLiteral, nodeTypes := types\<rparr>) w"
    and c1: "c1 = push (Ty anchor) c0"
    by (simp_all add: storeObjectLiteral_def)
  show ?thesis
    using w1 c1 pr push_top [of "Ty anchor" c0]
    by (simp add: kindAt_def nodeAt_def assign_def)
qed

lemma storePromoted_heap: "storePromoted ps w = (as, w1) \<Longrightarrow> length (heap w) \<le> length (heap w1)"
proof (induction ps arbitrary: w as w1)
  case Nil then show ?case by simp
next
  case (Cons p ps)
  show ?case
  proof (cases "nodeAt w p")
    case None
    with Cons show ?thesis by simp
  next
    case (Some node)
    show ?thesis
    proof (cases "visibility (nodeAttrs node) \<noteq> None")
      case False
      with Some Cons show ?thesis by simp
    next
      case True
      with Some Cons.prems obtain a w0 rest where
        al: "alloc \<lparr>nodeKind = K_property,
                    nodeAttrs = noAttrs\<lparr>name := name (nodeAttrs node),
                      visibility := visibility (nodeAttrs node),
                      optional := optional (nodeAttrs node),
                      readonly := readonly (nodeAttrs node)\<rparr>,
                    nodeTypes = [], nodeType = nodeType node, nodeParameters = [],
                    nodeArguments = None\<rparr> w = (a, w0)"
        and re: "storePromoted ps w0 = (rest, w1)"
        by (auto split: prod.splits)
      from al have "length (heap w) \<le> length (heap w0)" by (auto simp: alloc_def)
      with Cons.IH [OF re] show ?thesis by simp
    qed
  qed
qed

lemma storeConstructor_heap:
  "storeConstructor ms w = (as, w1) \<Longrightarrow> length (heap w) \<le> length (heap w1)"
proof (induction ms arbitrary: w as w1)
  case Nil then show ?case by simp
next
  case (Cons member ms)
  then show ?case
    by (cases "nodeAt w member") (auto dest: storePromoted_heap split: if_splits)
qed

lemma storeClass_last:
  assumes "storeClass ops anchor w c = Inr (w1, c1)" and "program c + 1 = int (length ops)"
  shows "stack c1 (stackPointer c1) = Ty anchor \<and> program c1 = program c \<and>
     (anchor < length (heap w) \<longrightarrow> kindAt w1 anchor = Some K_class)"
proof -
  obtain entries c0 where pf: "popFrame c = (entries, c0)" by (cases "popFrame c")
  then have pr: "program c0 = program c" by (rule popFrame_program)
  from assms(1) pf obtain members where m: "asTypes entries = Inr members"
    by (cases "asTypes entries") (auto simp: storeClass_def)
  obtain promotedProperties w0 where sc: "storeConstructor members w = (promotedProperties, w0)"
    by (cases "storeConstructor members w")
  from assms(1) pf m sc obtain args where ar: "asTypes (filter isType (inputs (frame c0))) = Inr args"
    by (cases "asTypes (filter isType (inputs (frame c0)))") (auto simp: storeClass_def)
  from assms pf m sc ar pr have
    w1: "w1 = assign anchor
                       (\<lambda>node. (if args \<noteq> [] then (node\<lparr>nodeKind := K_class,
                          nodeAttrs := (nodeAttrs node)\<lparr>classType := C_Object\<rparr>,
                          nodeTypes := members @ promotedProperties\<rparr>)\<lparr>nodeArguments := Some args\<rparr>
                          else node\<lparr>nodeKind := K_class,
                          nodeAttrs := (nodeAttrs node)\<lparr>classType := C_Object\<rparr>,
                          nodeTypes := members @ promotedProperties\<rparr>)) w0"
    and c1: "c1 = push (Ty anchor) c0"
    by (simp_all add: storeClass_def Let_def)
  from storeConstructor_heap [OF sc] have le: "length (heap w) \<le> length (heap w0)" .
  show ?thesis
    using w1 c1 pr le push_top [of "Ty anchor" c0]
    by (auto simp: kindAt_def nodeAt_def assign_def)
qed

lemma storeStep_last:
  assumes "op = Op_objectLiteral \<or> op = Op_class"
    and "storeStep op ops initialStack anchor w c = Inr (w1, c1)"
    and "program c + 1 = int (length ops)"
  shows "stack c1 (stackPointer c1) = Ty anchor \<and> program c1 = program c \<and>
     (anchor < length (heap w) \<longrightarrow>
        kindAt w1 anchor = Some (if op = Op_class then K_class else K_objectLiteral))"
  using assms storeObjectLiteral_last [of ops anchor w c w1 c1]
    storeClass_last [of ops anchor w c w1 c1]
  by auto

lemma planOp_simple:
  "op \<noteq> Op_inline \<Longrightarrow> op \<noteq> Op_inlineCall \<Longrightarrow>
   planOp objects ops initialStack initialInputs op w m =
     Done (storeStep op ops initialStack (resultType m) w (core m))"
  by (simp add: planOp_def)

lemma endsOnAnchorD:
  "endsOnAnchor r \<Longrightarrow> \<exists>w2 m2. r = Some (Inr (w2, m2)) \<and>
     stack (core m2) (stackPointer (core m2)) = Ty (resultType m2)"
  by (auto simp: endsOnAnchor_def split: option.splits sum.splits)

text \<open>
  C1, as the code has it. A processor is created with a result anchor, a node of kind
  \<open>any\<close>. (1) \<open>inline\<close> whose pool entry is the numeric sentinel pushes the anchor in
  one step, whatever the fuel, and leaves the world as it is: no program is evaluated.
  (2) \<open>inlineCall\<close> with the sentinel and zero arguments does the same. (3) A run never
  changes the anchor of its processor. (4) When \<open>class\<close> or \<open>objectLiteral\<close> is the last
  opcode of the program, the run ends after it with the anchor on top of the stack, and the
  anchor, when it is a node of the heap, has taken the kind of the type built. (5) When the
  run of the program of an object ends with the anchor on top, \<open>resolveRuntimeType\<close>
  returns the anchor of the processor it created. (6) When \<open>resolveRuntimeType\<close> is given
  a registry in which the object has a processor running, it returns the anchor of that
  processor at once and starts no run.
\<close>

theorem anchor_self_reference:
  "(isNumber (poolAt initialStack (opAt ops (program (core m) + 1))) \<longrightarrow>
      storeOp fuel env objects (planOp objects ops initialStack initialInputs Op_inline w m) w m =
        Some (Inr (w, m\<lparr>core := push (Ty (resultType m))
                               ((core m)\<lparr>program := program (core m) + 1\<rparr>)\<rparr>))) \<and>
   (isNumber (poolAt initialStack (opAt ops (program (core m) + 1))) \<and>
    opAt ops (program (core m) + 2) = Some 0 \<longrightarrow>
      storeOp fuel env objects (planOp objects ops initialStack initialInputs Op_inlineCall w m) w m =
        Some (Inr (w, m\<lparr>core := push (Ty (resultType m))
                               ((core m)\<lparr>program := program (core m) + 2\<rparr>)\<rparr>))) \<and>
   (storeRun fuel env objects ops initialStack initialInputs w m = Some (Inr (w', m')) \<longrightarrow>
      resultType m' = resultType m) \<and>
   ((op = Op_objectLiteral \<or> op = Op_class) \<and> fetch env ops m = Some op \<and>
    program (core m) + 1 = int (length ops) \<and>
    storeStep op ops initialStack (resultType m) w (core m) = Inr (w1, c1) \<longrightarrow>
      storeRun (Suc (Suc fuel)) env objects ops initialStack initialInputs w m =
        Some (Inr (w1, advance (m\<lparr>core := c1\<rparr>))) \<and>
      stack c1 (stackPointer c1) = Ty (resultType m) \<and>
      (resultType m < length (heap w) \<longrightarrow>
         kindAt w1 (resultType m) = Some (if op = Op_class then K_class else K_objectLiteral))) \<and>
   (resolveStart objects w0 p reg = Inr (h, pack) \<and>
    storeRun fuel env objects (packOps (unpack pack)) (packStack (unpack pack)) args
      (setRegistry reg h (Some (resultType (fst (newStoreProcessor h reg w0))))
         (snd (newStoreProcessor h reg w0)))
      (onCore (beginRun (packStack (unpack pack)) args) (fst (newStoreProcessor h reg w0))) =
      Some (Inr (w2, m2)) \<and>
    stack (core m2) (stackPointer (core m2)) = Ty (resultType m2) \<longrightarrow>
      returned (resolveRuntimeType (Suc fuel) env objects w0 p args reg) =
        Some (resultType (fst (newStoreProcessor h reg w0)))) \<and>
   (packOf objects p = Inr (h, pack) \<and> typeCache w h = None \<and>
    registered w (Some g) h = Some r \<longrightarrow>
      resolveRuntimeType (Suc fuel) env objects w p args (Some g) = Some (Inr (r, w)))"
proof -
  have A: "isNumber (poolAt initialStack (opAt ops (program (core m) + 1))) \<longrightarrow>
      storeOp fuel env objects (planOp objects ops initialStack initialInputs Op_inline w m) w m =
        Some (Inr (w, m\<lparr>core := push (Ty (resultType m))
                               ((core m)\<lparr>program := program (core m) + 1\<rparr>)\<rparr>))"
    by (simp add: planInline_sentinel withCore_def)
  have B: "isNumber (poolAt initialStack (opAt ops (program (core m) + 1))) \<and>
    opAt ops (program (core m) + 2) = Some 0 \<longrightarrow>
      storeOp fuel env objects (planOp objects ops initialStack initialInputs Op_inlineCall w m) w m =
        Some (Inr (w, m\<lparr>core := push (Ty (resultType m))
                               ((core m)\<lparr>program := program (core m) + 2\<rparr>)\<rparr>))"
    by (simp add: planInlineCall_sentinel withCore_def)
  have F: "storeRun fuel env objects ops initialStack initialInputs w m = Some (Inr (w', m')) \<longrightarrow>
      resultType m' = resultType m"
    using storeRun_fields by blast
  have C: "(op = Op_objectLiteral \<or> op = Op_class) \<and> fetch env ops m = Some op \<and>
    program (core m) + 1 = int (length ops) \<and>
    storeStep op ops initialStack (resultType m) w (core m) = Inr (w1, c1) \<longrightarrow>
      storeRun (Suc (Suc fuel)) env objects ops initialStack initialInputs w m =
        Some (Inr (w1, advance (m\<lparr>core := c1\<rparr>))) \<and>
      stack c1 (stackPointer c1) = Ty (resultType m) \<and>
      (resultType m < length (heap w) \<longrightarrow>
         kindAt w1 (resultType m) = Some (if op = Op_class then K_class else K_objectLiteral))"
  proof
    assume a: "(op = Op_objectLiteral \<or> op = Op_class) \<and> fetch env ops m = Some op \<and>
      program (core m) + 1 = int (length ops) \<and>
      storeStep op ops initialStack (resultType m) w (core m) = Inr (w1, c1)"
    then have l: "stack c1 (stackPointer c1) = Ty (resultType m) \<and> program c1 = program (core m) \<and>
       (resultType m < length (heap w) \<longrightarrow>
          kindAt w1 (resultType m) = Some (if op = Op_class then K_class else K_objectLiteral))"
      using storeStep_last [of op ops initialStack "resultType m" w "core m" w1 c1] by blast
    have pl: "planOp objects ops initialStack initialInputs op w m =
        Done (storeStep op ops initialStack (resultType m) w (core m))"
      using a by (intro planOp_simple) auto
    have so: "storeOp (Suc fuel) env objects (planOp objects ops initialStack initialInputs op w m) w m =
        Some (Inr (w1, m\<lparr>core := c1\<rparr>))"
      using a pl by (simp add: withCore_def)
    have en: "\<not> program (core (advance (m\<lparr>core := c1\<rparr>))) < int (length ops)"
      using a l by (simp add: advance_def onCore_def)
    have "storeRun (Suc (Suc fuel)) env objects ops initialStack initialInputs w m =
        storeRun (Suc fuel) env objects ops initialStack initialInputs w1 (advance (m\<lparr>core := c1\<rparr>))"
      using a so by simp
    also have "\<dots> = Some (Inr (w1, advance (m\<lparr>core := c1\<rparr>)))"
      using en by simp
    finally have "storeRun (Suc (Suc fuel)) env objects ops initialStack initialInputs w m =
          Some (Inr (w1, advance (m\<lparr>core := c1\<rparr>)))" .
    with l show "storeRun (Suc (Suc fuel)) env objects ops initialStack initialInputs w m =
        Some (Inr (w1, advance (m\<lparr>core := c1\<rparr>))) \<and>
      stack c1 (stackPointer c1) = Ty (resultType m) \<and>
      (resultType m < length (heap w) \<longrightarrow>
         kindAt w1 (resultType m) = Some (if op = Op_class then K_class else K_objectLiteral))"
      by blast
  qed
  have D: "resolveStart objects w0 p reg = Inr (h, pack) \<and>
    storeRun fuel env objects (packOps (unpack pack)) (packStack (unpack pack)) args
      (setRegistry reg h (Some (resultType (fst (newStoreProcessor h reg w0))))
         (snd (newStoreProcessor h reg w0)))
      (onCore (beginRun (packStack (unpack pack)) args) (fst (newStoreProcessor h reg w0))) =
      Some (Inr (w2, m2)) \<and>
    stack (core m2) (stackPointer (core m2)) = Ty (resultType m2) \<longrightarrow>
      returned (resolveRuntimeType (Suc fuel) env objects w0 p args reg) =
        Some (resultType (fst (newStoreProcessor h reg w0)))"
  proof
    assume a: "resolveStart objects w0 p reg = Inr (h, pack) \<and>
      storeRun fuel env objects (packOps (unpack pack)) (packStack (unpack pack)) args
        (setRegistry reg h (Some (resultType (fst (newStoreProcessor h reg w0))))
           (snd (newStoreProcessor h reg w0)))
        (onCore (beginRun (packStack (unpack pack)) args) (fst (newStoreProcessor h reg w0))) =
        Some (Inr (w2, m2)) \<and>
      stack (core m2) (stackPointer (core m2)) = Ty (resultType m2)"
    then have "resultType m2 =
        resultType (onCore (beginRun (packStack (unpack pack)) args) (fst (newStoreProcessor h reg w0)))"
      using storeRun_fields by blast
    then have "resultType m2 = resultType (fst (newStoreProcessor h reg w0))"
      by (simp add: onCore_def)
    with a show "returned (resolveRuntimeType (Suc fuel) env objects w0 p args reg) =
          Some (resultType (fst (newStoreProcessor h reg w0)))"
      by (simp add: returned_def finishResolve_def narrowOriginalLiteral_def)
  qed
  have E: "packOf objects p = Inr (h, pack) \<and> typeCache w h = None \<and>
    registered w (Some g) h = Some r \<longrightarrow>
      resolveRuntimeType (Suc fuel) env objects w p args (Some g) = Some (Inr (r, w))"
    by (simp add: resolveStart_def)
  show ?thesis
    by (intro conjI A B F C D E)
qed

theorem anchor_self_reference_witness:
  "returned (resolveRuntimeType 10 exampleEnv exampleObjects emptyWorld (PObj 1) [] None) = Some 1 \<and>
   resolveRuntimeType 1 exampleEnv exampleObjects
     (emptyWorld\<lparr>registries := [(\<lambda>h. None)(1 := Some 5)]\<rparr>) (PObj 1) [] (Some 0) =
     Some (Inr (5, emptyWorld\<lparr>registries := [(\<lambda>h. None)(1 := Some 5)]\<rparr>))"
proof -
  let ?p = "fst (newStoreProcessor 1 None emptyWorld)"
  let ?w = "snd (newStoreProcessor 1 None emptyWorld)"
  let ?r = "storeRun 9 exampleEnv exampleObjects (packOps (unpack treePack))
      (packStack (unpack treePack)) []
      (setRegistry None 1 (Some (resultType ?p)) ?w)
      (onCore (beginRun (packStack (unpack treePack)) []) ?p)"
  have rs: "resolveStart exampleObjects emptyWorld (PObj 1) None = Inr (1, treePack)"
    by (simp add: resolveStart_def packOf_def exampleObjects_def emptyWorld_def registered_def
        treePack_def)
  have "endsOnAnchor ?r" by code_simp
  then obtain w2 m2 where run: "?r = Some (Inr (w2, m2))"
    and top: "stack (core m2) (stackPointer (core m2)) = Ty (resultType m2)"
    using endsOnAnchorD by blast
  have an: "resultType ?p = 1"
    by (simp add: newStoreProcessor_def alloc_def emptyWorld_def)
  have d: "returned (resolveRuntimeType (Suc 9) exampleEnv exampleObjects emptyWorld (PObj 1) [] None) =
      Some (resultType ?p)"
    using anchor_self_reference [where objects = exampleObjects and ?w0.0 = emptyWorld
        and p = "PObj 1" and reg = None and h = 1 and pack = treePack and fuel = 9
        and env = exampleEnv and args = "[]" and ?w2.0 = w2 and ?m2.0 = m2]
      rs run top by blast
  let ?reg = "emptyWorld\<lparr>registries := [(\<lambda>h. None)(1 := Some 5)]\<rparr>"
  have e1: "packOf exampleObjects (PObj 1) = Inr (1, treePack)"
    by (simp add: packOf_def exampleObjects_def treePack_def)
  have e2: "typeCache ?reg 1 = None" by (simp add: emptyWorld_def)
  have e3: "registered ?reg (Some 0) 1 = Some 5" by (simp add: registered_def)
  have e: "resolveRuntimeType (Suc 0) exampleEnv exampleObjects ?reg (PObj 1) [] (Some 0) =
      Some (Inr (5, ?reg))"
    using anchor_self_reference [where objects = exampleObjects and p = "PObj 1" and h = 1
        and pack = treePack and w = ?reg and g = 0 and r = 5 and fuel = 0 and env = exampleEnv
        and args = "[]"] e1 e2 e3
    by blast
  have n: "(10 :: nat) = Suc 9" by simp
  show ?thesis using d e an unfolding n by simp
qed

text \<open>
  The interface of object 1 of the examples: the node returned is the anchor 1, an object
  literal whose only member 3 has the array 2 as type, and the element of the array is the
  node 1 again.
\<close>

lemma tree_example:
  "returned (resolvePacked 10 exampleEnv exampleObjects emptyWorld (PObj 1) []) = Some 1 \<and>
   map_option nodeKind (nodeAfter (resolvePacked 10 exampleEnv exampleObjects emptyWorld (PObj 1) []) 1) =
     Some K_objectLiteral \<and>
   map_option nodeTypes (nodeAfter (resolvePacked 10 exampleEnv exampleObjects emptyWorld (PObj 1) []) 1) =
     Some [3] \<and>
   map_option nodeType (nodeAfter (resolvePacked 10 exampleEnv exampleObjects emptyWorld (PObj 1) []) 3) =
     Some (Some 2) \<and>
   map_option nodeType (nodeAfter (resolvePacked 10 exampleEnv exampleObjects emptyWorld (PObj 1) []) 2) =
     Some (Some 1)"
  by code_simp

text \<open>
  C1, as the specification states it, fails on two of the examples. Object 0 is
  \<open>type A = A[]\<close>: its program ends with \<open>array\<close>, so the node returned is the array 2,
  whose element is the anchor 1; the anchor is still of kind \<open>any\<close> and is not the node
  returned. Object 3 refers to itself through a thunk, and is resolved as a caller outside a
  run does, without a registry: the node returned is 1, its member 7 has the array 6 as
  type, and the element of that array is 3, the anchor of a second processor, not 1.
\<close>

theorem self_reference_counterexample:
  "returned (resolvePacked 10 exampleEnv exampleObjects emptyWorld (PObj 0) []) = Some 2 \<and>
   map_option nodeType (nodeAfter (resolvePacked 10 exampleEnv exampleObjects emptyWorld (PObj 0) []) 2) =
     Some (Some 1) \<and>
   map_option nodeKind (nodeAfter (resolvePacked 10 exampleEnv exampleObjects emptyWorld (PObj 0) []) 1) =
     Some K_any \<and>
   returned (resolvePacked 20 exampleEnv exampleObjects emptyWorld (PObj 3) []) = Some 1 \<and>
   map_option nodeTypes (nodeAfter (resolvePacked 20 exampleEnv exampleObjects emptyWorld (PObj 3) []) 1) =
     Some [7] \<and>
   map_option nodeType (nodeAfter (resolvePacked 20 exampleEnv exampleObjects emptyWorld (PObj 3) []) 7) =
     Some (Some 6) \<and>
   map_option nodeType (nodeAfter (resolvePacked 20 exampleEnv exampleObjects emptyWorld (PObj 3) []) 6) =
     Some (Some 3)"
  by code_simp

text \<open>
  Object 4 of the examples refers to itself through \<open>inlineCall\<close> with the sentinel and
  one argument. Each run of its program reaches the \<open>inlineCall\<close> and starts the same
  program again in a new processor, so no amount of fuel gives a result.
\<close>

lemma generic_facts:
  "opAt genericOps 0 = Some 0" "opAt genericOps 1 = Some 75" "opAt genericOps 2 = Some 0"
  "opAt genericOps 3 = Some 1" "opOf exampleEnv 0 = Some (Op_scalar K_string)"
  "opOf exampleEnv 75 = Some Op_inlineCall" "int (length genericOps) = 8"
  "poolAt genericPool (Some 0) = PNum 0"
  by code_simp+

lemma generic_first:
  assumes "program (core m) = 0"
  shows "storeRun (Suc fuel) exampleEnv exampleObjects genericOps genericPool ins w m =
     storeRun fuel exampleEnv exampleObjects genericOps genericPool ins
       (w\<lparr>heap := heap w @ [newNode K_string]\<rparr>)
       (advance (m\<lparr>core := push (Ty (length (heap w))) (core m)\<rparr>))"
  using assms generic_facts
  by (simp add: fetch_def planOp_def storeScalar_def alloc_def withCore_def)

lemma generic_plan:
  assumes "program (core m) = 1" and "0 \<le> stackPointer (core m)"
    and "stack (core m) (stackPointer (core m)) = Ty a" and "kindAt w a = Some K_string"
  shows "planOp exampleObjects genericOps genericPool ins Op_inlineCall w m =
     Run (forType m) genericOps genericPool [Ty a]
       ((core m)\<lparr>program := 3, stackPointer := stackPointer (core m) - 1\<rparr>)"
  using assms generic_facts
  by (simp add: planOp_def planInlineCall_def eatParameter_def pop_def callIfFunction_def)

lemma generic_diverges:
  "program (core m) = 0 \<Longrightarrow> - 1 \<le> stackPointer (core m) \<Longrightarrow>
   storeRun fuel exampleEnv exampleObjects genericOps genericPool ins w m = None"
proof (induction fuel arbitrary: m w ins rule: less_induct)
  case (less fuel)
  show ?case
  proof (cases fuel)
    case 0
    then show ?thesis by simp
  next
    case (Suc f)
    let ?w1 = "w\<lparr>heap := heap w @ [newNode K_string]\<rparr>"
    let ?m1 = "advance (m\<lparr>core := push (Ty (length (heap w))) (core m)\<rparr>)"
    have s1: "storeRun fuel exampleEnv exampleObjects genericOps genericPool ins w m =
        storeRun f exampleEnv exampleObjects genericOps genericPool ins ?w1 ?m1"
      using generic_first [OF less.prems(1)] Suc by simp
    show ?thesis
    proof (cases f)
      case 0
      with s1 show ?thesis by simp
    next
      case (Suc g)
      have p1: "program (core ?m1) = 1" "0 \<le> stackPointer (core ?m1)"
        "stack (core ?m1) (stackPointer (core ?m1)) = Ty (length (heap w))"
        using less.prems by (simp_all add: advance_def onCore_def push_def store_def)
      have k: "kindAt ?w1 (length (heap w)) = Some K_string"
        by (simp add: kindAt_def nodeAt_def newNode_def)
      let ?np = "newStoreProcessor (forType ?m1) (Some (registry ?m1)) ?w1"
      let ?m0 = "onCore (beginRun genericPool [Ty (length (heap w))]) (fst ?np)"
      have i0: "program (core ?m0) = 0" "- 1 \<le> stackPointer (core ?m0)"
        by (simp_all add: onCore_def beginRun_def Let_def genericPool_def)
      have "g < fuel" using \<open>fuel = Suc f\<close> Suc by simp
      from less.IH [OF this i0] have
        nested: "storeRun g exampleEnv exampleObjects genericOps genericPool
           [Ty (length (heap w))] (snd ?np) ?m0 = None" .
      have f1: "fetch exampleEnv genericOps ?m1 = Some Op_inlineCall"
        using p1(1) generic_facts by (simp add: fetch_def)
      have "storeRun f exampleEnv exampleObjects genericOps genericPool ins ?w1 ?m1 = None"
        unfolding Suc
        using p1(1) f1 generic_facts(7) generic_plan [OF p1 k, of ins] nested
        by simp
      with s1 show ?thesis by simp
    qed
  qed
qed

lemma generic_self_reference_diverges:
  "resolvePacked fuel exampleEnv exampleObjects emptyWorld (PObj 4) [] = None"
proof (cases fuel)
  case 0
  then show ?thesis by (simp add: resolvePacked_def)
next
  case (Suc f)
  have rs: "resolveStart exampleObjects emptyWorld (PObj 4) None =
      Inr (4, [PNum 0, PStr (str ''children''), PStr [33, 108, 33, 34, 75, 77, 34, 89]])"
    by (simp add: resolveStart_def packOf_def exampleObjects_def emptyWorld_def registered_def)
  have u: "packOps (unpack [PNum 0, PStr (str ''children''), PStr [33, 108, 33, 34, 75, 77, 34, 89]]) = genericOps"
    "packStack (unpack [PNum 0, PStr (str ''children''), PStr [33, 108, 33, 34, 75, 77, 34, 89]]) = genericPool"
    by (simp_all add: unpack_def genericOps_def genericPool_def)
  let ?np = "newStoreProcessor 4 None emptyWorld"
  have i0: "program (core (onCore (beginRun genericPool []) (fst ?np))) = 0"
    "- 1 \<le> stackPointer (core (onCore (beginRun genericPool []) (fst ?np)))"
    by (simp_all add: onCore_def beginRun_def Let_def genericPool_def)
  show ?thesis
    unfolding resolvePacked_def Suc
    using rs u generic_diverges [OF i0] by simp
qed

end
